(* ===== verification/Js_Prelude.thy ===== *)
theory Js_Prelude
  imports Complex_Main "HOL-Library.Multiset" "HOL-Library.Char_ord" "HOL-Library.List_Lexorder"
begin

text \<open>
  The ground the components of the web interface stand on: what a JavaScript expression can
  throw (\<^verbatim>\<open>js_error\<close>), the sequencing of expressions that may throw
  (\<^verbatim>\<open>jbind\<close> and the list traversals built on it), integers with the value NaN
  (\<^verbatim>\<open>jsint\<close>), and the array operation \<^verbatim>\<open>slice\<close>.

  A JavaScript string is a sequence of 16 bit code units. The model's \<^verbatim>\<open>string\<close>
  holds the units below 256, one \<^verbatim>\<open>char\<close> per unit; every operation of the source is
  defined on units through equality and order only, which Char_ord and List_Lexorder give.
\<close>

named_theorems js_eval \<open>definitions unfolded when a closed term of the model is evaluated\<close>
named_theorems js_inv \<open>preservation lemmas of the components' invariants\<close>

section \<open>Exceptions\<close>

datatype js_error = TypeError | SyntaxError

type_synonym 'a js = "js_error + 'a"

abbreviation ok :: "'a \<Rightarrow> 'a js" where
  "ok \<equiv> Inr"

abbreviation throw :: "js_error \<Rightarrow> 'a js" where
  "throw \<equiv> Inl"

definition jbind :: "'a js \<Rightarrow> ('a \<Rightarrow> 'b js) \<Rightarrow> 'b js" where
  "jbind m f = (case m of Inl e \<Rightarrow> Inl e | Inr x \<Rightarrow> f x)"

lemma jbind_simps [simp]:
  "jbind (Inl e) f = Inl e"
  "jbind (Inr x) f = f x"
  by (simp_all add: jbind_def)

lemma jbind_Inr_iff: "jbind m f = Inr y \<longleftrightarrow> (\<exists>x. m = Inr x \<and> f x = Inr y)"
  by (cases m) auto

lemma jbind_cong [fundef_cong]:
  "m = m' \<Longrightarrow> (\<And>x. m' = Inr x \<Longrightarrow> f x = g x) \<Longrightarrow> jbind m f = jbind m' g"
  by (cases m') auto

primrec js_mapM :: "('a \<Rightarrow> 'b js) \<Rightarrow> 'a list \<Rightarrow> 'b list js" where
  "js_mapM f [] = Inr []"
| "js_mapM f (x # xs) = jbind (f x) (\<lambda>y. jbind (js_mapM f xs) (\<lambda>ys. Inr (y # ys)))"

primrec js_filterM :: "('a \<Rightarrow> bool js) \<Rightarrow> 'a list \<Rightarrow> 'a list js" where
  "js_filterM f [] = Inr []"
| "js_filterM f (x # xs) =
     jbind (f x) (\<lambda>b. jbind (js_filterM f xs) (\<lambda>ys. Inr (if b then x # ys else ys)))"

primrec js_foldM :: "('s \<Rightarrow> 'a \<Rightarrow> 's js) \<Rightarrow> 's \<Rightarrow> 'a list \<Rightarrow> 's js" where
  "js_foldM f s [] = Inr s"
| "js_foldM f s (x # xs) = jbind (f s x) (\<lambda>s'. js_foldM f s' xs)"

lemma js_foldM_append: "js_foldM f s (xs @ ys) = jbind (js_foldM f s xs) (\<lambda>s'. js_foldM f s' ys)"
  by (induction xs arbitrary: s) (auto simp: jbind_def split: sum.splits)

lemma js_mapM_total:
  "(\<And>x. x \<in> set xs \<Longrightarrow> f x = Inr (g x)) \<Longrightarrow> js_mapM f xs = Inr (map g xs)"
  by (induction xs) auto

lemma js_mapM_throws:
  "x \<in> set xs \<Longrightarrow> f x = Inl e \<Longrightarrow> (\<And>y. y \<in> set xs \<Longrightarrow> f y = Inl e \<or> (\<exists>z. f y = Inr z)) \<Longrightarrow> js_mapM f xs = Inl e"
proof (induction xs)
  case (Cons y ys)
  show ?case
  proof (cases "f y = Inl e")
    case False
    with Cons obtain z where "f y = Inr z" "x \<in> set ys" by fastforce
    with Cons show ?thesis by simp
  qed simp
qed simp

lemma js_mapM_length: "js_mapM f xs = Inr ys \<Longrightarrow> length ys = length xs"
  by (induction xs arbitrary: ys) (auto simp: jbind_Inr_iff)

lemma js_filterM_total:
  "(\<And>x. x \<in> set xs \<Longrightarrow> f x = Inr (g x)) \<Longrightarrow> js_filterM f xs = Inr (filter g xs)"
  by (induction xs) auto

lemma js_mapM_ex: "(\<And>x. x \<in> set xs \<Longrightarrow> \<exists>y. f x = Inr y) \<Longrightarrow> \<exists>ys. js_mapM f xs = Inr ys"
  by (induction xs) (auto, force)

lemma js_filterM_ex: "(\<And>x. x \<in> set xs \<Longrightarrow> \<exists>b. f x = Inr b) \<Longrightarrow> \<exists>ys. js_filterM f xs = Inr ys"
  by (induction xs) (auto, force)

lemma js_filterM_Inr:
  "js_filterM f xs = Inr ys \<Longrightarrow> ys = filter (\<lambda>x. f x = Inr True) xs"
  by (induction xs arbitrary: ys) (auto simp: jbind_Inr_iff)

lemma js_filterM_defined:
  "js_filterM f xs = Inr ys \<Longrightarrow> x \<in> set xs \<Longrightarrow> \<exists>b. f x = Inr b"
  by (induction xs arbitrary: ys) (auto simp: jbind_Inr_iff)

lemma js_filterM_cong:
  "(\<And>x. x \<in> set xs \<Longrightarrow> f x = g x) \<Longrightarrow> js_filterM f xs = js_filterM g xs"
  by (induction xs) auto

lemma js_mapM_cong:
  "(\<And>x. x \<in> set xs \<Longrightarrow> f x = g x) \<Longrightarrow> js_mapM f xs = js_mapM g xs"
  by (induction xs) auto

section \<open>Integers with NaN\<close>

text \<open>
  The page arithmetic of the interface works on integers far below \<open>2 ^ 53\<close>, where JavaScript
  numbers are exact; the one value it also meets is NaN, which \<^verbatim>\<open>parseInt\<close> returns
  on text that starts with no digit. \<^verbatim>\<open>None\<close> is NaN. Comparison with NaN is false,
  arithmetic with NaN is NaN.
\<close>

type_synonym jsint = "int option"

abbreviation NaN :: jsint where
  "NaN \<equiv> None"

definition i_add :: "jsint \<Rightarrow> jsint \<Rightarrow> jsint" where
  "i_add a b = (case (a, b) of (Some x, Some y) \<Rightarrow> Some (x + y) | _ \<Rightarrow> None)"

definition i_sub :: "jsint \<Rightarrow> jsint \<Rightarrow> jsint" where
  "i_sub a b = (case (a, b) of (Some x, Some y) \<Rightarrow> Some (x - y) | _ \<Rightarrow> None)"

definition i_less :: "jsint \<Rightarrow> jsint \<Rightarrow> bool" where
  "i_less a b = (case (a, b) of (Some x, Some y) \<Rightarrow> x < y | _ \<Rightarrow> False)"

definition i_truthy :: "jsint \<Rightarrow> bool" where
  "i_truthy a = (case a of None \<Rightarrow> False | Some x \<Rightarrow> x \<noteq> 0)"

definition i_or :: "jsint \<Rightarrow> jsint \<Rightarrow> jsint" where
  "i_or a b = (if i_truthy a then a else b)"

lemma jsint_simps [simp]:
  "i_add (Some x) (Some y) = Some (x + y)" "i_add None b = None" "i_add a None = None"
  "i_sub (Some x) (Some y) = Some (x - y)" "i_sub None b = None" "i_sub a None = None"
  "i_less (Some x) (Some y) = (x < y)" "\<not> i_less None b" "\<not> i_less a None"
  "i_truthy (Some x) = (x \<noteq> 0)" "\<not> i_truthy None"
  by (auto simp: i_add_def i_sub_def i_less_def i_truthy_def split: option.splits)

lemma i_or_idem [simp]: "i_or a a = a"
  by (simp add: i_or_def)

section \<open>Array.prototype.slice\<close>

text \<open>A bound that is NaN is 0; a negative one counts from the end.\<close>

definition slice_bound :: "int \<Rightarrow> jsint \<Rightarrow> int" where
  "slice_bound n a =
     (case a of None \<Rightarrow> 0 | Some k \<Rightarrow> if k < 0 then max (n + k) 0 else min k n)"

definition js_slice :: "jsint \<Rightarrow> jsint \<Rightarrow> 'a list \<Rightarrow> 'a list" where
  "js_slice a b xs =
     (let n = int (length xs); i = slice_bound n a; j = slice_bound n b
      in take (nat (j - i)) (drop (nat i) xs))"

lemma js_slice_nat:
  assumes "0 \<le> a" "0 \<le> r"
  shows "js_slice (Some a) (Some (a + r)) xs = take (nat r) (drop (nat a) xs)"
proof (cases "a \<le> int (length xs)")
  case True
  show ?thesis
  proof (cases "a + r \<le> int (length xs)")
    case True
    with assms show ?thesis by (simp add: js_slice_def slice_bound_def)
  next
    case False
    have "length (drop (nat a) xs) \<le> nat (int (length xs) - a)" by simp
    moreover have "length (drop (nat a) xs) \<le> nat r"
      using False assms by simp
    ultimately have "take (nat (int (length xs) - a)) (drop (nat a) xs) = take (nat r) (drop (nat a) xs)"
      by (metis take_all)
    with False True assms show ?thesis by (simp add: js_slice_def slice_bound_def Let_def)
  qed
next
  case False
  then have "drop (nat a) xs = []" by simp
  moreover have "js_slice (Some a) (Some (a + r)) xs = []"
    using False assms by (simp add: js_slice_def slice_bound_def)
  ultimately show ?thesis by simp
qed

lemma js_slice_NaN [simp]: "js_slice None b xs = take (nat (slice_bound (int (length xs)) b)) xs"
  by (simp add: js_slice_def slice_bound_def Let_def)

lemma set_js_slice: "set (js_slice a b xs) \<subseteq> set xs"
  by (auto simp: js_slice_def Let_def dest: in_set_takeD in_set_dropD)

lemma distinct_js_slice: "distinct xs \<Longrightarrow> distinct (js_slice a b xs)"
  by (simp add: js_slice_def Let_def)

lemma length_js_slice: "length (js_slice a b xs) \<le> length xs"
  by (simp add: js_slice_def Let_def)

lemma js_slice_append:
  assumes "0 \<le> a" "0 \<le> r" "0 \<le> q"
  shows "js_slice (Some a) (Some (a + r)) xs @ js_slice (Some (a + r)) (Some (a + r + q)) xs
       = js_slice (Some a) (Some (a + (r + q))) xs"
proof -
  have "take (nat r) (drop (nat a) xs) @ take (nat q) (drop (nat (a + r)) xs)
      = take (nat r) (drop (nat a) xs) @ take (nat q) (drop (nat r) (drop (nat a) xs))"
    using assms by (simp add: nat_add_distrib add.commute)
  also have "\<dots> = take (nat r + nat q) (drop (nat a) xs)"
    by (simp add: take_add)
  finally show ?thesis
    using assms by (simp add: js_slice_nat nat_add_distrib)
qed

section \<open>Shared lemmas on lists\<close>

lemma sorted_wrt_take_drop:
  "sorted_wrt R xs \<Longrightarrow> sorted_wrt R (take n (drop m xs))"
  by (simp add: sorted_wrt_take sorted_wrt_drop)

lemma sorted_wrt_js_slice: "sorted_wrt R xs \<Longrightarrow> sorted_wrt R (js_slice a b xs)"
  by (simp add: js_slice_def Let_def sorted_wrt_take_drop)

lemma mset_eq_set: "mset xs = mset ys \<Longrightarrow> set xs = set ys"
  by (rule mset_eq_setD)

lemma map_same_update: "f y = f (xs ! k) \<Longrightarrow> map f (xs[k := y]) = map f xs"
  by (metis list_update_id map_update)

lemma sum_list_map_fold:
  fixes f :: "'a \<Rightarrow> int"
  shows "foldl (\<lambda>acc x. acc + f x) s xs = s + sum_list (map f xs)"
  by (induction xs arbitrary: s) auto

text \<open>Gathering by a key is a partition.\<close>

lemma partition_mset:
  "distinct ks \<Longrightarrow> key ` set xs \<subseteq> set ks \<Longrightarrow> mset (concat (map (\<lambda>k. filter (\<lambda>x. key x = k) xs) ks)) = mset xs"
proof (induction ks arbitrary: xs)
  case (Cons k ks)
  let ?ys = "filter (\<lambda>x. key x \<noteq> k) xs"
  have "concat (map (\<lambda>k. filter (\<lambda>x. key x = k) xs) ks) = concat (map (\<lambda>k. filter (\<lambda>x. key x = k) ?ys) ks)"
    using Cons.prems(1) by (intro arg_cong [where f = concat] map_cong) (auto intro!: filter_cong)
  moreover have "mset (concat (map (\<lambda>k. filter (\<lambda>x. key x = k) ?ys) ks)) = mset ?ys"
    using Cons.prems by (intro Cons.IH) auto
  ultimately show ?case by (simp add: multiset_partition [symmetric])
qed simp

end
