(* ===== verification/Js_Strings.thy ===== *)
theory Js_Strings
  imports Js_Prelude "HOL-Library.Log_Nat"
begin

text \<open>
  The string operations of JavaScript the interface uses: decimal rendering of integers and
  \<^verbatim>\<open>parseInt\<close>, \<^verbatim>\<open>substring\<close>, \<^verbatim>\<open>lastIndexOf\<close>, \<^verbatim>\<open>split\<close>, \<^verbatim>\<open>join\<close>, the
  regular expressions that are written in the source (as functions on strings), and
  numbers: \<^verbatim>\<open>parseFloat\<close>, the rounding of a decimal to a double and the comparison of
  primitive values.
\<close>

section \<open>Decimal digits\<close>

definition digit_char :: "nat \<Rightarrow> char" where
  "digit_char d = char_of (48 + d)"

definition is_digit :: "char \<Rightarrow> bool" where
  "is_digit c \<longleftrightarrow> 48 \<le> (of_char c :: nat) \<and> (of_char c :: nat) \<le> 57"

definition digit_val :: "char \<Rightarrow> nat" where
  "digit_val c = of_char c - 48"

fun nat_to_string :: "nat \<Rightarrow> string" where
  "nat_to_string n =
     (if n < 10 then [digit_char n] else nat_to_string (n div 10) @ [digit_char (n mod 10)])"

declare nat_to_string.simps [simp del]

definition digits_val :: "string \<Rightarrow> nat" where
  "digits_val s = foldl (\<lambda>acc c. 10 * acc + digit_val c) 0 s"

definition int_to_string :: "int \<Rightarrow> string" where
  "int_to_string n = (if n < 0 then CHR ''-'' # nat_to_string (nat (- n)) else nat_to_string (nat n))"

text \<open>An integer in string position; NaN prints as its name.\<close>

definition jsint_to_string :: "jsint \<Rightarrow> string" where
  "jsint_to_string a = (case a of None \<Rightarrow> ''NaN'' | Some n \<Rightarrow> int_to_string n)"

lemma of_char_digit_char: "d < 10 \<Longrightarrow> (of_char (digit_char d) :: nat) = 48 + d"
  by (simp add: digit_char_def)

lemma is_digit_digit_char [simp]: "d < 10 \<Longrightarrow> is_digit (digit_char d)"
  by (simp add: is_digit_def of_char_digit_char)

lemma digit_val_digit_char [simp]: "d < 10 \<Longrightarrow> digit_val (digit_char d) = d"
  by (simp add: digit_val_def of_char_digit_char)

lemma digits_val_snoc [simp]: "digits_val (s @ [c]) = 10 * digits_val s + digit_val c"
  by (simp add: digits_val_def)

lemma digits_val_single [simp]: "digits_val [c] = digit_val c"
  by (simp add: digits_val_def)

lemma digits_val_nat_to_string [simp]: "digits_val (nat_to_string n) = n"
proof (induction n rule: nat_to_string.induct)
  case (1 n)
  show ?case
  proof (cases "n < 10")
    case True
    then show ?thesis by (simp add: nat_to_string.simps [of n])
  next
    case False
    with "1.IH" have "digits_val (nat_to_string (n div 10)) = n div 10" by simp
    with False show ?thesis by (simp add: nat_to_string.simps [of n])
  qed
qed

lemma nat_to_string_digits: "\<forall>c \<in> set (nat_to_string n). is_digit c"
proof (induction n rule: nat_to_string.induct)
  case (1 n)
  then show ?case by (cases "n < 10") (auto simp: nat_to_string.simps [of n])
qed

lemma nat_to_string_nonempty [simp]: "nat_to_string n \<noteq> []"
  by (simp add: nat_to_string.simps [of n])

lemma nat_to_string_inject [simp]: "nat_to_string m = nat_to_string n \<longleftrightarrow> m = n"
  by (metis digits_val_nat_to_string)

lemma nat_to_string_no_leading_zero:
  "hd (nat_to_string n) = CHR ''0'' \<longleftrightarrow> n = 0"
proof (induction n rule: nat_to_string.induct)
  case (1 n)
  have zero: "d < 10 \<Longrightarrow> digit_char d = CHR ''0'' \<longleftrightarrow> d = 0" for d
    using of_char_digit_char [of d] of_char_eq_iff [of "digit_char d" "CHR ''0''", where 'a = nat]
    by auto
  show ?case
  proof (cases "n < 10")
    case True
    then show ?thesis by (simp add: nat_to_string.simps [of n] zero)
  next
    case False
    then have "hd (nat_to_string n) = hd (nat_to_string (n div 10))"
      by (simp add: nat_to_string.simps [of n])
    with False "1.IH" show ?thesis by simp
  qed
qed

lemma minus_not_digit [simp]: "\<not> is_digit CHR ''-''" "\<not> is_digit CHR ''+''"
  by (simp_all add: is_digit_def)

lemma hd_nat_to_string_digit: "is_digit (hd (nat_to_string n))"
  using nat_to_string_digits [of n] by (cases "nat_to_string n") auto

lemma int_to_string_inject [simp]: "int_to_string m = int_to_string n \<longleftrightarrow> m = n"
proof -
  have "CHR ''-'' # s \<noteq> nat_to_string k" for s k
    using hd_nat_to_string_digit [of k] by (cases "nat_to_string k") auto
  then show ?thesis
    by (auto simp: int_to_string_def dest: sym)
qed

text \<open>For evaluation: the same digits computed on binary integers.\<close>

function pos_digits :: "int \<Rightarrow> string" where
  "pos_digits n = (if n < 10 then [digit_char (nat n)] else pos_digits (n div 10) @ [digit_char (nat (n mod 10))])"
  by pat_completeness auto
termination by (relation "measure nat") auto

declare pos_digits.simps [simp del]

lemma nat_to_string_code [code]: "nat_to_string n = pos_digits (int n)"
proof (induction n rule: nat_to_string.induct)
  case (1 n)
  have "int n div 10 = int (n div 10)" "nat (int n mod 10) = n mod 10"
    by (simp_all add: zdiv_int nat_mod_distrib)
  with 1 show ?case by (simp add: nat_to_string.simps [of n] pos_digits.simps [of "int n"])
qed

lemma int_to_string_code [code]:
  "int_to_string n = (if n < 0 then CHR ''-'' # pos_digits (- n) else pos_digits n)"
  by (simp add: int_to_string_def nat_to_string_code)

section \<open>parseInt\<close>

definition is_space :: "char \<Rightarrow> bool" where
  "is_space c \<longleftrightarrow> (of_char c :: nat) \<in> {9, 10, 11, 12, 13, 32, 160}"

definition hex_val :: "char \<Rightarrow> nat option" where
  "hex_val c =
     (let k = (of_char c :: nat) in
      if 48 \<le> k \<and> k \<le> 57 then Some (k - 48)
      else if 65 \<le> k \<and> k \<le> 70 then Some (k - 55)
      else if 97 \<le> k \<and> k \<le> 102 then Some (k - 87) else None)"

definition hex_digits_val :: "string \<Rightarrow> nat" where
  "hex_digits_val s = foldl (\<lambda>acc c. 16 * acc + (case hex_val c of None \<Rightarrow> 0 | Some d \<Rightarrow> d)) 0 s"

definition strip_sign :: "string \<Rightarrow> int \<times> string" where
  "strip_sign s =
     (case s of c # r \<Rightarrow> if c = CHR ''-'' then (-1, r) else if c = CHR ''+'' then (1, r) else (1, s)
      | [] \<Rightarrow> (1, s))"

definition parse_nat_prefix :: "string \<Rightarrow> nat option" where
  "parse_nat_prefix s =
     (if length s \<ge> 2 \<and> s ! 0 = CHR ''0'' \<and> (s ! 1 = CHR ''x'' \<or> s ! 1 = CHR ''X'')
      then let d = takeWhile (\<lambda>c. hex_val c \<noteq> None) (drop 2 s)
           in if d = [] then None else Some (hex_digits_val d)
      else let d = takeWhile is_digit s in if d = [] then None else Some (digits_val d))"

definition parseInt :: "string \<Rightarrow> jsint" where
  "parseInt s =
     (let (sg, r) = strip_sign (dropWhile is_space s)
      in map_option (\<lambda>n. sg * int n) (parse_nat_prefix r))"

lemma takeWhile_digits_append:
  "(\<forall>c \<in> set s. is_digit c) \<Longrightarrow> (r = [] \<or> \<not> is_digit (hd r)) \<Longrightarrow> takeWhile is_digit (s @ r) = s"
  by (cases r) (auto simp: takeWhile_append)

lemma digit_not_x: "is_digit c \<Longrightarrow> c \<noteq> CHR ''x'' \<and> c \<noteq> CHR ''X''"
  by (auto simp: is_digit_def)

lemma digit_not_space: "is_digit c \<Longrightarrow> \<not> is_space c"
  by (auto simp: is_digit_def is_space_def)

lemma parse_nat_prefix_digits:
  assumes "\<forall>c \<in> set s. is_digit c" "s \<noteq> []" "r = [] \<or> (\<not> is_digit (hd r) \<and> hd r \<noteq> CHR ''x'' \<and> hd r \<noteq> CHR ''X'')"
  shows "parse_nat_prefix (s @ r) = Some (digits_val s)"
proof -
  have "(s @ r) ! 1 \<noteq> CHR ''x'' \<and> (s @ r) ! 1 \<noteq> CHR ''X''" if "length (s @ r) \<ge> 2"
  proof (cases "length s \<ge> 2")
    case True
    then have "s ! 1 \<in> set s" by simp
    with True assms(1) show ?thesis by (simp add: nth_append digit_not_x)
  next
    case False
    moreover have "length s > 0" using assms(2) by simp
    ultimately have "length s = 1" by linarith
    with that have "r \<noteq> []" by auto
    with \<open>length s = 1\<close> assms(3) show ?thesis by (cases r) (auto simp: nth_append)
  qed
  moreover have "takeWhile is_digit (s @ r) = s"
    using assms by (intro takeWhile_digits_append) auto
  ultimately show ?thesis
    using assms(2) by (auto simp: parse_nat_prefix_def Let_def)
qed

lemma strip_sign_digit: "s \<noteq> [] \<Longrightarrow> is_digit (hd s) \<Longrightarrow> strip_sign s = (1, s)"
  by (cases s) (auto simp: strip_sign_def)

lemma dropWhile_space_digit: "s \<noteq> [] \<Longrightarrow> is_digit (hd s) \<Longrightarrow> dropWhile is_space s = s"
  by (cases s) (auto simp: digit_not_space)

lemma parseInt_digits_append:
  assumes "r = [] \<or> (\<not> is_digit (hd r) \<and> hd r \<noteq> CHR ''x'' \<and> hd r \<noteq> CHR ''X'')"
  shows "parseInt (nat_to_string n @ r) = Some (int n)"
proof -
  have ne: "nat_to_string n @ r \<noteq> []" and hd: "is_digit (hd (nat_to_string n @ r))"
    using hd_nat_to_string_digit [of n] by (simp_all add: hd_append)
  show ?thesis
    using parse_nat_prefix_digits [OF nat_to_string_digits nat_to_string_nonempty assms]
    by (simp add: parseInt_def dropWhile_space_digit [OF ne hd] strip_sign_digit [OF ne hd])
qed

lemma parseInt_int_to_string_append:
  assumes "r = [] \<or> (\<not> is_digit (hd r) \<and> hd r \<noteq> CHR ''x'' \<and> hd r \<noteq> CHR ''X'')"
  shows "parseInt (int_to_string n @ r) = Some n"
proof (cases "n < 0")
  case True
  have "parse_nat_prefix (nat_to_string (nat (- n)) @ r) = Some (nat (- n))"
    using parse_nat_prefix_digits [OF nat_to_string_digits nat_to_string_nonempty assms] by simp
  with True show ?thesis
    by (simp add: parseInt_def int_to_string_def strip_sign_def is_space_def)
next
  case False
  with parseInt_digits_append [OF assms, of "nat n"] show ?thesis
    by (simp add: int_to_string_def)
qed

lemma parseInt_int_to_string [simp]: "parseInt (int_to_string n) = Some n"
  using parseInt_int_to_string_append [of "[]" n] by simp

section \<open>substring, lastIndexOf, split, join\<close>

definition lastIndexOf :: "char \<Rightarrow> string \<Rightarrow> int" where
  "lastIndexOf c s = (if c \<in> set s then int (length s) - 1 - int (length (takeWhile (\<lambda>d. d \<noteq> c) (rev s))) else - 1)"

definition js_substring :: "string \<Rightarrow> int \<Rightarrow> int \<Rightarrow> string" where
  "js_substring s a b =
     (let n = int (length s); i = min (max a 0) n; j = min (max b 0) n
      in take (nat (max i j - min i j)) (drop (nat (min i j)) s))"

fun js_split :: "char \<Rightarrow> string \<Rightarrow> string list" where
  "js_split c [] = [[]]"
| "js_split c (d # s) =
     (if d = c then [] # js_split c s
      else case js_split c s of [] \<Rightarrow> [[d]] | w # ws \<Rightarrow> (d # w) # ws)"

fun js_join :: "string \<Rightarrow> string list \<Rightarrow> string" where
  "js_join sep [] = []"
| "js_join sep [w] = w"
| "js_join sep (w # v # ws) = w @ sep @ js_join sep (v # ws)"

lemma js_split_nonempty [simp]: "js_split c s \<noteq> []"
  by (induction s) (auto split: list.splits)

lemma length_js_split: "length (js_split c s) = Suc (count_list s c)"
  by (induction s) (auto split: list.splits)

lemma js_join_split: "js_join [c] (js_split c s) = s"
proof (induction s)
  case (Cons d s)
  obtain w ws where eq: "js_split c s = w # ws"
    by (cases "js_split c s") auto
  with Cons show ?case by (cases ws) auto
qed simp

lemma lastIndexOf_snoc_part:
  assumes "c \<notin> set v"
  shows "lastIndexOf c (u @ [c] @ v) = int (length u)"
proof -
  have "takeWhile (\<lambda>d. d \<noteq> c) (rev v @ c # rev u) = rev v"
    using assms by (subst takeWhile_append2) auto
  then show ?thesis by (simp add: lastIndexOf_def)
qed

lemma js_substring_middle:
  "js_substring (u @ v @ w) (int (length u)) (int (length u + length v)) = v"
  by (simp add: js_substring_def Let_def)

lemma js_substring_prefix:
  "js_substring (u @ v) 0 (int (length u)) = u"
  by (simp add: js_substring_def Let_def)

section \<open>Regular expressions of the source\<close>

text \<open>\<^verbatim>\<open>s.replace(/<(.|\n)*?>/g, "")\<close>: a tag runs from \<open><\<close> to the next \<open>>\<close>; the dot
  matches no line terminator, so a carriage return (unit 13) ends the attempt.\<close>

fun tag_rest :: "string \<Rightarrow> string option" where
  "tag_rest [] = None"
| "tag_rest (c # s) =
     (if c = CHR ''>'' then Some s else if c = CHR 0x0D then None else tag_rest s)"

lemma tag_rest_length: "tag_rest s = Some r \<Longrightarrow> length r < length s"
  by (induction s) (auto split: if_splits)

function strip_tags :: "string \<Rightarrow> string" where
  "strip_tags [] = []"
| "strip_tags (c # s) =
     (if c = CHR ''<'' then (case tag_rest s of Some r \<Rightarrow> strip_tags r | None \<Rightarrow> c # strip_tags s)
      else c # strip_tags s)"
  by pat_completeness auto
termination
  by (relation "measure length") (auto dest: tag_rest_length)

lemma strip_tags_plain: "CHR ''<'' \<notin> set s \<Longrightarrow> strip_tags s = s"
  by (induction s) auto

lemma tag_rest_append:
  "CHR ''>'' \<notin> set t \<Longrightarrow> CHR 0x0D \<notin> set t \<Longrightarrow> tag_rest (t @ CHR ''>'' # r) = Some r"
  by (induction t) auto

lemma strip_tags_tag:
  assumes "CHR ''>'' \<notin> set t" "CHR 0x0D \<notin> set t"
  shows "strip_tags (CHR ''<'' # t @ CHR ''>'' # r) = strip_tags r"
  by (simp add: tag_rest_append [OF assms])

lemma strip_tags_append:
  "CHR ''<'' \<notin> set s \<Longrightarrow> strip_tags (s @ r) = s @ strip_tags r"
  by (induction s) auto

text \<open>\<^verbatim>\<open>s.match(/\?/)\<close> and \<^verbatim>\<open>s.replace(/\?/, "&")\<close>, the first occurrence only.\<close>

definition has_qmark :: "string \<Rightarrow> bool" where
  "has_qmark s \<longleftrightarrow> CHR ''?'' \<in> set s"

fun replace_qmark :: "string \<Rightarrow> string" where
  "replace_qmark [] = []"
| "replace_qmark (c # s) = (if c = CHR ''?'' then CHR ''&'' # s else c # replace_qmark s)"

lemma replace_qmark_none: "\<not> has_qmark s \<Longrightarrow> replace_qmark s = s"
  by (induction s) (auto simp: has_qmark_def)

lemma length_replace_qmark [simp]: "length (replace_qmark s) = length s"
  by (induction s) auto

end
