(* ===== verification/Js_Values.thy ===== *)
theory Js_Values
  imports Js_Strings
begin

text \<open>
  Numbers and primitive values. A finite number is a rational that a double can hold;
  \<^verbatim>\<open>double\<close> rounds an exact rational to the nearest one (ties to even, gradual underflow,
  overflow to infinity), and the conversions between numbers and strings are those of the
  language: \<^verbatim>\<open>parseFloat\<close> reads the longest numeric prefix, \<^verbatim>\<open>string_to_number\<close> the whole
  string, \<^verbatim>\<open>num_to_string\<close> prints the shortest decimal that rounds back.
\<close>

section \<open>Doubles\<close>

datatype jsnum = JNaN | JNegInf | JInf | Fin rat

definition round_half_even :: "rat \<Rightarrow> int" where
  "round_half_even q =
     (let f = \<lfloor>q\<rfloor>; d = q - of_int f
      in if d < 1/2 then f else if d > 1/2 then f + 1 else if even f then f else f + 1)"

definition floor_log2 :: "rat \<Rightarrow> int" where
  "floor_log2 q = (if q \<ge> 1 then bitlen \<lfloor>q\<rfloor> - 1 else - bitlen (\<lceil>1 / q\<rceil> - 1))"

definition double :: "rat \<Rightarrow> jsnum" where
  "double q =
     (if q = 0 then Fin 0
      else let a = \<bar>q\<bar>; e = max (floor_log2 a) (-1022); u = 2 powi (e - 52);
               v = of_int (round_half_even (a / u)) * u
           in if v \<ge> 2 ^ 1024 then (if q > 0 then JInf else JNegInf) else Fin (sgn q * v))"

definition num_eq :: "jsnum \<Rightarrow> jsnum \<Rightarrow> bool" where
  "num_eq a b \<longleftrightarrow> a \<noteq> JNaN \<and> a = b"

fun num_less :: "jsnum \<Rightarrow> jsnum \<Rightarrow> bool" where
  "num_less JNaN b = False"
| "num_less a JNaN = False"
| "num_less JNegInf b = (b \<noteq> JNegInf)"
| "num_less JInf b = False"
| "num_less (Fin p) (Fin q) = (p < q)"
| "num_less (Fin p) JInf = True"
| "num_less (Fin p) JNegInf = False"

definition num_le :: "jsnum \<Rightarrow> jsnum \<Rightarrow> bool" where
  "num_le a b \<longleftrightarrow> num_less a b \<or> num_eq a b"

lemma round_half_even_of_int [simp]: "round_half_even (of_int n) = n"
  by (simp add: round_half_even_def)

lemma bitlen_le: "n < 2 ^ k \<Longrightarrow> bitlen n \<le> int k"
proof -
  assume "n < 2 ^ k"
  then have "nat n < 2 ^ k" by (simp add: nat_less_numeral_power_cancel_iff)
  then show ?thesis by (simp add: bitlen_def floorlog_leI)
qed

text \<open>Integers up to \<open>2 ^ 53\<close> are doubles, so the integer arithmetic of the interface is exact.\<close>

lemma double_of_int:
  assumes "\<bar>n\<bar> \<le> 2 ^ 53"
  shows "double (of_int n) = Fin (of_int n)"
proof (cases "n = 0")
  case True
  then show ?thesis by (simp add: double_def)
next
  case False
  define a where "a = \<bar>n\<bar>"
  have a: "1 \<le> a" "a \<le> 2 ^ 53" using False assms by (auto simp: a_def)
  define e where "e = max (bitlen a - 1) (-1022)"
  have fl: "max (floor_log2 (of_int a)) (-1022) = e"
    using a by (simp add: floor_log2_def e_def)
  obtain m where m: "of_int a / 2 powi (e - 52) = (of_int m :: rat)"
  proof (cases "a = 2 ^ 53")
    case True
    then have "e = 53" using bitlen_pow2 [of 1 53] compute_bitlen [of 1] by (simp add: e_def)
    with True that [of "2 ^ 52"] show ?thesis by simp
  next
    case False
    with a have "a < 2 ^ 53" by simp
    then have "bitlen a \<le> 53" using a bitlen_le [of a 53] by simp
    then have "e - 52 \<le> 0" by (simp add: e_def)
    then obtain k :: nat where "e - 52 = - int k" by (metis nonpos_int_cases)
    then have "of_int a / 2 powi (e - 52) = (of_int (a * 2 ^ k) :: rat)"
      by (simp add: power_int_minus divide_simps)
    with that show ?thesis by blast
  qed
  define u where "u = (2::rat) powi (e - 52)"
  have "u \<noteq> 0" by (simp add: u_def)
  have "of_int (round_half_even (of_int a / u)) * u = (of_int a :: rat)"
    using m \<open>u \<noteq> 0\<close> by (simp add: u_def [symmetric] divide_eq_eq)
  moreover have "(of_int a :: rat) < 2 ^ 1024"
  proof -
    have "(of_int a :: rat) \<le> 2 ^ 53"
      using a(2) by (metis of_int_le_iff of_int_numeral of_int_power)
    also have "(2::rat) ^ 53 < 2 ^ 1024" by (rule power_strict_increasing) auto
    finally show ?thesis .
  qed
  moreover have "\<bar>of_int n :: rat\<bar> = of_int a" by (simp add: a_def)
  moreover have "sgn (of_int n :: rat) * of_int a = of_int n"
    by (simp add: a_def sgn_mult_abs)
  ultimately show ?thesis
    using False fl by (simp add: double_def Let_def u_def [symmetric])
qed

lemma num_less_irrefl [simp]: "\<not> num_less a a"
  by (cases a) auto

lemma num_less_trans: "num_less a b \<Longrightarrow> num_less b c \<Longrightarrow> num_less a c"
  by (cases a; cases b; cases c) auto

lemma num_less_linear: "a \<noteq> JNaN \<Longrightarrow> b \<noteq> JNaN \<Longrightarrow> num_less a b \<or> a = b \<or> num_less b a"
  by (cases a; cases b) auto

lemma num_less_asym: "num_less a b \<Longrightarrow> \<not> num_less b a"
  using num_less_irrefl num_less_trans by blast

section \<open>Reading numbers\<close>

definition exponent_part :: "string \<Rightarrow> int \<times> string" where
  "exponent_part s =
     (case s of
        c # r \<Rightarrow>
          if c = CHR ''e'' \<or> c = CHR ''E''
          then let (sg, r') = strip_sign r; d = takeWhile is_digit r'
               in if d = [] then (0, s) else (sg * int (digits_val d), dropWhile is_digit r')
          else (0, s)
      | [] \<Rightarrow> (0, s))"

definition unsigned_decimal :: "string \<Rightarrow> (rat \<times> string) option" where
  "unsigned_decimal s =
     (let d1 = takeWhile is_digit s; r1 = dropWhile is_digit s;
          (d2, r2) = (case r1 of
             c # r \<Rightarrow> if c = CHR ''.'' then (takeWhile is_digit r, dropWhile is_digit r) else ([], r1)
           | [] \<Rightarrow> ([], r1))
      in if d1 = [] \<and> d2 = [] then None
         else let (ex, r3) = exponent_part r2
              in Some (of_nat (digits_val (d1 @ d2)) / 10 ^ length d2 * 10 powi ex, r3))"

definition starts_with :: "string \<Rightarrow> string \<Rightarrow> bool" where
  "starts_with p s \<longleftrightarrow> take (length p) s = p"

definition parseFloat :: "string \<Rightarrow> jsnum" where
  "parseFloat s =
     (let (sg, r) = strip_sign (dropWhile is_space s)
      in if starts_with ''Infinity'' r then (if sg = 1 then JInf else JNegInf)
         else case unsigned_decimal r of None \<Rightarrow> JNaN | Some (q, _) \<Rightarrow> double (of_int sg * q))"

definition trim :: "string \<Rightarrow> string" where
  "trim s = rev (dropWhile is_space (rev (dropWhile is_space s)))"

definition radix_digits :: "nat \<Rightarrow> string \<Rightarrow> nat option" where
  "radix_digits b s =
     (if s \<noteq> [] \<and> list_all (\<lambda>c. case hex_val c of Some d \<Rightarrow> d < b | None \<Rightarrow> False) s
      then Some (foldl (\<lambda>acc c. b * acc + (case hex_val c of Some d \<Rightarrow> d | None \<Rightarrow> 0)) 0 s) else None)"

definition string_to_number :: "string \<Rightarrow> jsnum" where
  "string_to_number s =
     (let t = trim s; pre = take 2 t;
          rad = (\<lambda>b. case radix_digits b (drop 2 t) of None \<Rightarrow> JNaN | Some n \<Rightarrow> double (of_nat n))
      in if t = [] then Fin 0
         else if pre = ''0x'' \<or> pre = ''0X'' then rad 16
         else if pre = ''0o'' \<or> pre = ''0O'' then rad 8
         else if pre = ''0b'' \<or> pre = ''0B'' then rad 2
         else let (sg, r) = strip_sign t
              in if r = ''Infinity'' then (if sg = 1 then JInf else JNegInf)
                 else case unsigned_decimal r of
                        Some (q, []) \<Rightarrow> double (of_int sg * q)
                      | _ \<Rightarrow> JNaN)"

lemma unsigned_decimal_nat_to_string: "unsigned_decimal (nat_to_string n) = Some (of_nat n, [])"
proof -
  have tw: "takeWhile is_digit (nat_to_string n) = nat_to_string n"
    and dw: "dropWhile is_digit (nat_to_string n) = []"
    using nat_to_string_digits [of n] by (auto simp: takeWhile_eq_all_conv dropWhile_eq_Nil_conv)
  show ?thesis by (simp add: unsigned_decimal_def tw dw exponent_part_def)
qed

lemma parseFloat_nat_to_string:
  assumes "n \<le> 2 ^ 53"
  shows "parseFloat (nat_to_string n) = Fin (of_nat n)"
proof -
  have ne: "nat_to_string n \<noteq> []" and hd: "is_digit (hd (nat_to_string n))"
    by (simp_all add: hd_nat_to_string_digit)
  have "\<not> starts_with ''Infinity'' (nat_to_string n)"
  proof
    assume "starts_with ''Infinity'' (nat_to_string n)"
    then have "hd (nat_to_string n) = CHR ''I''"
      using ne by (cases "nat_to_string n") (auto simp: starts_with_def)
    with hd show False by (simp add: is_digit_def)
  qed
  moreover note unsigned_decimal_nat_to_string [of n]
  moreover have "double (of_nat n) = Fin (of_nat n)"
    using double_of_int [of "int n"] assms by simp
  ultimately show ?thesis
    by (simp add: parseFloat_def dropWhile_space_digit [OF ne hd] strip_sign_digit [OF ne hd])
qed

section \<open>Printing numbers\<close>

definition decimal_exponent :: "rat \<Rightarrow> int" where
  "decimal_exponent x =
     (if x \<ge> 1 then int (length (nat_to_string (nat \<lfloor>x\<rfloor>)))
      else 1 - int (length (nat_to_string (nat (\<lceil>1 / x\<rceil> - 1)))))"

definition shortest_candidate :: "rat \<Rightarrow> int \<Rightarrow> nat \<Rightarrow> nat option" where
  "shortest_candidate x n k =
     (let u = 10 powi (n - int k); lo = nat \<lfloor>x / u\<rfloor>; hi = nat \<lceil>x / u\<rceil>;
          fits = (\<lambda>s. s < 10 ^ k \<and> double (of_nat s * u) = Fin x)
      in if fits lo \<and> (\<not> fits hi \<or> x - of_nat lo * u \<le> of_nat hi * u - x) then Some lo
         else if fits hi then Some hi else None)"

definition shortest_digits :: "rat \<Rightarrow> nat \<times> nat" where
  "shortest_digits x =
     (let n = decimal_exponent x;
          cs = List.map_filter (\<lambda>k. map_option (\<lambda>s. (s, k)) (shortest_candidate x n k)) [1..<18]
      in case cs of [] \<Rightarrow> (nat \<lfloor>x / 10 powi (n - 17)\<rfloor>, 17) | c # _ \<Rightarrow> c)"

definition positive_to_string :: "rat \<Rightarrow> string" where
  "positive_to_string x =
     (let n = decimal_exponent x; (s, k) = shortest_digits x; d = nat_to_string s
      in if int k \<le> n \<and> n \<le> 21 then d @ replicate (nat (n - int k)) CHR ''0''
         else if 0 < n \<and> n \<le> 21 then take (nat n) d @ ''.'' @ drop (nat n) d
         else if - 6 < n \<and> n \<le> 0 then ''0.'' @ replicate (nat (- n)) CHR ''0'' @ d
         else take 1 d @ (if k > 1 then ''.'' @ drop 1 d else []) @ ''e''
              @ (if n - 1 < 0 then ''-'' else ''+'') @ nat_to_string (nat \<bar>n - 1\<bar>))"

fun num_to_string :: "jsnum \<Rightarrow> string" where
  "num_to_string JNaN = ''NaN''"
| "num_to_string JInf = ''Infinity''"
| "num_to_string JNegInf = ''-Infinity''"
| "num_to_string (Fin q) =
     (if of_int \<lfloor>q\<rfloor> = q \<and> \<bar>\<lfloor>q\<rfloor>\<bar> \<le> 9007199254740992 then int_to_string \<lfloor>q\<rfloor>
      else if q < 0 then ''-'' @ positive_to_string (- q) else positive_to_string q)"

section \<open>Primitive values\<close>

datatype jsval = Undef | Null | Bool bool | Num jsnum | Str string

fun truthy :: "jsval \<Rightarrow> bool" where
  "truthy Undef = False"
| "truthy Null = False"
| "truthy (Bool b) = b"
| "truthy (Num n) = (n \<noteq> JNaN \<and> n \<noteq> Fin 0)"
| "truthy (Str s) = (s \<noteq> [])"

fun to_number :: "jsval \<Rightarrow> jsnum" where
  "to_number Undef = JNaN"
| "to_number Null = Fin 0"
| "to_number (Bool b) = Fin (if b then 1 else 0)"
| "to_number (Num n) = n"
| "to_number (Str s) = string_to_number s"

fun to_string :: "jsval \<Rightarrow> string" where
  "to_string Undef = ''undefined''"
| "to_string Null = ''null''"
| "to_string (Bool b) = (if b then ''true'' else ''false'')"
| "to_string (Num n) = num_to_string n"
| "to_string (Str s) = s"

text \<open>Assignment to \<^verbatim>\<open>innerHTML\<close> writes null as the empty string.\<close>

definition to_html :: "jsval \<Rightarrow> string" where
  "to_html v = (if v = Null then [] else to_string v)"

text \<open>\<^verbatim>\<open>a == b\<close> and \<^verbatim>\<open>a < b\<close>.\<close>

definition nullish :: "jsval \<Rightarrow> bool" where
  "nullish v \<longleftrightarrow> v = Undef \<or> v = Null"

definition loose_eq :: "jsval \<Rightarrow> jsval \<Rightarrow> bool" where
  "loose_eq a b =
     (case (a, b) of (Str s, Str t) \<Rightarrow> s = t
      | _ \<Rightarrow> if nullish a \<or> nullish b then nullish a \<and> nullish b
             else num_eq (to_number a) (to_number b))"

definition js_less :: "jsval \<Rightarrow> jsval \<Rightarrow> bool" where
  "js_less a b =
     (case (a, b) of (Str s, Str t) \<Rightarrow> s < t | _ \<Rightarrow> num_less (to_number a) (to_number b))"

lemma loose_eq_Str [simp]: "loose_eq (Str s) (Str t) \<longleftrightarrow> s = t"
  by (simp add: loose_eq_def)

lemma js_less_Str [simp]: "js_less (Str s) (Str t) \<longleftrightarrow> s < t"
  by (simp add: js_less_def)

lemma loose_eq_Num [simp]: "loose_eq (Num a) (Num b) \<longleftrightarrow> num_eq a b"
  by (simp add: loose_eq_def nullish_def)

lemma js_less_Num [simp]: "js_less (Num a) (Num b) \<longleftrightarrow> num_less a b"
  by (simp add: js_less_def)

text \<open>\<^verbatim>\<open>typeof v.replace == "function"\<close>: reading a property of undefined or null throws.\<close>

definition has_replace :: "jsval \<Rightarrow> bool js" where
  "has_replace v = (if nullish v then throw TypeError else ok (case v of Str _ \<Rightarrow> True | _ \<Rightarrow> False))"

text \<open>\<^verbatim>\<open>v.replace(/<(.|\n)*?>/g, "")\<close>.\<close>

definition replace_tags :: "jsval \<Rightarrow> string js" where
  "replace_tags v = (case v of Str s \<Rightarrow> ok (strip_tags s) | _ \<Rightarrow> throw TypeError)"

end
