(* ===== verification/Js_Objects.thy ===== *)
theory Js_Objects
  imports Js_Strings
begin

text \<open>
  JavaScript objects used as dictionaries. An object is the list of its properties in the order
  they were first written; \<^verbatim>\<open>for (k in o)\<close> visits the array-index keys first, in ascending
  numeric order, and then the other keys in that order of writing. The interface the widgets
  rely on is the locale \<^verbatim>\<open>property_map\<close>; the widgets' grouping and indexing loops are
  proved against it. Not covered is the one name that is no ordinary key: writing \<^verbatim>\<open>__proto__\<close>
  changes the prototype of an object instead of a property.
\<close>

type_synonym 'v props = "(string \<times> 'v) list"

definition oget :: "'v props \<Rightarrow> string \<Rightarrow> 'v option" where
  "oget o' k = map_of o' k"

fun oput :: "'v props \<Rightarrow> string \<Rightarrow> 'v \<Rightarrow> 'v props" where
  "oput [] k v = [(k, v)]"
| "oput ((k', v') # o') k v = (if k' = k then (k, v) # o' else (k', v') # oput o' k v)"

definition odel :: "'v props \<Rightarrow> string \<Rightarrow> 'v props" where
  "odel o' k = filter (\<lambda>p. fst p \<noteq> k) o'"

definition has_own :: "'v props \<Rightarrow> string \<Rightarrow> bool" where
  "has_own o' k \<longleftrightarrow> oget o' k \<noteq> None"

definition owf :: "'v props \<Rightarrow> bool" where
  "owf o' \<longleftrightarrow> distinct (map fst o')"

text \<open>The names every object inherits; reading one of them gives a function or an object.\<close>

definition object_proto :: "string list" where
  "object_proto = [''constructor'', ''hasOwnProperty'', ''isPrototypeOf'', ''propertyIsEnumerable'', ''toLocaleString'',
     ''toString'', ''valueOf'', ''__defineGetter__'', ''__defineSetter__'', ''__lookupGetter__'', ''__lookupSetter__'',
     ''__proto__'']"

text \<open>An array index: the canonical decimal of a number below \<open>2 ^ 32 - 1\<close>.\<close>

definition is_index :: "string \<Rightarrow> bool" where
  "is_index k \<longleftrightarrow>
     k \<noteq> [] \<and> list_all is_digit k \<and> nat_to_string (digits_val k) = k \<and> digits_val k < 2 ^ 32 - 1"

lemma is_index_code [code]:
  "is_index k \<longleftrightarrow>
     k \<noteq> [] \<and> list_all is_digit k \<and> nat_to_string (digits_val k) = k \<and> int (digits_val k) < 4294967295"
  by (auto simp: is_index_def)

text \<open>The order in which \<^verbatim>\<open>for ... in\<close> visits the keys.\<close>

definition okeys :: "'v props \<Rightarrow> string list" where
  "okeys o' =
     (let ks = map fst o'
      in sort_key digits_val (filter is_index ks) @ filter (\<lambda>k. \<not> is_index k) ks)"

locale property_map =
  fixes empty :: "'m"
    and get :: "'m \<Rightarrow> 'k \<Rightarrow> 'v option"
    and put :: "'m \<Rightarrow> 'k \<Rightarrow> 'v \<Rightarrow> 'm"
    and del :: "'m \<Rightarrow> 'k \<Rightarrow> 'm"
    and keys :: "'m \<Rightarrow> 'k list"
    and inv :: "'m \<Rightarrow> bool"
  assumes get_empty: "get empty k = None"
    and get_put: "get (put m k v) k' = (if k' = k then Some v else get m k')"
    and get_del: "get (del m k) k' = (if k' = k then None else get m k')"
    and keys_get: "set (keys m) = {k. get m k \<noteq> None}"
    and distinct_keys: "inv m \<Longrightarrow> distinct (keys m)"
    and inv_empty: "inv empty"
    and inv_put: "inv m \<Longrightarrow> inv (put m k v)"
    and inv_del: "inv m \<Longrightarrow> inv (del m k)"
begin

text \<open>A loop \<^verbatim>\<open>for (x of xs) m[f(x)] = g(x)\<close>.\<close>

lemma get_put_all_other:
  "k \<notin> f ` set xs \<Longrightarrow> get (foldl (\<lambda>m x. put m (f x) (g x)) m xs) k = get m k"
  by (induction xs arbitrary: m) (auto simp: get_put)

lemma get_put_all_distinct:
  "distinct (map f xs) \<Longrightarrow> x \<in> set xs \<Longrightarrow>
     get (foldl (\<lambda>m x. put m (f x) (g x)) m xs) (f x) = Some (g x)"
proof (induction xs arbitrary: m)
  case (Cons y ys)
  show ?case
  proof (cases "x = y")
    case True
    with Cons.prems have "f x \<notin> f ` set ys" by auto
    with True show ?thesis by (simp add: get_put_all_other get_put)
  next
    case False
    with Cons show ?thesis by simp
  qed
qed simp

lemma get_put_all_last:
  "get (foldl (\<lambda>m x. put m (f x) (g x)) m (xs @ [x])) (f x) = Some (g x)"
  by (simp add: get_put)

lemma dom_put_all:
  "get (foldl (\<lambda>m x. put m (f x) (g x)) m xs) k \<noteq> None \<longleftrightarrow> k \<in> f ` set xs \<or> get m k \<noteq> None"
  by (induction xs arbitrary: m) (auto simp: get_put)

lemma inv_put_all: "inv m \<Longrightarrow> inv (foldl (\<lambda>m x. put m (f x) (g x)) m xs)"
  by (induction xs arbitrary: m) (auto simp: inv_put)

lemma get_put_all_const:
  "get (foldl (\<lambda>m x. put m (f x) v) m xs) k = (if k \<in> f ` set xs then Some v else get m k)"
  by (induction xs arbitrary: m) (auto simp: get_put)

end

lemma set_oput_fst: "fst ` set (oput m k v) = insert k (fst ` set m)"
proof (induction m)
  case (Cons p m)
  obtain a b where p: "p = (a, b)" by (cases p)
  show ?case
  proof (cases "a = k")
    case True
    then show ?thesis by (simp add: p)
  next
    case False
    then show ?thesis using Cons.IH by (simp add: p insert_commute)
  qed
qed simp

lemma owf_oput: "owf m \<Longrightarrow> owf (oput m k v)"
proof (induction m)
  case (Cons p m)
  then show ?case
    using set_oput_fst [of m k v] by (cases p) (auto simp: owf_def)
qed (simp add: owf_def)

lemma oget_oput: "oget (oput m k v) k' = (if k' = k then Some v else oget m k')"
  by (induction m) (auto simp: oget_def)

lemma oget_odel: "oget (odel m k) k' = (if k' = k then None else oget m k')"
  by (induction m) (auto simp: oget_def odel_def)

lemma set_okeys: "set (okeys m) = {k. oget m k \<noteq> None}"
  by (auto simp: okeys_def Let_def oget_def map_of_eq_None_iff)

lemma distinct_okeys: "owf m \<Longrightarrow> distinct (okeys m)"
  by (auto simp: okeys_def Let_def owf_def)

interpretation obj: property_map "[] :: 'v props" oget oput odel okeys owf
proof unfold_locales
  show "oget [] k = None" for k :: string by (simp add: oget_def)
  show "oget (oput m k v) k' = (if k' = k then Some v else oget m k')" for m :: "'v props" and k v k'
    by (rule oget_oput)
  show "oget (odel m k) k' = (if k' = k then None else oget m k')" for m :: "'v props" and k k'
    by (rule oget_odel)
  show "set (okeys m) = {k. oget m k \<noteq> None}" for m :: "'v props" by (rule set_okeys)
  show "owf m \<Longrightarrow> distinct (okeys m)" for m :: "'v props" by (rule distinct_okeys)
  show "owf []" by (simp add: owf_def)
  show "owf m \<Longrightarrow> owf (oput m k v)" for m :: "'v props" and k v by (rule owf_oput)
  show "owf m \<Longrightarrow> owf (odel m k)" for m :: "'v props" and k
    by (auto simp: owf_def odel_def distinct_map_filter)
qed

lemma owf_Nil [simp]: "owf []"
  by (rule obj.inv_empty)

lemma oget_Nil [simp]: "oget [] k = None"
  by (rule obj.get_empty)

lemma is_index_nat_to_string: "n < 2 ^ 32 - 1 \<Longrightarrow> is_index (nat_to_string n)"
  using nat_to_string_digits [of n] by (auto simp: is_index_def list_all_iff)

lemma okeys_set: "k \<in> set (okeys m) \<longleftrightarrow> has_own m k"
  by (simp add: set_okeys has_own_def)

lemma length_okeys: "length (okeys m) = length m"
proof -
  have "length (okeys m) = length (filter is_index (map fst m)) + length (filter (\<lambda>k. \<not> is_index k) (map fst m))"
    unfolding okeys_def Let_def by (simp only: length_append length_sort)
  then show ?thesis by (simp only: sum_length_filter_compl length_map)
qed

end
