(* ===== verification/Js_Sort.thy ===== *)
theory Js_Sort
  imports Js_Prelude
begin

text \<open>
  \<^verbatim>\<open>Array.prototype.sort\<close>. The language fixes the result when the comparison function is
  consistent: a permutation, ordered, and stable. \<^verbatim>\<open>js_sort\<close> is one implementation, and
  \<^verbatim>\<open>engine_independent\<close> shows that any other one returns the same list, so a theorem
  about \<^verbatim>\<open>js_sort\<close> on a consistent comparison is a theorem about every engine.
  \<^verbatim>\<open>js_sortM\<close> is the same algorithm on a comparison that may throw.
\<close>

primrec ins :: "('a \<Rightarrow> 'a \<Rightarrow> int) \<Rightarrow> 'a \<Rightarrow> 'a list \<Rightarrow> 'a list" where
  "ins c x [] = [x]"
| "ins c x (y # ys) = (if c x y < 0 then x # y # ys else y # ins c x ys)"

definition js_sort :: "('a \<Rightarrow> 'a \<Rightarrow> int) \<Rightarrow> 'a list \<Rightarrow> 'a list" where
  "js_sort c xs = foldl (\<lambda>acc x. ins c x acc) [] xs"

primrec insM :: "('a \<Rightarrow> 'a \<Rightarrow> int js) \<Rightarrow> 'a \<Rightarrow> 'a list \<Rightarrow> 'a list js" where
  "insM c x [] = Inr [x]"
| "insM c x (y # ys) =
     jbind (c x y) (\<lambda>r. if r < 0 then Inr (x # y # ys)
                        else jbind (insM c x ys) (\<lambda>zs. Inr (y # zs)))"

definition js_sortM :: "('a \<Rightarrow> 'a \<Rightarrow> int js) \<Rightarrow> 'a list \<Rightarrow> 'a list js" where
  "js_sortM c xs = js_foldM (\<lambda>acc x. insM c x acc) [] xs"

text \<open>A consistent comparison on a set: a total preorder read off the sign.\<close>

definition consistent :: "('a \<Rightarrow> 'a \<Rightarrow> int) \<Rightarrow> 'a set \<Rightarrow> bool" where
  "consistent c S \<longleftrightarrow>
     (\<forall>x\<in>S. c x x = 0) \<and> (\<forall>x\<in>S. \<forall>y\<in>S. c x y < 0 \<longleftrightarrow> 0 < c y x)
     \<and> (\<forall>x\<in>S. \<forall>y\<in>S. \<forall>z\<in>S. c x y \<le> 0 \<longrightarrow> c y z \<le> 0 \<longrightarrow> c x z \<le> 0)"

lemma consistentD:
  assumes "consistent c S"
  shows "x \<in> S \<Longrightarrow> c x x = 0"
    and "x \<in> S \<Longrightarrow> y \<in> S \<Longrightarrow> c x y < 0 \<longleftrightarrow> 0 < c y x"
    and "x \<in> S \<Longrightarrow> y \<in> S \<Longrightarrow> z \<in> S \<Longrightarrow> c x y \<le> 0 \<Longrightarrow> c y z \<le> 0 \<Longrightarrow> c x z \<le> 0"
  using assms unfolding consistent_def by blast+

lemma consistent_subset: "consistent c S \<Longrightarrow> T \<subseteq> S \<Longrightarrow> consistent c T"
  unfolding consistent_def by blast

lemma consistent_swap: "consistent c S \<Longrightarrow> consistent (\<lambda>a b. c b a) S"
  unfolding consistent_def by blast

lemma consistent_total: "consistent c S \<Longrightarrow> x \<in> S \<Longrightarrow> y \<in> S \<Longrightarrow> c x y \<le> 0 \<or> c y x \<le> 0"
  by (meson consistentD(2) linorder_not_le order_less_imp_le)

lemma mset_ins [simp]: "mset (ins c x ys) = add_mset x (mset ys)"
  by (induction ys) auto

lemma set_ins: "set (ins c x ys) = insert x (set ys)"
  by (induction ys) auto

lemma js_sort_snoc: "js_sort c (xs @ [x]) = ins c x (js_sort c xs)"
  by (simp add: js_sort_def)

lemma js_sort_Nil [simp]: "js_sort c [] = []"
  by (simp add: js_sort_def)

lemma mset_js_sort [simp]: "mset (js_sort c xs) = mset xs"
  by (induction xs rule: rev_induct) (simp_all add: js_sort_snoc)

lemma set_js_sort [simp]: "set (js_sort c xs) = set xs"
  by (metis mset_js_sort mset_eq_setD)

lemma sorted_ins:
  assumes "consistent c (insert x (set ys))" "sorted_wrt (\<lambda>a b. c a b \<le> 0) ys"
  shows "sorted_wrt (\<lambda>a b. c a b \<le> 0) (ins c x ys)"
  using assms
proof (induction ys)
  case (Cons y ys)
  have sub: "consistent c (insert x (set ys))"
    using Cons.prems(1) by (rule consistent_subset) auto
  show ?case
  proof (cases "c x y < 0")
    case True
    have "c x z \<le> 0" if "z \<in> set ys" for z
    proof (rule consistentD(3) [OF Cons.prems(1), where y = y])
      show "c y z \<le> 0" using Cons.prems(2) that by simp
    qed (use True that in auto)
    with True Cons.prems(2) show ?thesis by simp
  next
    case False
    then have "c y x \<le> 0"
      using consistentD(2) [OF Cons.prems(1), of x y] consistentD(2) [OF Cons.prems(1), of y x]
      by auto
    with False Cons.IH [OF sub] Cons.prems(2) show ?thesis by (simp add: set_ins)
  qed
qed simp

lemma sorted_js_sort: "consistent c (set xs) \<Longrightarrow> sorted_wrt (\<lambda>a b. c a b \<le> 0) (js_sort c xs)"
proof (induction xs rule: rev_induct)
  case (snoc x xs)
  have "consistent c (set xs)" using snoc.prems by (rule consistent_subset) auto
  with snoc.IH have "sorted_wrt (\<lambda>a b. c a b \<le> 0) (js_sort c xs)" by simp
  with snoc.prems show ?case by (simp add: js_sort_snoc sorted_ins)
qed simp

lemma filter_ins_other: "\<not> P x \<Longrightarrow> filter P (ins c x ys) = filter P ys"
  by (induction ys) auto

text \<open>An element goes behind its equals.\<close>

lemma filter_ins_equal:
  assumes "consistent c (insert z (insert x (set ys)))" "c z x = 0" "sorted_wrt (\<lambda>a b. c a b \<le> 0) ys"
  shows "filter (\<lambda>y. c z y = 0) (ins c x ys) = filter (\<lambda>y. c z y = 0) ys @ [x]"
  using assms
proof (induction ys)
  case (Cons y ys)
  have sub: "consistent c (insert z (insert x (set ys)))"
    using Cons.prems(1) by (rule consistent_subset) auto
  show ?case
  proof (cases "c x y < 0")
    case True
    have "c z w \<noteq> 0" if w: "w \<in> set (y # ys)" for w
    proof
      assume "c z w = 0"
      have mem: "z \<in> insert z (insert x (set (y # ys)))" "x \<in> insert z (insert x (set (y # ys)))"
        "w \<in> insert z (insert x (set (y # ys)))" "y \<in> insert z (insert x (set (y # ys)))"
        using w by auto
      have "c w z \<le> 0" using consistentD(2) [OF Cons.prems(1) mem(1,3)] \<open>c z w = 0\<close> by auto
      then have "c w x \<le> 0"
        using consistentD(3) [OF Cons.prems(1) mem(3,1,2)] Cons.prems(2) by simp
      moreover have "c y w \<le> 0"
        using w Cons.prems(3) consistentD(1) [OF Cons.prems(1) mem(4)] by auto
      ultimately have "c y x \<le> 0"
        using consistentD(3) [OF Cons.prems(1) mem(4,3,2)] by simp
      with True consistentD(2) [OF Cons.prems(1) mem(2,4)] show False by simp
    qed
    then have "filter (\<lambda>y. c z y = 0) (y # ys) = []" by (simp add: filter_empty_conv)
    with True Cons.prems(2) show ?thesis by (auto split: if_splits)
  next
    case False
    with Cons.IH [OF sub] Cons.prems(2,3) show ?thesis by simp
  qed
qed simp

lemma stable_js_sort:
  "consistent c (set xs) \<Longrightarrow> z \<in> set xs \<Longrightarrow>
     filter (\<lambda>y. c z y = 0) (js_sort c xs) = filter (\<lambda>y. c z y = 0) xs"
proof -
  have "consistent c (insert z (set xs)) \<Longrightarrow>
     filter (\<lambda>y. c z y = 0) (js_sort c xs) = filter (\<lambda>y. c z y = 0) xs"
  proof (induction xs rule: rev_induct)
    case (snoc x xs)
    have sub: "consistent c (insert z (set xs))" "consistent c (set xs)"
      using snoc.prems by (rule consistent_subset, auto)+
    have "consistent c (insert z (insert x (set (js_sort c xs))))"
      using snoc.prems by (simp add: insert_commute)
    with snoc.IH [OF sub(1)] sorted_js_sort [OF sub(2)] show ?case
      by (cases "c z x = 0") (simp_all add: js_sort_snoc filter_ins_equal filter_ins_other)
  qed simp
  then show "consistent c (set xs) \<Longrightarrow> z \<in> set xs \<Longrightarrow>
     filter (\<lambda>y. c z y = 0) (js_sort c xs) = filter (\<lambda>y. c z y = 0) xs"
    by (simp add: insert_absorb)
qed

text \<open>An ordered list is determined by its elements and the order within each class.\<close>

lemma sorted_stable_unique:
  assumes "consistent c (set xs)"
    and "sorted_wrt (\<lambda>a b. c a b \<le> 0) xs" "sorted_wrt (\<lambda>a b. c a b \<le> 0) ys"
    and "mset xs = mset ys"
    and "\<And>z. z \<in> set xs \<Longrightarrow> filter (\<lambda>y. c z y = 0) xs = filter (\<lambda>y. c z y = 0) ys"
  shows "xs = ys"
  using assms
proof (induction xs arbitrary: ys)
  case (Cons x xs)
  obtain y ys' where ys: "ys = y # ys'" using Cons.prems(4) by (cases ys) auto
  have S: "set (x # xs) = set ys" using Cons.prems(4) by (rule mset_eq_setD)
  have mem: "x \<in> set (x # xs)" "y \<in> set (x # xs)" using S ys by auto
  have refl: "c x x = 0" by (rule consistentD(1) [OF Cons.prems(1) mem(1)])
  have "c x y \<le> 0" using Cons.prems(2) mem(2) refl by (cases "y = x") auto
  moreover have "x \<in> set ys" using S mem(1) by blast
  then have "c y x \<le> 0" using Cons.prems(3) refl by (cases "y = x") (auto simp: ys)
  ultimately have "c x y = 0" using consistentD(2) [OF Cons.prems(1) mem(1,2)]
    consistentD(2) [OF Cons.prems(1) mem(2,1)] by linarith
  moreover have "filter (\<lambda>w. c x w = 0) (x # xs) = filter (\<lambda>w. c x w = 0) (y # ys')"
    using Cons.prems(5) mem(1) ys by simp
  ultimately have xy: "x = y" using consistentD(1) [OF Cons.prems(1) mem(1)] by simp
  have "xs = ys'"
  proof (rule Cons.IH)
    show "consistent c (set xs)" using Cons.prems(1) by (rule consistent_subset) auto
    show "sorted_wrt (\<lambda>a b. c a b \<le> 0) xs" "sorted_wrt (\<lambda>a b. c a b \<le> 0) ys'" "mset xs = mset ys'"
      using Cons.prems(2,3,4) ys xy by auto
    show "filter (\<lambda>y. c z y = 0) xs = filter (\<lambda>y. c z y = 0) ys'" if "z \<in> set xs" for z
      using Cons.prems(5) [of z] that ys xy by (auto split: if_splits)
  qed
  with ys xy show ?case by simp
qed simp

text \<open>What the language promises of its sort, and what follows for its callers.\<close>

locale stable_sort =
  fixes srt :: "('a \<Rightarrow> 'a \<Rightarrow> int) \<Rightarrow> 'a list \<Rightarrow> 'a list"
  assumes perm: "mset (srt c xs) = mset xs"
    and ordered: "consistent c (set xs) \<Longrightarrow> sorted_wrt (\<lambda>a b. c a b \<le> 0) (srt c xs)"
    and stable: "consistent c (set xs) \<Longrightarrow> z \<in> set xs \<Longrightarrow>
      filter (\<lambda>y. c z y = 0) (srt c xs) = filter (\<lambda>y. c z y = 0) xs"
begin

lemma same_set: "set (srt c xs) = set xs"
  using perm by (rule mset_eq_setD)

lemma same_length: "length (srt c xs) = length xs"
  using perm by (metis size_mset)

lemma already_sorted:
  "consistent c (set xs) \<Longrightarrow> sorted_wrt (\<lambda>a b. c a b \<le> 0) xs \<Longrightarrow> srt c xs = xs"
  by (rule sorted_stable_unique [symmetric]) (auto simp: ordered perm stable)

lemma sort_idem: "consistent c (set xs) \<Longrightarrow> srt c (srt c xs) = srt c xs"
  by (rule already_sorted) (auto simp: ordered same_set)

lemma engine_independent:
  assumes "stable_sort srt'" "consistent c (set xs)"
  shows "srt' c xs = srt c xs"
  by (rule sorted_stable_unique)
     (use assms in \<open>auto simp: stable_sort.ordered stable_sort.perm stable_sort.same_set
        stable_sort.stable ordered perm stable same_set\<close>)

end

interpretation js: stable_sort js_sort
  by unfold_locales (simp_all add: sorted_js_sort stable_js_sort)

section \<open>A comparison that may throw\<close>

lemma insM_total:
  "(\<And>y. y \<in> set ys \<Longrightarrow> c x y = Inr (d x y)) \<Longrightarrow> insM c x ys = Inr (ins d x ys)"
  by (induction ys) auto

lemma js_sortM_snoc: "js_sortM c (xs @ [x]) = jbind (js_sortM c xs) (insM c x)"
  by (auto simp: js_sortM_def js_foldM_append jbind_def split: sum.splits)

lemma js_sortM_total:
  assumes "\<And>x y. x \<in> set xs \<Longrightarrow> y \<in> set xs \<Longrightarrow> c x y = Inr (d x y)"
  shows "js_sortM c xs = Inr (js_sort d xs)"
  using assms
proof (induction xs rule: rev_induct)
  case (snoc x xs)
  then have "js_sortM c xs = Inr (js_sort d xs)" by simp
  moreover have "insM c x (js_sort d xs) = Inr (ins d x (js_sort d xs))"
    using snoc.prems by (intro insM_total) auto
  ultimately show ?case by (simp add: js_sortM_snoc js_sort_snoc)
qed (simp add: js_sortM_def)

lemma js_sortM_ex:
  assumes "\<And>x y. x \<in> set xs \<Longrightarrow> y \<in> set xs \<Longrightarrow> \<exists>r. c x y = Inr r"
  shows "\<exists>ys. js_sortM c xs = Inr ys"
proof -
  have "c x y = Inr (projr (c x y))" if "x \<in> set xs" "y \<in> set xs" for x y
    using assms [OF that] by auto
  then show ?thesis using js_sortM_total [of xs c "\<lambda>x y. projr (c x y)"] by blast
qed

lemma mset_insM: "insM c x ys = Inr zs \<Longrightarrow> mset zs = add_mset x (mset ys)"
  by (induction ys arbitrary: zs) (auto simp: jbind_Inr_iff split: if_splits)

lemma mset_js_sortM: "js_sortM c xs = Inr ys \<Longrightarrow> mset ys = mset xs"
proof (induction xs arbitrary: ys rule: rev_induct)
  case (snoc x xs)
  then show ?case by (auto simp: js_sortM_snoc jbind_Inr_iff dest: mset_insM)
qed (simp add: js_sortM_def)

end
