(* ===== verification/Table_State.thy ===== *)
theory Table_State
  imports Js_Values Js_Objects Js_Sort
begin

text \<open>
  The state of the table renderer (renderers/renderer.table.js): the settings of one table
  instance as a record, its filters, and its rows. Rows are objects that the full data
  \<^verbatim>\<open>settings.tdata\<close> and the filtered data \<^verbatim>\<open>settings.filtered_data\<close> share, so a row is a
  position in \<^verbatim>\<open>row_store\<close> and both arrays are lists of positions: writing a cell through
  one array is seen through the other. Options that only style the table (width, height) are
  not part of the state.
\<close>

type_synonym row = "jsval props"

text \<open>What the table asks of the browser: whether a search word is a valid regular expression,
  whether it matches a text (the flag is case-insensitivity), and which property names an
  array inherits from its prototype.\<close>

record host =
  re_ok :: "string \<Rightarrow> bool"
  re_test :: "string \<Rightarrow> bool \<Rightarrow> string \<Rightarrow> bool"
  arr_inherited :: "string \<Rightarrow> bool"

datatype nav_callback = NoCallback | UpdateCallback | UserCallback

text \<open>\<^verbatim>\<open>settings.data\<close>: a bare array of rows, or an object with \<^verbatim>\<open>header\<close> and \<^verbatim>\<open>data\<close>
  (None is null or undefined).\<close>

datatype data_src = RawRows "jsval list list" | DataObj "string list option" "jsval list list option"

record tfilter =
  ftype :: string
  searchword :: "string option"
  case_sensitive :: bool
  operator :: "string list option"
  active_operator :: "nat option"
  re :: "(string \<times> bool) option"
  minmax :: "string list option"

record query =
  q_searchword :: string
  q_field :: jsval
  q_comparison :: "string list option"

text \<open>The settings. Hashes of column indices whose values only matter as true or false are
  predicates on the index; \<^verbatim>\<open>tfilters\<close> lists the filters by ascending column, the order in
  which \<^verbatim>\<open>for (i in filter)\<close> visits them; in \<^verbatim>\<open>numrows\<close> None is undefined.\<close>

record table =
  header :: "string list option"
  data :: data_src
  row_store :: "row list"
  tdata :: "nat list option"
  filtered_data :: "nat list option"
  sort_autodetect :: bool
  filter_autodetect :: bool
  filter_autodetect_select_max :: int
  tfilters :: "(nat \<times> tfilter) list"
  filter_changed :: bool
  is_sorted :: bool
  offset :: jsint
  rows_per_page :: jsint
  sortcol :: nat
  sortdir :: string
  sorttype :: "nat \<Rightarrow> string option"
  invisible_columns :: "nat \<Rightarrow> bool"
  disable_sort :: "nat \<Rightarrow> bool"
  editable :: "nat \<Rightarrow> bool"
  minwidths :: "nat \<Rightarrow> int option"
  synchronous :: bool
  numrows :: jsint
  hide_options :: bool
  has_onclick :: bool
  has_edit_callback :: bool
  navigation_callback :: nav_callback
  navigation_url :: "string option"
  query_type :: string
  tquery :: "query props"
  sort_field :: "jsval option"
  sort_direction :: "string option"
  asynch_column_mapping :: "string props option"
  alerts :: "string list"

text \<open>The defaults of the renderer, with no data yet.\<close>

definition default_table :: table where
  "default_table =
     \<lparr>header = None, data = DataObj None None, row_store = [], tdata = None, filtered_data = None,
      sort_autodetect = False, filter_autodetect = False, filter_autodetect_select_max = 10,
      tfilters = [], filter_changed = False, is_sorted = False, offset = Some 0,
      rows_per_page = Some 10, sortcol = 0, sortdir = ''asc'', sorttype = (\<lambda>_. None),
      invisible_columns = (\<lambda>_. False), disable_sort = (\<lambda>_. False), editable = (\<lambda>_. False),
      minwidths = (\<lambda>_. None), synchronous = True, numrows = None, hide_options = False,
      has_onclick = False, has_edit_callback = False, navigation_callback = NoCallback,
      navigation_url = None, query_type = ''infix'', tquery = [], sort_field = None,
      sort_direction = None, asynch_column_mapping = None, alerts = []\<rparr>"

text \<open>The example data of the renderer.\<close>

definition exampleData :: data_src where
  "exampleData = DataObj (Some [''column A'', ''column B'', ''column C''])
     (Some (map (map Str)
       [[''a1'', ''b1'', ''c1''], [''a3'', ''b2'', ''c2''], [''a4'', ''b3'', ''c3''], [''a2'', ''b4'', ''c4''],
        [''a1'', ''b1'', ''c1''], [''a3'', ''b2'', ''c2''], [''a4'', ''b3'', ''c3''], [''a2'', ''b4'', ''c4''],
        [''a1'', ''b1'', ''c1''], [''a3'', ''b2'', ''c2''], [''a4'', ''b3'', ''c3''], [''a2'', ''b4'', ''c4''],
        [''a1'', ''b3'', ''c1''], [''a3'', ''b2'', ''c2''], [''a4'', ''b3'', ''c3''], [''a2'', ''b4'', ''c4''],
        [''a5'', ''b5'', ''c5'']]))"

text \<open>\<^verbatim>\<open>header[i]\<close> as a property name, and the cell \<^verbatim>\<open>tdata[h][header[i]]\<close>.\<close>

definition header_at :: "string list \<Rightarrow> nat \<Rightarrow> string" where
  "header_at hdr i = (if i < length hdr then hdr ! i else ''undefined'')"

definition row_cell :: "row \<Rightarrow> string \<Rightarrow> jsval" where
  "row_cell r k = (case oget r k of None \<Rightarrow> Undef | Some v \<Rightarrow> v)"

definition cell :: "table \<Rightarrow> nat \<Rightarrow> string \<Rightarrow> jsval" where
  "cell t r k = (if r < length (row_store t) then row_cell (row_store t ! r) k else Undef)"

text \<open>A table is well formed when the arrays point at rows that exist, the parsed rows are
  pairwise different objects, the filtered rows are among them and the filters are listed by
  ascending column.\<close>

definition ids_ok :: "nat \<Rightarrow> nat list \<Rightarrow> bool" where
  "ids_ok n ids \<longleftrightarrow> distinct ids \<and> list_all (\<lambda>r. r < n) ids"

definition table_wf :: "table \<Rightarrow> bool" where
  "table_wf t \<longleftrightarrow>
     (tdata t = None \<longrightarrow> filtered_data t = None)
     \<and> pred_option (ids_ok (length (row_store t))) (tdata t)
     \<and> pred_option (ids_ok (length (row_store t))) (filtered_data t)
     \<and> sorted_wrt (<) (map fst (tfilters t))"

lemma pred_option_code [code]: "pred_option P None = True" "pred_option P (Some x) = P x"
  by simp_all

lemma ids_ok_upt: "ids_ok (n + m) [n..<n + m]"
  by (simp add: ids_ok_def list_all_iff)

lemma ids_ok_mset: "ids_ok n xs \<Longrightarrow> mset ys = mset xs \<Longrightarrow> ids_ok n ys"
  unfolding ids_ok_def list_all_iff by (metis mset_eq_imp_distinct_iff mset_eq_setD)

lemma ids_ok_filter: "ids_ok n xs \<Longrightarrow> ids_ok n (filter P xs)"
  by (simp add: ids_ok_def list_all_iff)

lemma ids_ok_mono: "ids_ok n xs \<Longrightarrow> n \<le> m \<Longrightarrow> ids_ok m xs"
  by (auto simp: ids_ok_def list_all_iff)

text \<open>\<^verbatim>\<open>settings.filter[i]\<close> and \<^verbatim>\<open>settings.filter[i] = f\<close>.\<close>

definition fget :: "(nat \<times> tfilter) list \<Rightarrow> nat \<Rightarrow> tfilter option" where
  "fget fs i = map_of fs i"

fun fput :: "(nat \<times> tfilter) list \<Rightarrow> nat \<Rightarrow> tfilter \<Rightarrow> (nat \<times> tfilter) list" where
  "fput [] i f = [(i, f)]"
| "fput ((j, g) # fs) i f =
     (if i < j then (i, f) # (j, g) # fs else if i = j then (i, f) # fs else (j, g) # fput fs i f)"

lemma fget_fput: "fget (fput fs i f) j = (if j = i then Some f else fget fs j)"
  by (induction fs) (auto simp: fget_def)

lemma set_fput: "fst ` set (fput fs i f) = insert i (fst ` set fs)"
proof (induction fs)
  case (Cons p fs)
  obtain j g where p: "p = (j, g)" by (cases p)
  from Cons.IH show ?case by (simp add: p insert_commute)
qed simp

lemma sorted_fput: "sorted_wrt (<) (map fst fs) \<Longrightarrow> sorted_wrt (<) (map fst (fput fs i f))"
proof (induction fs)
  case (Cons p fs)
  obtain j g where "p = (j, g)" by (cases p)
  with Cons show ?case
    using set_fput [of fs i f] by fastforce
qed simp

text \<open>The stand-in browser of the evaluated examples: every search word is a valid pattern made
  of literal characters, found as a substring, in either case when case does not matter.\<close>

fun contains :: "string \<Rightarrow> string \<Rightarrow> bool" where
  "contains w [] = (w = [])"
| "contains w (c # s) = (starts_with w (c # s) \<or> contains w s)"

definition lower :: "char \<Rightarrow> char" where
  "lower c = (let k = (of_char c :: nat) in if 65 \<le> k \<and> k \<le> 90 then char_of (k + 32) else c)"

definition literal_host :: host where
  "literal_host =
     \<lparr>re_ok = (\<lambda>_. True),
      re_test = (\<lambda>w ci s. if ci then contains (map lower w) (map lower s) else contains w s),
      arr_inherited = (\<lambda>_. False)\<rparr>"

end
