(* ===== verification/Table_Filter.thy ===== *)
theory Table_Filter
  imports Table_State
begin

text \<open>
  The data side of \<^verbatim>\<open>render\<close>: finding the header, parsing the rows, detecting the sort type
  of a column and filtering. The correctness statement of the filter is \<^verbatim>\<open>apply_filter_rows\<close>:
  the rows shown are those of the full data, in their order, that every active filter accepts.
\<close>

section \<open>Header and rows\<close>

definition init_callback :: "table \<Rightarrow> table" where
  "init_callback t =
     (case navigation_url t of
        Some u \<Rightarrow> if u \<noteq> [] then t\<lparr>navigation_callback := UpdateCallback\<rparr> else t
      | None \<Rightarrow> t)"

definition split_raw :: "table \<Rightarrow> table" where
  "split_raw t =
     (case data t of
        RawRows (r # rs) \<Rightarrow> t\<lparr>data := DataObj (Some (map to_string r)) (Some rs)\<rparr>
      | _ \<Rightarrow> t)"

definition init_header :: "table \<Rightarrow> (table \<times> string list) js" where
  "init_header t =
     (case header t of
        Some hdr \<Rightarrow> ok (t, hdr)
      | None \<Rightarrow>
          (case data t of
             DataObj (Some hdr) ds \<Rightarrow> ok (t\<lparr>header := Some hdr, data := DataObj None ds\<rparr>, hdr)
           | DataObj None (Some (r # rs)) \<Rightarrow>
               ok (t\<lparr>header := Some (map to_string r), data := DataObj None (Some rs)\<rparr>, map to_string r)
           | _ \<Rightarrow> throw TypeError))"

definition default_cell :: "jsval \<Rightarrow> jsval" where
  "default_cell v = (if truthy v then v else Str [])"

definition parse_row :: "string list \<Rightarrow> jsval list \<Rightarrow> row" where
  "parse_row hdr vs =
     foldl (\<lambda>r h. oput r (header_at hdr h) (default_cell (vs ! h))) [] [0..<length vs]"

definition parse_data :: "string list \<Rightarrow> table \<Rightarrow> (table \<times> nat list) js" where
  "parse_data hdr t =
     (case tdata t of
        Some td \<Rightarrow> ok (t, td)
      | None \<Rightarrow>
          (case data t of
             DataObj h (Some rows) \<Rightarrow>
               (let n = length (row_store t); ids = [n..<n + length rows]
                in ok (t\<lparr>row_store := row_store t @ map (parse_row hdr) rows,
                         tdata := Some ids, data := DataObj h None\<rparr>, ids))
           | _ \<Rightarrow> throw TypeError))"

definition detect_column :: "string list \<Rightarrow> nat list \<Rightarrow> table \<Rightarrow> nat \<Rightarrow> table js" where
  "detect_column hdr td t i =
     (if sorttype t i \<noteq> None \<and> sorttype t i \<noteq> Some [] then ok t
      else case td of
        [] \<Rightarrow> ok (t\<lparr>sorttype := (sorttype t)(i := Some ''number'')\<rparr>)
      | r # _ \<Rightarrow>
          jbind (has_replace (cell t r (header_at hdr i))) (\<lambda>s.
            if \<not> s then ok (t\<lparr>sorttype := (sorttype t)(i := Some ''number'')\<rparr>)
            else jbind (replace_tags (cell t r (header_at hdr i))) (\<lambda>w.
              ok (t\<lparr>sorttype := (sorttype t)(i := Some (if parseFloat w = JNaN then ''string'' else ''number''))\<rparr>))))"

definition detect_sorttypes :: "string list \<Rightarrow> nat list \<Rightarrow> table \<Rightarrow> table js" where
  "detect_sorttypes hdr td t =
     (if sort_autodetect t then js_foldM (detect_column hdr td) t [0..<length hdr] else ok t)"

section \<open>Filtering\<close>

definition filter_active :: "tfilter \<Rightarrow> bool" where
  "filter_active f = (case searchword f of None \<Rightarrow> False | Some w \<Rightarrow> w \<noteq> [])"

definition filter_present :: "(nat \<times> tfilter) list \<Rightarrow> bool" where
  "filter_present fs = list_ex (\<lambda>p. filter_active (snd p)) fs"

definition active_op :: "tfilter \<Rightarrow> string option" where
  "active_op f =
     (case operator f of None \<Rightarrow> None
      | Some ops \<Rightarrow> (case active_operator f of None \<Rightarrow> None
                     | Some k \<Rightarrow> if k < length ops then Some (ops ! k) else None))"

definition quote :: string where
  "quote = [CHR 0x27]"

definition nl :: string where
  "nl = [CHR 0x0A]"

definition range_message :: "string \<Rightarrow> string" where
  "range_message w =
     quote @ w @ quote @ '' is not a valid inclusive range.'' @ nl
     @ ''Ranges must be noted as the minimum'' @ nl
     @ ''and the maximum range, separated by '' @ quote @ '','' @ quote @ nl
     @ ''i.e. '' @ quote @ ''-2.1, 5.2'' @ quote"

text \<open>The first loop over the filters: compile the search word, split a range.\<close>

definition prepare_filter :: "host \<Rightarrow> tfilter \<Rightarrow> (tfilter \<times> string list) js" where
  "prepare_filter h f =
     (let pat = (case searchword f of None \<Rightarrow> ''(?:)'' | Some w \<Rightarrow> w)
      in if \<not> re_ok h pat then throw SyntaxError
         else let f1 = f\<lparr>re := Some (pat, \<not> case_sensitive f)\<rparr>
              in case searchword f1 of
                   Some w \<Rightarrow>
                     if w \<noteq> [] \<and> active_op f1 = Some ''><''
                     then let mm = js_split (CHR '','') w
                          in if length mm \<noteq> 2
                             then ok (f1\<lparr>minmax := Some mm, searchword := Some []\<rparr>, [range_message w])
                             else ok (f1\<lparr>minmax := Some mm\<rparr>, [])
                     else ok (f1, [])
                 | None \<Rightarrow> ok (f1, []))"

definition prepare_filters :: "host \<Rightarrow> (nat \<times> tfilter) list \<Rightarrow> ((nat \<times> tfilter) list \<times> string list) js" where
  "prepare_filters h fs =
     jbind (js_mapM (\<lambda>(i, f). jbind (prepare_filter h f) (\<lambda>(f', as). ok ((i, f'), as))) fs)
       (\<lambda>ps. ok (map fst ps, concat (map snd ps)))"

definition minmax_at :: "tfilter \<Rightarrow> nat \<Rightarrow> jsnum js" where
  "minmax_at f k =
     (case minmax f of None \<Rightarrow> throw TypeError
      | Some mm \<Rightarrow> ok (if k < length mm then parseFloat (mm ! k) else JNaN))"

text \<open>The test of one cell: the \<^verbatim>\<open>switch\<close> over the operator, or the regular expression.\<close>

definition cell_passes :: "host \<Rightarrow> tfilter \<Rightarrow> jsval \<Rightarrow> bool js" where
  "cell_passes h f v =
     (let w = (case searchword f of None \<Rightarrow> [] | Some w \<Rightarrow> w); n = parseFloat (to_string v)
      in if operator f \<noteq> None
         then if active_op f = Some ''='' then ok (loose_eq v (Str w))
              else if active_op f = Some ''>'' then ok (\<not> num_le n (parseFloat w))
              else if active_op f = Some ''<'' then ok (\<not> num_le (parseFloat w) n)
              else if active_op f = Some ''><''
              then jbind (minmax_at f 1) (\<lambda>hi.
                     if num_less hi n then ok False
                     else jbind (minmax_at f 0) (\<lambda>lo. ok (\<not> num_less n lo)))
              else ok True
         else case v of
                Str s \<Rightarrow> ok (case re f of None \<Rightarrow> True | Some (p, ci) \<Rightarrow> re_test h p ci s)
              | _ \<Rightarrow> throw TypeError)"

fun row_passes :: "host \<Rightarrow> (nat \<Rightarrow> jsval) \<Rightarrow> (nat \<times> tfilter) list \<Rightarrow> bool js" where
  "row_passes h c [] = ok True"
| "row_passes h c ((i, f) # fs) =
     (if filter_active f
      then jbind (cell_passes h f (c i)) (\<lambda>b. if b then row_passes h c fs else ok False)
      else row_passes h c fs)"

definition apply_filter :: "host \<Rightarrow> string list \<Rightarrow> nat list \<Rightarrow> table \<Rightarrow> (table \<times> nat list) js" where
  "apply_filter h hdr td t =
     (if filter_present (tfilters t) \<and> synchronous t
      then if filter_changed t
           then jbind (prepare_filters h (tfilters t)) (\<lambda>(fs, als).
                jbind (js_filterM (\<lambda>r. row_passes h (\<lambda>i. cell t r (header_at hdr i)) fs) td) (\<lambda>new.
                  ok (t\<lparr>offset := Some 0, tfilters := fs, alerts := alerts t @ als,
                        filter_changed := False, filtered_data := Some new\<rparr>, new)))
           else case filtered_data t of
                  Some fd \<Rightarrow> ok (t\<lparr>filter_changed := False\<rparr>, fd)
                | None \<Rightarrow> throw TypeError
      else ok (t, td))"

section \<open>Properties\<close>

lemma row_passes_iff:
  "row_passes h c fs = Inr True \<longleftrightarrow>
     (\<forall>(i, f) \<in> set fs. filter_active f \<longrightarrow> cell_passes h f (c i) = Inr True)"
proof (induction fs)
  case (Cons p fs)
  obtain i f where p: "p = (i, f)" by (cases p)
  show ?case
  proof (cases "filter_active f")
    case True
    have "jbind (cell_passes h f (c i)) (\<lambda>b. if b then row_passes h c fs else Inr False) = Inr True
      \<longleftrightarrow> cell_passes h f (c i) = Inr True \<and> row_passes h c fs = Inr True"
      by (cases "cell_passes h f (c i)") auto
    with True Cons.IH show ?thesis by (simp add: p)
  next
    case False
    with Cons.IH show ?thesis by (simp add: p)
  qed
qed simp

lemma prepare_filter_fst:
  "prepare_filters h fs = Inr (fs', als) \<Longrightarrow> map fst fs' = map fst fs"
proof -
  assume "prepare_filters h fs = Inr (fs', als)"
  then obtain ps where ps: "js_mapM (\<lambda>(i, f). jbind (prepare_filter h f) (\<lambda>(f', as). ok ((i, f'), as))) fs = Inr ps"
    and fs': "fs' = map fst ps"
    by (auto simp: prepare_filters_def jbind_Inr_iff)
  have "map (fst \<circ> fst) ps = map fst fs"
    using ps by (induction fs arbitrary: ps) (auto simp: jbind_Inr_iff)
  with fs' show ?thesis by simp
qed

text \<open>Filtering keeps exactly the rows every active filter accepts, in their order.\<close>

lemma apply_filter_changed:
  assumes "apply_filter h hdr td t = Inr (t', new)"
    and "filter_present (tfilters t)" "synchronous t" "filter_changed t"
  shows "new = filter (\<lambda>r. \<forall>(i, f) \<in> set (tfilters t').
           filter_active f \<longrightarrow> cell_passes h f (cell t r (header_at hdr i)) = Inr True) td
     \<and> filtered_data t' = Some new \<and> offset t' = Some 0 \<and> \<not> filter_changed t'
     \<and> map fst (tfilters t') = map fst (tfilters t)"
proof -
  obtain fs als where fs: "prepare_filters h (tfilters t) = Inr (fs, als)"
    and new: "js_filterM (\<lambda>r. row_passes h (\<lambda>i. cell t r (header_at hdr i)) fs) td = Inr new"
    and t': "t' = t\<lparr>offset := Some 0, tfilters := fs, alerts := alerts t @ als,
                    filter_changed := False, filtered_data := Some new\<rparr>"
    using assms by (auto simp: apply_filter_def jbind_Inr_iff)
  have "new = filter (\<lambda>r. row_passes h (\<lambda>i. cell t r (header_at hdr i)) fs = Inr True) td"
    using new by (rule js_filterM_Inr)
  with t' prepare_filter_fst [OF fs] show ?thesis by (simp add: row_passes_iff)
qed

lemma apply_filter_subset:
  assumes "apply_filter h hdr td t = Inr (t', new)"
  shows "(filter_present (tfilters t) \<and> synchronous t \<and> \<not> filter_changed t \<and> filtered_data t = Some new)
    \<or> (set new \<subseteq> set td \<and> (distinct td \<longrightarrow> distinct new))"
proof (cases "filter_present (tfilters t) \<and> synchronous t")
  case True
  show ?thesis
  proof (cases "filter_changed t")
    case True
    have "new = filter (\<lambda>r. \<forall>(i, f) \<in> set (tfilters t').
           filter_active f \<longrightarrow> cell_passes h f (cell t r (header_at hdr i)) = Inr True) td"
      using apply_filter_changed [OF assms] \<open>filter_present (tfilters t) \<and> synchronous t\<close> True by blast
    then show ?thesis by auto
  next
    case False
    with True assms show ?thesis by (auto simp: apply_filter_def split: option.splits)
  qed
next
  case False
  then have "new = td" using assms by (auto simp: apply_filter_def)
  then show ?thesis by simp
qed

end
