(* ===== verification/Table_View.thy ===== *)
theory Table_View
  imports Table_Filter
begin

text \<open>
  The display side of \<^verbatim>\<open>render\<close>: the comparison the rows are sorted with, the page that is
  cut out of them, the header cells with their sort and filter controls, and the navigation
  line. A rendered table is a \<^verbatim>\<open>view\<close>: what the user sees and which variables the event
  handlers captured (\<^verbatim>\<open>offset\<close>, \<^verbatim>\<open>rows\<close>, the length of the data shown). Attributes that
  only style an element are left out.
\<close>

section \<open>Sorting\<close>

definition cmp_strings :: "string \<Rightarrow> string \<Rightarrow> int" where
  "cmp_strings a b = (if a = b then 0 else if a < b then - 1 else 1)"

definition cmp_nums :: "jsnum \<Rightarrow> jsnum \<Rightarrow> int" where
  "cmp_nums a b = (if num_eq a b then 0 else if num_less a b then - 1 else 1)"

definition cmp_stripped :: "jsval \<Rightarrow> jsval \<Rightarrow> int js" where
  "cmp_stripped a b =
     jbind (replace_tags a) (\<lambda>s. jbind (replace_tags b) (\<lambda>u. ok (cmp_strings s u)))"

definition cmp_cells :: "string option \<Rightarrow> jsval \<Rightarrow> jsval \<Rightarrow> int js" where
  "cmp_cells st a b =
     (if st \<noteq> None \<and> st \<noteq> Some []
      then if st = Some ''number''
           then jbind (has_replace a) (\<lambda>s.
                  if \<not> s then ok (if loose_eq a b then 0 else if js_less a b then - 1 else 1)
                  else jbind (replace_tags a) (\<lambda>x. jbind (replace_tags b) (\<lambda>y.
                         ok (cmp_nums (parseFloat x) (parseFloat y)))))
           else if st = Some ''string'' then cmp_stripped a b
           else ok 0
      else cmp_stripped a b)"

definition row_cmp :: "string list \<Rightarrow> table \<Rightarrow> nat \<Rightarrow> nat \<Rightarrow> int js" where
  "row_cmp hdr t a b =
     (let k = header_at hdr (sortcol t); st = sorttype t (sortcol t);
          x = (if sortdir t = ''desc'' then b else a); y = (if sortdir t = ''desc'' then a else b)
      in cmp_cells st (cell t x k) (cell t y k))"

text \<open>\<^verbatim>\<open>disp = tdata.sort(...)\<close> sorts in place: the array that was displayed, filtered or full.\<close>

definition sort_rows :: "string list \<Rightarrow> bool \<Rightarrow> nat list \<Rightarrow> table \<Rightarrow> (table \<times> nat list) js" where
  "sort_rows hdr filtered td t =
     (if is_sorted t then ok (t, td)
      else jbind (js_sortM (row_cmp hdr t) td) (\<lambda>disp.
        ok (if filtered then t\<lparr>filtered_data := Some disp, is_sorted := True\<rparr>
            else t\<lparr>tdata := Some disp, is_sorted := True\<rparr>, disp)))"

section \<open>Header cells\<close>

text \<open>The filter control of a column: a text field with its operator switch, or a select box.
  The first component is the column it was made for.\<close>

datatype felem = TextBox nat string "(string \<times> bool) list option"
  | SelectBox nat "(string \<times> string \<times> bool) list"

fun felem_col :: "felem \<Rightarrow> nat" where
  "felem_col (TextBox i _ _) = i"
| "felem_col (SelectBox i _) = i"

record hcell =
  hc_col :: nat
  hc_label :: string
  hc_minwidth :: int
  hc_asc_title :: string
  hc_asc_click :: bool
  hc_desc_title :: string
  hc_desc_click :: bool
  hc_caret :: bool
  hc_icon_title :: "string option"
  hc_filter_icon :: bool
  hc_filter :: "felem option"

text \<open>The array used as a set of option names: its named entries and its length. Writing
  \<^verbatim>\<open>length\<close> truncates it, an inherited name counts as present.\<close>

type_synonym sel_arr = "string list \<times> nat"

definition arr_put :: "sel_arr \<Rightarrow> string \<Rightarrow> sel_arr" where
  "arr_put a k =
     (let (ks, n) = a
      in if k = ''length'' then (filter (\<lambda>x. is_index x \<longrightarrow> digits_val x < 1) ks, 1)
         else if k = ''__proto__'' then a
         else (if k \<in> set ks then ks else ks @ [k], if is_index k then max n (digits_val k + 1) else n))"

definition arr_truthy :: "host \<Rightarrow> sel_arr \<Rightarrow> string \<Rightarrow> bool" where
  "arr_truthy h a k =
     (if k = ''length'' then snd a \<noteq> 0 else k \<in> set (fst a) \<or> arr_inherited h k)"

definition count_option :: "host \<Rightarrow> sel_arr \<times> int \<Rightarrow> string \<Rightarrow> sel_arr \<times> int" where
  "count_option h s k = (let (a, n) = s in (arr_put a k, if arr_truthy h a k then n else n + 1))"

definition count_options :: "host \<Rightarrow> string list \<Rightarrow> int" where
  "count_options h ks = snd (foldl (count_option h) (([], 0), 0) ks)"

definition detect_filter :: "host \<Rightarrow> string list \<Rightarrow> nat list \<Rightarrow> table \<Rightarrow> nat \<Rightarrow> table" where
  "detect_filter h hdr td t i =
     (if filter_autodetect t \<and> fget (tfilters t) i = None
      then let num = (sorttype t i = Some ''number'');
               opts = map (\<lambda>r. to_string (cell t r (header_at hdr i))) td;
               f = \<lparr>ftype = (if count_options h opts \<le> filter_autodetect_select_max t then ''select'' else ''text''),
                    searchword = None, case_sensitive = False,
                    operator = (if num then Some [''='', ''<'', ''>'', ''><''] else None),
                    active_operator = (if num then Some 0 else None), re = None, minmax = None\<rparr>
           in t\<lparr>tfilters := fput (tfilters t) i f\<rparr>
      else t)"

text \<open>The entries of a select box: the distinct non-empty texts of the column, in the order
  \<^verbatim>\<open>for (h in selopts)\<close> visits them. Reading \<^verbatim>\<open>length\<close> of undefined or null throws.\<close>

definition select_text :: "jsval \<Rightarrow> string option js" where
  "select_text v =
     (if nullish v then throw TypeError
      else ok (case v of Str s \<Rightarrow> if s = [] then None else Some s | _ \<Rightarrow> None))"

definition select_options :: "table \<Rightarrow> nat list \<Rightarrow> string \<Rightarrow> string list js" where
  "select_options t td k =
     jbind (js_mapM (\<lambda>r. select_text (cell t r k)) td) (\<lambda>ws.
       ok (okeys (map (\<lambda>w. (w, ())) (fst (foldl arr_put ([], 0) (List.map_filter id ws))))))"

definition filter_element :: "string list \<Rightarrow> nat list \<Rightarrow> table \<Rightarrow> nat \<Rightarrow> tfilter \<Rightarrow> felem option js" where
  "filter_element hdr td t i f =
     (let w = (case searchword f of None \<Rightarrow> [] | Some w \<Rightarrow> w)
      in if ftype f = ''text''
         then ok (Some (TextBox i w
                (map_option (\<lambda>ops. map (\<lambda>n. (ops ! n, active_operator f = Some n)) [0..<length ops]) (operator f))))
         else if ftype f = ''select''
         then jbind (select_options t td (header_at hdr i)) (\<lambda>ks.
                ok (Some (SelectBox i ((''-show all-'', [], False) # map (\<lambda>k. (k, k, k = w)) ks))))
         else ok None)"

definition icon_title :: "string \<Rightarrow> string option" where
  "icon_title w = (if w = [] then None else Some (''filtered for: '' @ quote @ w @ quote))"

definition base_cell :: "string list \<Rightarrow> table \<Rightarrow> nat \<Rightarrow> hcell" where
  "base_cell hdr t i =
     \<lparr>hc_col = i, hc_label = header_at hdr i,
      hc_minwidth = (case minwidths t i of Some m \<Rightarrow> if m = 0 then 153 else m | None \<Rightarrow> 153),
      hc_asc_title = (if i = sortcol t \<and> sortdir t = ''asc'' then ''current sorting: ascending'' else ''sort ascending''),
      hc_asc_click = (\<not> (i = sortcol t \<and> sortdir t = ''asc'')),
      hc_desc_title = (if i = sortcol t \<and> sortdir t \<noteq> ''asc'' then ''current sorting: descending'' else ''sort descending''),
      hc_desc_click = (\<not> (i = sortcol t \<and> sortdir t \<noteq> ''asc'')),
      hc_caret = (\<not> disable_sort t i), hc_icon_title = None, hc_filter_icon = False, hc_filter = None\<rparr>"

text \<open>\<^verbatim>\<open>appendChild\<close> of an element that already sits in an earlier header cell moves it.\<close>

definition take_elem :: "felem \<Rightarrow> hcell \<Rightarrow> hcell" where
  "take_elem e c =
     (case hc_filter c of
        Some e' \<Rightarrow> if felem_col e' = felem_col e then c\<lparr>hc_filter := None\<rparr> else c
      | None \<Rightarrow> c)"

text \<open>One turn of the header loop. \<^verbatim>\<open>filter_elem\<close> is a function-wide variable: where a filter
  has a type the renderer does not know, it still holds the element of an earlier column.\<close>

definition header_cell :: "host \<Rightarrow> string list \<Rightarrow> nat list \<Rightarrow>
    table \<times> hcell list \<times> felem option \<Rightarrow> nat \<Rightarrow> (table \<times> hcell list \<times> felem option) js" where
  "header_cell h hdr td s i =
     (case s of (t, cells, prev) \<Rightarrow>
        if invisible_columns t i then ok s
        else let t1 = detect_filter h hdr td t i
             in case fget (tfilters t1) i of
                  None \<Rightarrow> ok (t1, cells @ [base_cell hdr t1 i], prev)
                | Some f \<Rightarrow>
                    (let w = (case searchword f of None \<Rightarrow> [] | Some w \<Rightarrow> w);
                         f1 = f\<lparr>searchword := Some w\<rparr>;
                         t2 = t1\<lparr>tfilters := fput (tfilters t1) i f1\<rparr>
                     in jbind (filter_element hdr td t2 i f1) (\<lambda>fe.
                          case (case fe of None \<Rightarrow> prev | Some e \<Rightarrow> Some e) of
                            None \<Rightarrow> throw TypeError
                          | Some e \<Rightarrow>
                              ok (t2, map (take_elem e) cells
                                      @ [(base_cell hdr t2 i)\<lparr>hc_icon_title := icon_title w,
                                           hc_filter_icon := True, hc_filter := Some e\<rparr>], Some e))))"

definition header_cells :: "host \<Rightarrow> string list \<Rightarrow> nat list \<Rightarrow> table \<Rightarrow> (table \<times> hcell list) js" where
  "header_cells h hdr td t =
     jbind (js_foldM (header_cell h hdr td) (t, [], None) [0..<length hdr]) (\<lambda>(t', cells, _). ok (t', cells))"

section \<open>The rendered table\<close>

record view =
  v_header :: "hcell list"
  v_body :: "string list list"
  v_columns :: "string list"
  v_shown :: "nat list"
  v_offset :: jsint
  v_rows :: jsint
  v_tlen :: int
  v_prev :: bool
  v_next :: bool
  v_nav_callback :: bool
  v_showing :: string
  v_goto :: string
  v_perpage :: string
  v_colsel :: "(string \<times> bool) list"
  v_options :: bool
  v_clickable :: bool

definition visible_cols :: "string list \<Rightarrow> table \<Rightarrow> nat list" where
  "visible_cols hdr t = filter (\<lambda>i. \<not> invisible_columns t i) [0..<length hdr]"

definition page_rows :: "nat list \<Rightarrow> table \<Rightarrow> jsint" where
  "page_rows td t = (if i_less (rows_per_page t) (Some 0) then Some (int (length td)) else rows_per_page t)"

definition page_of :: "nat list \<Rightarrow> nat list \<Rightarrow> table \<Rightarrow> nat list" where
  "page_of td disp t =
     (if synchronous t then js_slice (offset t) (i_add (offset t) (page_rows td t)) disp else disp)"

definition total_rows :: "nat list \<Rightarrow> table \<Rightarrow> jsint" where
  "total_rows td t = i_or (numrows t) (Some (int (length td)))"

definition showing_text :: "nat list \<Rightarrow> nat list \<Rightarrow> table \<Rightarrow> string" where
  "showing_text td shown t =
     ''showing rows '' @ jsint_to_string (i_add (offset t) (Some 1)) @ ''-''
     @ jsint_to_string (i_add (Some (int (length shown))) (offset t)) @ '' of '' @ jsint_to_string (total_rows td t)"

definition mk_view :: "string list \<Rightarrow> nat list \<Rightarrow> hcell list \<Rightarrow> nat list \<Rightarrow> table \<Rightarrow> view" where
  "mk_view hdr td cells disp t =
     (let shown = page_of td disp t; rows = page_rows td t
      in \<lparr>v_header = cells,
          v_body = map (\<lambda>r. map (\<lambda>i. to_html (cell t r (header_at hdr i))) (visible_cols hdr t)) shown,
          v_columns = hdr, v_shown = shown, v_offset = offset t, v_rows = rows, v_tlen = int (length td),
          v_prev = i_less (Some 0) (offset t),
          v_next = i_less (i_add (offset t) rows) (total_rows td t),
          v_nav_callback = (navigation_callback t \<noteq> NoCallback),
          v_showing = showing_text td shown t,
          v_goto = jsint_to_string (i_add (offset t) (Some 1)), v_perpage = jsint_to_string rows,
          v_colsel = map (\<lambda>i. (header_at hdr i, \<not> invisible_columns t i)) [0..<length hdr],
          v_options = (\<not> hide_options t), v_clickable = has_onclick t\<rparr>)"

definition uses_filter :: "table \<Rightarrow> bool" where
  "uses_filter t \<longleftrightarrow> filter_present (tfilters t) \<and> synchronous t"

definition render_table :: "host \<Rightarrow> table \<Rightarrow> (table \<times> view) js" where
  "render_table h t =
     jbind (init_header (split_raw (init_callback t))) (\<lambda>(t1, hdr).
     jbind (parse_data hdr t1) (\<lambda>(t2, td).
     jbind (detect_sorttypes hdr td t2) (\<lambda>t3.
     jbind (apply_filter h hdr td t3) (\<lambda>(t4, ftd).
     jbind (header_cells h hdr ftd t4) (\<lambda>(t5, cells).
     jbind (sort_rows hdr (uses_filter t3) ftd t5) (\<lambda>(t6, disp).
       ok (t6, mk_view hdr ftd cells disp t6)))))))"

end
