(* ===== verification/Table_Correct.thy ===== *)
theory Table_Correct
  imports Table_View
begin

text \<open>
  What one call of \<^verbatim>\<open>render\<close> does to a table: which fields each stage may change, that it
  keeps the table well formed, that the rows it shows are the accepted rows in the order the
  header announces, and when it throws.
\<close>

section \<open>Frames\<close>

lemma cell_update [simp]:
  "cell (t\<lparr>tfilters := fs\<rparr>) = cell t" "cell (t\<lparr>sorttype := st\<rparr>) = cell t"
  "cell (t\<lparr>is_sorted := b\<rparr>) = cell t" "cell (t\<lparr>tdata := td\<rparr>) = cell t"
  "cell (t\<lparr>filtered_data := td\<rparr>) = cell t" "cell (t\<lparr>header := x\<rparr>) = cell t"
  "cell (t\<lparr>data := d\<rparr>) = cell t" "cell (t\<lparr>offset := i\<rparr>) = cell t"
  "cell (t\<lparr>alerts := as\<rparr>) = cell t" "cell (t\<lparr>filter_changed := b\<rparr>) = cell t"
  "cell (t\<lparr>navigation_callback := c\<rparr>) = cell t"
  by (simp_all add: cell_def fun_eq_iff)

lemma detect_filter_frame:
  "\<exists>fs. detect_filter h hdr td t i = t\<lparr>tfilters := fs\<rparr>
     \<and> (sorted_wrt (<) (map fst (tfilters t)) \<longrightarrow> sorted_wrt (<) (map fst fs))"
proof (cases "filter_autodetect t \<and> fget (tfilters t) i = None")
  case True
  then obtain f where "detect_filter h hdr td t i = t\<lparr>tfilters := fput (tfilters t) i f\<rparr>"
    by (simp add: detect_filter_def Let_def)
  then show ?thesis using sorted_fput by blast
next
  case False
  then have "detect_filter h hdr td t i = t\<lparr>tfilters := tfilters t\<rparr>"
    by (auto simp: detect_filter_def)
  then show ?thesis by blast
qed

lemma header_cell_frame:
  assumes "header_cell h hdr td (t, cs, p) i = Inr (t', cs', p')"
  shows "\<exists>fs. t' = t\<lparr>tfilters := fs\<rparr>
     \<and> (sorted_wrt (<) (map fst (tfilters t)) \<longrightarrow> sorted_wrt (<) (map fst fs))"
proof (cases "invisible_columns t i")
  case True
  with assms have "t' = t\<lparr>tfilters := tfilters t\<rparr>" by (simp add: header_cell_def)
  then show ?thesis by blast
next
  case False
  obtain fs where fs: "detect_filter h hdr td t i = t\<lparr>tfilters := fs\<rparr>"
    "sorted_wrt (<) (map fst (tfilters t)) \<longrightarrow> sorted_wrt (<) (map fst fs)"
    using detect_filter_frame by blast
  show ?thesis
  proof (cases "fget fs i")
    case None
    with assms False fs have "t' = t\<lparr>tfilters := fs\<rparr>" by (simp add: header_cell_def Let_def)
    with fs(2) show ?thesis by blast
  next
    case (Some f)
    with assms False fs obtain f1 where "t' = t\<lparr>tfilters := fput fs i f1\<rparr>"
      by (auto simp: header_cell_def Let_def jbind_Inr_iff split: option.splits)
    with fs(2) sorted_fput show ?thesis by blast
  qed
qed

lemma header_cells_frame:
  assumes "header_cells h hdr td t = Inr (t', cells)"
  shows "\<exists>fs. t' = t\<lparr>tfilters := fs\<rparr>
     \<and> (sorted_wrt (<) (map fst (tfilters t)) \<longrightarrow> sorted_wrt (<) (map fst fs))"
proof -
  have loop: "js_foldM (header_cell h hdr td) (t, cs, p) is = Inr (t', cs', p') \<Longrightarrow>
    \<exists>fs. t' = t\<lparr>tfilters := fs\<rparr>
     \<and> (sorted_wrt (<) (map fst (tfilters t)) \<longrightarrow> sorted_wrt (<) (map fst fs))" for t cs p "is" t' cs' p'
  proof (induction "is" arbitrary: t cs p)
    case Nil
    then have "t' = t\<lparr>tfilters := tfilters t\<rparr>" by simp
    then show ?case by blast
  next
    case (Cons i "is")
    then obtain t1 cs1 p1 where s: "header_cell h hdr td (t, cs, p) i = Inr (t1, cs1, p1)"
      and r: "js_foldM (header_cell h hdr td) (t1, cs1, p1) is = Inr (t', cs', p')"
      by (auto simp: jbind_Inr_iff)
    obtain fs where "t1 = t\<lparr>tfilters := fs\<rparr>"
      "sorted_wrt (<) (map fst (tfilters t)) \<longrightarrow> sorted_wrt (<) (map fst fs)"
      using header_cell_frame [OF s] by blast
    with Cons.IH [OF r] show ?case by auto
  qed
  from assms obtain cs' p' where "js_foldM (header_cell h hdr td) (t, [], None) [0..<length hdr] = Inr (t', cs', p')"
    by (auto simp: header_cells_def jbind_Inr_iff)
  then show ?thesis by (rule loop)
qed

lemma detect_sorttypes_frame:
  assumes "detect_sorttypes hdr td t = Inr t'"
  shows "\<exists>st. t' = t\<lparr>sorttype := st\<rparr>"
proof -
  have step: "detect_column hdr td t i = Inr t' \<Longrightarrow> \<exists>st. t' = t\<lparr>sorttype := st\<rparr>" for t i t'
  proof -
    assume a: "detect_column hdr td t i = Inr t'"
    have "t' = t \<or> (\<exists>st. t' = t\<lparr>sorttype := st\<rparr>)"
      using a by (auto simp: detect_column_def jbind_Inr_iff split: if_splits list.splits)
    then show "\<exists>st. t' = t\<lparr>sorttype := st\<rparr>"
      by (metis (no_types) table.surjective table.update_convs(16))
  qed
  have "js_foldM (detect_column hdr td) t is = Inr t' \<Longrightarrow> \<exists>st. t' = t\<lparr>sorttype := st\<rparr>" for t "is" t'
  proof (induction "is" arbitrary: t)
    case Nil
    then have "t' = t\<lparr>sorttype := sorttype t\<rparr>" by simp
    then show ?case by blast
  next
    case (Cons i "is")
    then obtain t1 where "detect_column hdr td t i = Inr t1"
      "js_foldM (detect_column hdr td) t1 is = Inr t'" by (auto simp: jbind_Inr_iff)
    with step Cons.IH show ?case by fastforce
  qed
  with assms show ?thesis
    by (metis (no_types) detect_sorttypes_def sum.inject(2) table.surjective table.update_convs(16))
qed

section \<open>Well-formedness\<close>

lemma init_wf: "table_wf t \<Longrightarrow> table_wf (split_raw (init_callback t))"
  by (simp add: table_wf_def split_raw_def init_callback_def split: option.split data_src.split list.split)

lemma init_header_wf: "table_wf t \<Longrightarrow> init_header t = Inr (t', hdr) \<Longrightarrow> table_wf t' \<and> header t' = Some hdr"
  by (auto simp: table_wf_def init_header_def split: option.splits data_src.splits list.splits)

lemma parse_data_wf:
  assumes "table_wf t" "parse_data hdr t = Inr (t', td)"
  shows "table_wf t' \<and> tdata t' = Some td \<and> header t' = header t"
proof (cases "tdata t")
  case None
  then show ?thesis
    using assms by (auto simp: table_wf_def parse_data_def Let_def ids_ok_upt split: data_src.splits option.splits)
next
  case (Some td')
  with assms show ?thesis by (auto simp: parse_data_def)
qed

lemma detect_sorttypes_wf:
  "table_wf t \<Longrightarrow> detect_sorttypes hdr td t = Inr t' \<Longrightarrow> table_wf t' \<and> tdata t' = tdata t \<and> header t' = header t"
  by (drule detect_sorttypes_frame) (auto simp: table_wf_def)

lemma apply_filter_wf:
  assumes "table_wf t" "tdata t = Some td" "apply_filter h hdr td t = Inr (t', ftd)"
  shows "table_wf t' \<and> tdata t' = Some td \<and> header t' = header t \<and> row_store t' = row_store t
     \<and> ids_ok (length (row_store t)) ftd
     \<and> (if uses_filter t then filtered_data t' = Some ftd else ftd = td)"
proof (cases "uses_filter t \<and> filter_changed t")
  case True
  then obtain fs als where fs: "prepare_filters h (tfilters t) = Inr (fs, als)"
    and new: "js_filterM (\<lambda>r. row_passes h (\<lambda>i. cell t r (header_at hdr i)) fs) td = Inr ftd"
    and t': "t' = t\<lparr>offset := Some 0, tfilters := fs, alerts := alerts t @ als,
                  filter_changed := False, filtered_data := Some ftd\<rparr>"
    using assms(3) by (auto simp: apply_filter_def uses_filter_def jbind_Inr_iff)
  have "ids_ok (length (row_store t)) ftd"
    using js_filterM_Inr [OF new] assms(1,2) by (simp add: table_wf_def ids_ok_filter)
  with assms(1,2) t' prepare_filter_fst [OF fs] True show ?thesis
    by (simp add: table_wf_def)
next
  case False
  with assms show ?thesis
    by (auto simp: apply_filter_def uses_filter_def table_wf_def split: if_splits option.splits)
qed

lemma header_cells_wf:
  "table_wf t \<Longrightarrow> header_cells h hdr td t = Inr (t', cs) \<Longrightarrow>
     table_wf t' \<and> tdata t' = tdata t \<and> filtered_data t' = filtered_data t \<and> row_store t' = row_store t"
  by (drule header_cells_frame) (auto simp: table_wf_def)

lemma sort_rows_wf:
  assumes "table_wf t" "tdata t = Some td0" "sort_rows hdr fl td t = Inr (t', disp)"
    and "if fl then filtered_data t = Some td else td = td0"
  shows "table_wf t' \<and> mset disp = mset td \<and> row_store t' = row_store t"
proof (cases "is_sorted t")
  case True
  with assms show ?thesis by (simp add: sort_rows_def)
next
  case False
  then obtain d where d: "js_sortM (row_cmp hdr t) td = Inr d" "disp = d"
    "t' = (if fl then t\<lparr>filtered_data := Some d, is_sorted := True\<rparr> else t\<lparr>tdata := Some d, is_sorted := True\<rparr>)"
    using assms(3) by (auto simp: sort_rows_def jbind_Inr_iff)
  have m: "mset d = mset td" using d(1) by (rule mset_js_sortM)
  have "ids_ok (length (row_store t)) td" using assms by (cases fl) (auto simp: table_wf_def)
  then have "ids_ok (length (row_store t)) d" using m by (rule ids_ok_mset)
  with d m assms show ?thesis by (cases fl) (auto simp: table_wf_def)
qed

text \<open>The stages of a successful call, in order.\<close>

lemma render_table_stages:
  assumes "render_table h t = Inr (t', v)"
  obtains t1 hdr t2 td t3 t4 ftd t5 cells disp where
    "init_header (split_raw (init_callback t)) = Inr (t1, hdr)"
    "parse_data hdr t1 = Inr (t2, td)"
    "detect_sorttypes hdr td t2 = Inr t3"
    "apply_filter h hdr td t3 = Inr (t4, ftd)"
    "header_cells h hdr ftd t4 = Inr (t5, cells)"
    "sort_rows hdr (uses_filter t3) ftd t5 = Inr (t', disp)"
    "v = mk_view hdr ftd cells disp t'"
  using assms by (auto simp: render_table_def jbind_Inr_iff)

lemma render_table_wf [js_inv]:
  assumes "table_wf t" "render_table h t = Inr (t', v)"
  shows "table_wf t'"
proof -
  obtain t1 hdr t2 td t3 t4 ftd t5 cells disp where s:
    "init_header (split_raw (init_callback t)) = Inr (t1, hdr)" "parse_data hdr t1 = Inr (t2, td)"
    "detect_sorttypes hdr td t2 = Inr t3" "apply_filter h hdr td t3 = Inr (t4, ftd)"
    "header_cells h hdr ftd t4 = Inr (t5, cells)" "sort_rows hdr (uses_filter t3) ftd t5 = Inr (t', disp)"
    using render_table_stages [OF assms(2)] by metis
  have "table_wf t1" using init_wf [OF assms(1)] init_header_wf s(1) by blast
  then have "table_wf t2" "tdata t2 = Some td" using parse_data_wf s(2) by blast+
  then have "table_wf t3" "tdata t3 = Some td" using detect_sorttypes_wf s(3) by auto
  then have "table_wf t4 \<and> tdata t4 = Some td \<and> (if uses_filter t3 then filtered_data t4 = Some ftd else ftd = td)"
    using apply_filter_wf s(4) by blast
  then have "table_wf t5 \<and> tdata t5 = Some td \<and> (if uses_filter t3 then filtered_data t5 = Some ftd else ftd = td)"
    using header_cells_wf s(5) by fastforce
  then show ?thesis using sort_rows_wf s(6) by blast
qed

section \<open>The order of the rows\<close>

text \<open>The text or number a cell is sorted by.\<close>

definition sort_text :: "jsval \<Rightarrow> string" where
  "sort_text v = (case v of Str s \<Rightarrow> strip_tags s | _ \<Rightarrow> [])"

definition sort_num :: "jsval \<Rightarrow> jsnum" where
  "sort_num v = (case v of Num n \<Rightarrow> n | Str s \<Rightarrow> parseFloat (strip_tags s) | _ \<Rightarrow> JNaN)"

definition is_Str :: "jsval \<Rightarrow> bool" where
  "is_Str v = (case v of Str _ \<Rightarrow> True | _ \<Rightarrow> False)"

definition is_Num :: "jsval \<Rightarrow> bool" where
  "is_Num v = (case v of Num _ \<Rightarrow> True | _ \<Rightarrow> False)"

text \<open>A column the renderer can order: texts, or numbers of one representation, none of them NaN.\<close>

definition col_sortable :: "string option \<Rightarrow> jsval list \<Rightarrow> bool" where
  "col_sortable st vs \<longleftrightarrow>
     (if st = Some ''number''
      then (list_all is_Num vs \<or> list_all is_Str vs) \<and> list_all (\<lambda>v. sort_num v \<noteq> JNaN) vs
      else (st = None \<or> st = Some [] \<or> st = Some ''string'') \<and> list_all is_Str vs)"

definition cell_order :: "string option \<Rightarrow> jsval \<Rightarrow> jsval \<Rightarrow> int" where
  "cell_order st a b =
     (if st = Some ''number'' then cmp_nums (sort_num a) (sort_num b)
      else cmp_strings (sort_text a) (sort_text b))"

definition row_order :: "string list \<Rightarrow> table \<Rightarrow> nat \<Rightarrow> nat \<Rightarrow> int" where
  "row_order hdr t a b =
     (let k = header_at hdr (sortcol t); st = sorttype t (sortcol t)
      in if sortdir t = ''desc'' then cell_order st (cell t b k) (cell t a k)
         else cell_order st (cell t a k) (cell t b k))"

definition sort_column :: "string list \<Rightarrow> table \<Rightarrow> nat list \<Rightarrow> jsval list" where
  "sort_column hdr t td = map (\<lambda>r. cell t r (header_at hdr (sortcol t))) td"

lemma is_StrE: "is_Str v \<Longrightarrow> (\<And>s. v = Str s \<Longrightarrow> P) \<Longrightarrow> P"
  by (cases v) (auto simp: is_Str_def)

lemma is_NumE: "is_Num v \<Longrightarrow> (\<And>n. v = Num n \<Longrightarrow> P) \<Longrightarrow> P"
  by (cases v) (auto simp: is_Num_def)

lemma cmp_cells_order:
  assumes "col_sortable st vs" "a \<in> set vs" "b \<in> set vs"
  shows "cmp_cells st a b = Inr (cell_order st a b)"
proof (cases "st = Some ''number''")
  case True
  then consider "is_Num a" "is_Num b" | "is_Str a" "is_Str b"
    using assms by (auto simp: col_sortable_def list_all_iff)
  then show ?thesis
    by cases (auto elim!: is_NumE is_StrE simp: True cmp_cells_def cell_order_def has_replace_def
        nullish_def replace_tags_def sort_num_def cmp_nums_def)
next
  case False
  then have "is_Str a" "is_Str b" "st = None \<or> st = Some [] \<or> st = Some ''string''"
    using assms by (auto simp: col_sortable_def list_all_iff)
  then show ?thesis
    by (auto elim!: is_StrE simp: cmp_cells_def cell_order_def cmp_stripped_def replace_tags_def sort_text_def)
qed

lemma consistent_cmp_strings: "consistent (\<lambda>a b. cmp_strings (f a) (f b)) S"
  unfolding consistent_def cmp_strings_def
  by (intro conjI ballI) (auto split: if_splits)

lemma consistent_cmp_nums: "(\<And>x. x \<in> S \<Longrightarrow> f x \<noteq> JNaN) \<Longrightarrow> consistent (\<lambda>a b. cmp_nums (f a) (f b)) S"
proof -
  assume nn: "\<And>x. x \<in> S \<Longrightarrow> f x \<noteq> JNaN"
  have le: "cmp_nums (f x) (f y) \<le> 0 \<longleftrightarrow> num_less (f x) (f y) \<or> f x = f y" if "x \<in> S" "y \<in> S" for x y
    using nn that by (auto simp: cmp_nums_def num_eq_def)
  show ?thesis
    unfolding consistent_def
  proof (intro conjI ballI impI)
    fix x assume "x \<in> S"
    then show "cmp_nums (f x) (f x) = 0" using nn by (simp add: cmp_nums_def num_eq_def)
  next
    fix x y assume xy: "x \<in> S" "y \<in> S"
    show "cmp_nums (f x) (f y) < 0 \<longleftrightarrow> 0 < cmp_nums (f y) (f x)"
      using nn xy num_less_linear [of "f x" "f y"] num_less_asym
      by (auto simp: cmp_nums_def num_eq_def)
  next
    fix x y z assume "x \<in> S" "y \<in> S" "z \<in> S" "cmp_nums (f x) (f y) \<le> 0" "cmp_nums (f y) (f z) \<le> 0"
    then show "cmp_nums (f x) (f z) \<le> 0" using le num_less_trans by metis
  qed
qed

lemma consistent_row_order:
  assumes "col_sortable (sorttype t (sortcol t)) (sort_column hdr t td)"
  shows "consistent (row_order hdr t) (set td)"
proof -
  let ?k = "header_at hdr (sortcol t)" and ?st = "sorttype t (sortcol t)"
  have c: "consistent (\<lambda>a b. cell_order ?st (cell t a ?k) (cell t b ?k)) (set td)"
  proof (cases "?st = Some ''number''")
    case True
    then have "sort_num (cell t r ?k) \<noteq> JNaN" if "r \<in> set td" for r
      using assms that by (auto simp: col_sortable_def sort_column_def list_all_iff)
    then show ?thesis
      using True consistent_cmp_nums [of "set td" "\<lambda>r. sort_num (cell t r ?k)"] by (simp add: cell_order_def)
  next
    case False
    then show ?thesis by (simp add: cell_order_def consistent_cmp_strings)
  qed
  show ?thesis
  proof (cases "sortdir t = ''desc''")
    case True
    then have "row_order hdr t = (\<lambda>a b. cell_order ?st (cell t b ?k) (cell t a ?k))"
      by (simp add: row_order_def fun_eq_iff Let_def)
    with consistent_swap [OF c] show ?thesis by simp
  next
    case False
    then have "row_order hdr t = (\<lambda>a b. cell_order ?st (cell t a ?k) (cell t b ?k))"
      by (simp add: row_order_def fun_eq_iff Let_def)
    with c show ?thesis by simp
  qed
qed

lemma row_cmp_order:
  assumes "col_sortable (sorttype t (sortcol t)) (sort_column hdr t td)" "a \<in> set td" "b \<in> set td"
  shows "row_cmp hdr t a b = Inr (row_order hdr t a b)"
proof -
  let ?c = "\<lambda>r. cell t r (header_at hdr (sortcol t))"
  have "?c a \<in> set (sort_column hdr t td)" "?c b \<in> set (sort_column hdr t td)"
    using assms(2,3) by (auto simp: sort_column_def)
  then show ?thesis
    using cmp_cells_order [OF assms(1)] by (simp add: row_cmp_def row_order_def Let_def)
qed

text \<open>On an orderable column the sort succeeds and yields the stable sort by the column.\<close>

lemma sort_rows_order:
  assumes "col_sortable (sorttype t (sortcol t)) (sort_column hdr t td)" "\<not> is_sorted t"
  shows "sort_rows hdr fl td t =
    Inr (if fl then t\<lparr>filtered_data := Some (js_sort (row_order hdr t) td), is_sorted := True\<rparr>
         else t\<lparr>tdata := Some (js_sort (row_order hdr t) td), is_sorted := True\<rparr>,
         js_sort (row_order hdr t) td)"
proof -
  have "js_sortM (row_cmp hdr t) td = Inr (js_sort (row_order hdr t) td)"
    using row_cmp_order [OF assms(1)] by (rule js_sortM_total)
  with assms(2) show ?thesis by (simp add: sort_rows_def)
qed

section \<open>What a filter means\<close>

text \<open>The meaning of one filter, read off the documentation of the options: an empty or missing
  search word accepts everything; without operators the word is a pattern; the operators compare
  with the word, or with the inclusive range it denotes.\<close>

definition accepts :: "host \<Rightarrow> tfilter \<Rightarrow> jsval \<Rightarrow> bool" where
  "accepts h f v =
     (case searchword f of None \<Rightarrow> True
      | Some w \<Rightarrow>
          if w = [] then True
          else if operator f = None
          then (case v of Str s \<Rightarrow> re_test h w (\<not> case_sensitive f) s | _ \<Rightarrow> False)
          else let n = parseFloat (to_string v); m = parseFloat w
               in if active_op f = Some ''='' then loose_eq v (Str w)
                  else if active_op f = Some ''>'' then \<not> num_le n m
                  else if active_op f = Some ''<'' then \<not> num_le m n
                  else if active_op f = Some ''><''
                  then (case js_split (CHR '','') w of
                          [lo, hi] \<Rightarrow> \<not> num_less n (parseFloat lo) \<and> \<not> num_less (parseFloat hi) n
                        | _ \<Rightarrow> True)
                  else True)"

definition row_accepted :: "host \<Rightarrow> string list \<Rightarrow> table \<Rightarrow> nat \<Rightarrow> bool" where
  "row_accepted h hdr t r = list_all (\<lambda>(i, f). accepts h f (cell t r (header_at hdr i))) (tfilters t)"

lemma active_op_update [simp]:
  "active_op (f\<lparr>re := x\<rparr>) = active_op f" "active_op (f\<lparr>minmax := y\<rparr>) = active_op f"
  "active_op (f\<lparr>searchword := z\<rparr>) = active_op f"
  by (simp_all add: active_op_def split: option.split)

lemma active_op_operator: "active_op f = Some x \<Longrightarrow> operator f \<noteq> None"
  by (auto simp: active_op_def split: option.splits)

lemma length2E: "length xs = 2 \<Longrightarrow> (\<And>a b. xs = [a, b] \<Longrightarrow> P) \<Longrightarrow> P"
  by (cases xs; cases "tl xs") auto

text \<open>The compiled filter tests what the filter means.\<close>

lemma prepare_filter_accepts:
  assumes "prepare_filter h f = Inr (f', as)"
  shows "(filter_active f' \<longrightarrow> cell_passes h f' v = Inr True) \<longleftrightarrow> accepts h f v"
proof (cases "searchword f")
  case None
  with assms have "\<not> filter_active f'"
    by (auto simp: prepare_filter_def filter_active_def Let_def split: if_splits)
  with None show ?thesis by (simp add: accepts_def)
next
  case (Some w)
  have ok: "re_ok h w" using assms Some by (auto simp: prepare_filter_def Let_def split: if_splits)
  let ?f1 = "f\<lparr>re := Some (w, \<not> case_sensitive f)\<rparr>" and ?mm = "js_split (CHR '','') w"
  consider (empty) "w = []" | (range) "w \<noteq> []" "active_op f = Some ''><''" | (other) "w \<noteq> []" "active_op f \<noteq> Some ''><''"
    by blast
  then show ?thesis
  proof cases
    case empty
    with assms Some ok show ?thesis by (auto simp: prepare_filter_def filter_active_def accepts_def Let_def)
  next
    case range
    note op = active_op_operator [OF range(2)]
    show ?thesis
    proof (cases "length ?mm = 2")
      case True
      then obtain lo hi where mm: "?mm = [lo, hi]" by (rule length2E)
      have "f' = ?f1\<lparr>minmax := Some [lo, hi]\<rparr>"
        using assms Some ok range mm by (simp add: prepare_filter_def Let_def)
      with Some range op mm show ?thesis
        by (auto simp: filter_active_def cell_passes_def accepts_def minmax_at_def Let_def)
    next
      case False
      then have "\<not> filter_active f'"
        using assms Some ok range by (auto simp: prepare_filter_def filter_active_def Let_def)
      moreover have "accepts h f v"
        using Some range op False by (auto simp: accepts_def Let_def split: list.splits)
      ultimately show ?thesis by simp
    qed
  next
    case other
    then have "f' = ?f1" using assms Some ok by (simp add: prepare_filter_def Let_def)
    with Some other show ?thesis
      by (cases v) (auto simp: filter_active_def cell_passes_def accepts_def Let_def)
  qed
qed

lemma prepare_filters_accept:
  assumes "prepare_filters h fs = Inr (fs', as)"
  shows "row_passes h c fs' = Inr True \<longleftrightarrow> list_all (\<lambda>(i, f). accepts h f (c i)) fs"
proof -
  obtain ps where ps: "js_mapM (\<lambda>(i, f). jbind (prepare_filter h f) (\<lambda>(f', as). ok ((i, f'), as))) fs = Inr ps"
    and fs': "fs' = map fst ps"
    using assms by (auto simp: prepare_filters_def jbind_Inr_iff)
  have "(\<forall>(i, f) \<in> set (map fst ps). filter_active f \<longrightarrow> cell_passes h f (c i) = Inr True)
      \<longleftrightarrow> list_all (\<lambda>(i, f). accepts h f (c i)) fs"
    using ps
  proof (induction fs arbitrary: ps)
    case (Cons p fs)
    obtain i f where p: "p = (i, f)" by (cases p)
    with Cons.prems obtain f' as ps' where "prepare_filter h f = Inr (f', as)"
      "js_mapM (\<lambda>(i, f). jbind (prepare_filter h f) (\<lambda>(f', as). ok ((i, f'), as))) fs = Inr ps'"
      "ps = ((i, f'), as) # ps'"
      by (auto simp: jbind_Inr_iff)
    with Cons.IH prepare_filter_accepts p show ?case by simp
  qed simp
  with fs' show ?thesis by (simp add: row_passes_iff)
qed

lemma apply_filter_spec:
  assumes "apply_filter h hdr td t = Inr (t', ftd)" "synchronous t" "uses_filter t \<Longrightarrow> filter_changed t"
  shows "ftd = filter (row_accepted h hdr t) td"
proof (cases "uses_filter t")
  case True
  with assms obtain fs als where fs: "prepare_filters h (tfilters t) = Inr (fs, als)"
    and new: "js_filterM (\<lambda>r. row_passes h (\<lambda>i. cell t r (header_at hdr i)) fs) td = Inr ftd"
    by (auto simp: apply_filter_def uses_filter_def jbind_Inr_iff)
  show ?thesis
    using js_filterM_Inr [OF new] prepare_filters_accept [OF fs] by (simp add: row_accepted_def [abs_def])
next
  case False
  with assms(2) have "accepts h f v" if "(i, f) \<in> set (tfilters t)" for i f v
    using that by (auto simp: uses_filter_def filter_present_def list_ex_iff filter_active_def accepts_def
        split: option.splits)
  then have "row_accepted h hdr t r" for r by (auto simp: row_accepted_def list_all_iff)
  moreover have "ftd = td" using assms(1) False by (auto simp: apply_filter_def uses_filter_def)
  ultimately show ?thesis by simp
qed

section \<open>One call of render\<close>

lemma init_fields [simp]:
  "header (split_raw (init_callback t)) = header t" "tdata (split_raw (init_callback t)) = tdata t"
  "row_store (split_raw (init_callback t)) = row_store t"
  "filtered_data (split_raw (init_callback t)) = filtered_data t"
  "tfilters (split_raw (init_callback t)) = tfilters t"
  "filter_changed (split_raw (init_callback t)) = filter_changed t"
  "is_sorted (split_raw (init_callback t)) = is_sorted t" "offset (split_raw (init_callback t)) = offset t"
  "rows_per_page (split_raw (init_callback t)) = rows_per_page t"
  "sortcol (split_raw (init_callback t)) = sortcol t" "sortdir (split_raw (init_callback t)) = sortdir t"
  "sorttype (split_raw (init_callback t)) = sorttype t"
  "synchronous (split_raw (init_callback t)) = synchronous t"
  "numrows (split_raw (init_callback t)) = numrows t"
  "sort_autodetect (split_raw (init_callback t)) = sort_autodetect t"
  "invisible_columns (split_raw (init_callback t)) = invisible_columns t"
  by (simp_all add: split_raw_def init_callback_def split: option.split data_src.split list.split)

lemma init_cell [simp]: "cell (split_raw (init_callback t)) = cell t"
  by (simp add: cell_def fun_eq_iff)

lemma apply_filter_frame:
  assumes "apply_filter h hdr td t = Inr (t', ftd)"
  shows "\<exists>off fs as b fd. t' = t\<lparr>offset := off, tfilters := fs, alerts := as, filter_changed := b, filtered_data := fd\<rparr>
     \<and> (\<not> uses_filter t \<or> \<not> filter_changed t \<longrightarrow> off = offset t) \<and> (uses_filter t \<and> filter_changed t \<longrightarrow> off = Some 0)"
proof (cases "uses_filter t \<and> filter_changed t")
  case True
  with assms show ?thesis by (fastforce simp: apply_filter_def uses_filter_def jbind_Inr_iff)
next
  case False
  then have "t' = t \<or> t' = t\<lparr>filter_changed := False\<rparr>"
    using assms by (auto simp: apply_filter_def uses_filter_def split: if_splits option.splits)
  then have "t' = t\<lparr>offset := offset t, tfilters := tfilters t, alerts := alerts t, filter_changed := filter_changed t', filtered_data := filtered_data t\<rparr>"
    by auto
  with False show ?thesis by blast
qed

lemma row_order_cong:
  "cell t = cell u \<Longrightarrow> sortcol t = sortcol u \<Longrightarrow> sorttype t = sorttype u \<Longrightarrow> sortdir t = sortdir u \<Longrightarrow>
     row_order hdr t = row_order hdr u"
  by (intro ext) (simp add: row_order_def Let_def)

lemma render_table_shows:
  assumes r: "render_table h t = Inr (t', v)"
    and hdr: "header t = Some hdr" and td: "tdata t = Some td"
    and sync: "synchronous t" and uns: "\<not> is_sorted t" and fch: "uses_filter t \<Longrightarrow> filter_changed t"
    and col: "col_sortable (sorttype t' (sortcol t)) (sort_column hdr t td)"
  shows "v_shown v = js_slice (v_offset v) (i_add (v_offset v) (v_rows v))
           (js_sort (row_order hdr (t\<lparr>sorttype := sorttype t'\<rparr>)) (filter (row_accepted h hdr t) td))
     \<and> v_offset v = (if uses_filter t then Some 0 else offset t)
     \<and> v_rows v = page_rows (filter (row_accepted h hdr t) td) t
     \<and> v_body v = map (\<lambda>r. map (\<lambda>i. to_html (cell t r (header_at hdr i))) (visible_cols hdr t)) (v_shown v)"
proof -
  obtain t1 hdr' t2 td' t3 t4 ftd t5 cells disp where s:
    "init_header (split_raw (init_callback t)) = Inr (t1, hdr')" "parse_data hdr' t1 = Inr (t2, td')"
    "detect_sorttypes hdr' td' t2 = Inr t3" "apply_filter h hdr' td' t3 = Inr (t4, ftd)"
    "header_cells h hdr' ftd t4 = Inr (t5, cells)" "sort_rows hdr' (uses_filter t3) ftd t5 = Inr (t', disp)"
    "v = mk_view hdr' ftd cells disp t'"
    using render_table_stages [OF r] by metis
  let ?t0 = "split_raw (init_callback t)"
  have e: "t1 = ?t0" "hdr' = hdr" "t2 = ?t0" "td' = td"
    using s(1,2) hdr td by (auto simp: init_header_def parse_data_def)
  obtain st where t3: "t3 = ?t0\<lparr>sorttype := st\<rparr>" using detect_sorttypes_frame s(3) e by blast
  have uf: "uses_filter t3 = uses_filter t" by (simp add: uses_filter_def t3)
  obtain off fs as b fd where t4: "t4 = t3\<lparr>offset := off, tfilters := fs, alerts := as, filter_changed := b, filtered_data := fd\<rparr>"
    and off: "off = (if uses_filter t then Some 0 else offset t)"
  proof -
    have "filter_changed t3 = filter_changed t" "offset t3 = offset t" by (simp_all add: t3)
    then show ?thesis using apply_filter_frame [OF s(4)] uf fch that by (cases "uses_filter t") auto
  qed
  obtain fs' where t5: "t5 = t4\<lparr>tfilters := fs'\<rparr>" using header_cells_frame [OF s(5)] by blast
  have c5: "cell t5 = cell t" "sortcol t5 = sortcol t" "sortdir t5 = sortdir t" "sorttype t5 = st" "\<not> is_sorted t5"
    using uns by (auto simp: t5 t4 t3)
  have "row_accepted h hdr t3 = row_accepted h hdr t" by (simp add: row_accepted_def fun_eq_iff t3)
  then have ftd: "ftd = filter (row_accepted h hdr t) td"
    using apply_filter_spec [OF s(4)] uf fch sync by (simp add: t3 e)
  have "sorttype t' = st" using s(6) c5(4,5) by (auto simp: sort_rows_def jbind_Inr_iff)
  with col have col5: "col_sortable (sorttype t5 (sortcol t5)) (sort_column hdr t5 ftd)"
    by (auto simp: c5 ftd sort_column_def col_sortable_def list_all_iff)
  have ro: "row_order hdr t5 = row_order hdr (t\<lparr>sorttype := sorttype t'\<rparr>)"
    using c5 \<open>sorttype t' = st\<close> by (intro row_order_cong) auto
  have res: "disp = js_sort (row_order hdr t5) ftd"
    "t' = (if uses_filter t then t5\<lparr>filtered_data := Some disp, is_sorted := True\<rparr> else t5\<lparr>tdata := Some disp, is_sorted := True\<rparr>)"
    using s(6) sort_rows_order [OF col5 c5(5), of "uses_filter t3"] uf by (auto simp: e)
  have f': "offset t' = off" "synchronous t'" "rows_per_page t' = rows_per_page t" "cell t' = cell t"
    "invisible_columns t' = invisible_columns t"
    using sync by (auto simp: res(2) t5 t4 t3)
  have "page_rows ftd t' = page_rows ftd t" by (simp add: page_rows_def f')
  then show ?thesis
    by (simp add: s(7) mk_view_def Let_def page_of_def f' off ftd res(1) ro e visible_cols_def)
qed

section \<open>When render returns\<close>

text \<open>A table of texts: every row has a text in every column of the header, the filters belong to
  columns of the header, are of a known type, have no operators and hold valid patterns.\<close>

definition text_rows :: "string list \<Rightarrow> table \<Rightarrow> bool" where
  "text_rows hdr t =
     list_all (\<lambda>r. list_all (\<lambda>k. is_Str (row_cell r k)) hdr) (row_store t)"

definition known_type :: "tfilter \<Rightarrow> bool" where
  "known_type f \<longleftrightarrow> ftype f = ''text'' \<or> ftype f = ''select''"

definition text_filter :: "host \<Rightarrow> string list \<Rightarrow> nat \<times> tfilter \<Rightarrow> bool" where
  "text_filter h hdr p =
     (fst p < length hdr \<and> operator (snd p) = None \<and> known_type (snd p)
      \<and> re_ok h (case searchword (snd p) of None \<Rightarrow> ''(?:)'' | Some w \<Rightarrow> w))"

lemma known_type_update [simp]:
  "known_type (f\<lparr>re := x\<rparr>) = known_type f" "known_type (f\<lparr>searchword := w\<rparr>) = known_type f"
  by (simp_all add: known_type_def)

lemma text_cell:
  "text_rows hdr t \<Longrightarrow> r < length (row_store t) \<Longrightarrow> i < length hdr \<Longrightarrow> \<exists>s. cell t r (header_at hdr i) = Str s"
proof -
  assume a: "text_rows hdr t" "r < length (row_store t)" "i < length hdr"
  then have "is_Str (row_cell (row_store t ! r) (hdr ! i))"
    unfolding text_rows_def list_all_iff by (meson nth_mem)
  with a show ?thesis by (auto simp: cell_def header_at_def elim: is_StrE)
qed

lemma prepare_filters_text:
  assumes "list_all (text_filter h hdr) fs"
  shows "prepare_filters h fs =
    Inr (map (\<lambda>(i, f). (i, f\<lparr>re := Some (case searchword f of None \<Rightarrow> ''(?:)'' | Some w \<Rightarrow> w, \<not> case_sensitive f)\<rparr>)) fs, [])"
proof -
  let ?g = "\<lambda>(i, f). ((i, f\<lparr>re := Some (case searchword f of None \<Rightarrow> ''(?:)'' | Some w \<Rightarrow> w, \<not> case_sensitive f)\<rparr>), [] :: string list)"
  have "js_mapM (\<lambda>(i, f). jbind (prepare_filter h f) (\<lambda>(f', as). ok ((i, f'), as))) fs = Inr (map ?g fs)"
  proof (rule js_mapM_total)
    fix p assume "p \<in> set fs"
    then have "text_filter h hdr p" using assms by (simp add: list_all_iff)
    then show "(\<lambda>(i, f). jbind (prepare_filter h f) (\<lambda>(f', as). ok ((i, f'), as))) p = Inr (?g p)"
      by (cases p) (auto simp: text_filter_def prepare_filter_def active_op_def Let_def split: option.splits)
  qed
  then show ?thesis by (simp add: prepare_filters_def comp_def case_prod_unfold)
qed

lemma row_passes_text:
  assumes "\<forall>(i, f) \<in> set fs. operator f = None \<and> (\<exists>s. c i = Str s)"
  shows "\<exists>b. row_passes h c fs = Inr b"
  using assms
proof (induction fs)
  case (Cons p fs)
  obtain i f where p: "p = (i, f)" by (cases p)
  with Cons.prems obtain s where "c i = Str s" "operator f = None" by auto
  with Cons p show ?case by (auto simp: cell_passes_def Let_def)
qed auto

lemma apply_filter_text:
  assumes "table_wf t" "tdata t = Some td" "text_rows hdr t" "list_all (text_filter h hdr) (tfilters t)"
    and "uses_filter t \<Longrightarrow> filter_changed t \<or> filtered_data t \<noteq> None"
  shows "\<exists>t' ftd. apply_filter h hdr td t = Inr (t', ftd) \<and> text_rows hdr t' \<and> table_wf t'
    \<and> ids_ok (length (row_store t')) ftd \<and> list_all (\<lambda>p. known_type (snd p)) (tfilters t')"
proof -
  let ?fs = "map (\<lambda>(i, f). (i, f\<lparr>re := Some (case searchword f of None \<Rightarrow> ''(?:)'' | Some w \<Rightarrow> w, \<not> case_sensitive f)\<rparr>)) (tfilters t)"
  have ids: "r < length (row_store t)" if "r \<in> set td" for r
    using assms(1,2) that by (simp add: table_wf_def ids_ok_def list_all_iff)
  have pass: "\<exists>b. row_passes h (\<lambda>i. cell t r (header_at hdr i)) ?fs = Inr b" if "r \<in> set td" for r
  proof (rule row_passes_text)
    show "\<forall>(i, f) \<in> set ?fs. operator f = None \<and> (\<exists>s. cell t r (header_at hdr i) = Str s)"
      using assms(4) text_cell [OF assms(3) ids [OF that]] by (auto simp: list_all_iff text_filter_def)
  qed
  then obtain new where new: "js_filterM (\<lambda>r. row_passes h (\<lambda>i. cell t r (header_at hdr i)) ?fs) td = Inr new"
    using js_filterM_ex by meson
  consider (off) "\<not> uses_filter t" | (changed) "uses_filter t" "filter_changed t"
    | (kept) fd where "uses_filter t" "\<not> filter_changed t" "filtered_data t = Some fd"
    using assms(5) by blast
  then obtain t' ftd where t': "apply_filter h hdr td t = Inr (t', ftd)" "tfilters t' = tfilters t \<or> tfilters t' = ?fs"
    by cases (auto simp: apply_filter_def uses_filter_def prepare_filters_text [OF assms(4)] new)
  have "list_all (\<lambda>p. known_type (snd p)) (tfilters t')"
    using assms(4) t'(2) by (force simp: list_all_iff text_filter_def)
  with apply_filter_wf [OF assms(1,2) t'(1)] assms(3) t'(1) show ?thesis
    by (simp add: text_rows_def)
qed

lemma select_options_text:
  assumes "\<And>r. r \<in> set td \<Longrightarrow> is_Str (cell t r k)"
  shows "\<exists>ks. select_options t td k = Inr ks"
proof -
  have "\<exists>w. select_text (cell t r k) = Inr w" if "r \<in> set td" for r
    using assms [OF that] by (auto simp: select_text_def nullish_def is_Str_def)
  then obtain ws where "js_mapM (\<lambda>r. select_text (cell t r k)) td = Inr ws"
    using js_mapM_ex by meson
  then show ?thesis by (simp add: select_options_def)
qed

lemma header_cell_text:
  assumes "text_rows hdr t" "ids_ok (length (row_store t)) td" "i < length hdr"
    and "list_all (\<lambda>p. known_type (snd p)) (tfilters t)"
  shows "\<exists>t' cs' p'. header_cell h hdr td (t, cs, p) i = Inr (t', cs', p')
    \<and> list_all (\<lambda>p. known_type (snd p)) (tfilters t')"
proof (cases "invisible_columns t i")
  case True
  with assms show ?thesis by (simp add: header_cell_def)
next
  case False
  let ?P = "\<lambda>p :: nat \<times> tfilter. known_type (snd p)"
  have put: "list_all ?P fs \<Longrightarrow> ?P (i, f) \<Longrightarrow> list_all ?P (fput fs i f)" for fs f
    by (induction fs) auto
  obtain fs where fs: "detect_filter h hdr td t i = t\<lparr>tfilters := fs\<rparr>"
    using detect_filter_frame by blast
  have P: "list_all ?P fs"
  proof (cases "filter_autodetect t \<and> fget (tfilters t) i = None")
    case True
    then have "fs = tfilters (detect_filter h hdr td t i)" by (simp add: fs)
    with True show ?thesis using assms(4) put by (simp add: detect_filter_def Let_def known_type_def)
  next
    case False
    then have "tfilters t = fs" using fs by (metis detect_filter_def table.select_convs(9) table.surjective table.update_convs(9))
    with assms(4) show ?thesis by simp
  qed
  show ?thesis
  proof (cases "fget fs i")
    case None
    with False fs P show ?thesis by (simp add: header_cell_def Let_def)
  next
    case (Some f)
    have Pf: "?P (i, f)" using P map_of_SomeD [of fs i f] Some by (force simp: fget_def list_all_iff)
    let ?f1 = "f\<lparr>searchword := Some (case searchword f of None \<Rightarrow> [] | Some w \<Rightarrow> w)\<rparr>"
    have "is_Str (cell (t\<lparr>tfilters := fput fs i ?f1\<rparr>) r (header_at hdr i))" if "r \<in> set td" for r
      using text_cell [OF assms(1) _ assms(3), of r] assms(2) that by (auto simp: ids_ok_def list_all_iff is_Str_def)
    then obtain ks where "select_options (t\<lparr>tfilters := fput fs i ?f1\<rparr>) td (header_at hdr i) = Inr ks"
      using select_options_text by blast
    with Pf obtain e where "filter_element hdr td (t\<lparr>tfilters := fput fs i ?f1\<rparr>) i ?f1 = Inr (Some e)"
      by (auto simp: filter_element_def Let_def known_type_def)
    with False fs Some P Pf put show ?thesis by (simp add: header_cell_def Let_def)
  qed
qed

lemma header_cells_text:
  assumes "text_rows hdr t" "ids_ok (length (row_store t)) td"
    and "list_all (\<lambda>p. known_type (snd p)) (tfilters t)"
  shows "\<exists>t' cs. header_cells h hdr td t = Inr (t', cs)"
proof -
  have loop: "\<exists>s'. js_foldM (header_cell h hdr td) (t, cs, p) is = Inr s'"
    if "set is \<subseteq> {..<length hdr}" "text_rows hdr t" "ids_ok (length (row_store t)) td"
      "list_all (\<lambda>p. known_type (snd p)) (tfilters t)" for t cs p "is"
    using that
  proof (induction "is" arbitrary: t cs p)
    case (Cons i "is")
    then obtain t1 cs1 p1 where s: "header_cell h hdr td (t, cs, p) i = Inr (t1, cs1, p1)"
      and ft: "list_all (\<lambda>p. known_type (snd p)) (tfilters t1)"
      using header_cell_text [of hdr t td i h cs p] by auto
    have "row_store t1 = row_store t" using header_cell_frame [OF s] by auto
    then have "\<exists>s'. js_foldM (header_cell h hdr td) (t1, cs1, p1) is = Inr s'"
      using Cons.prems ft by (intro Cons.IH) (auto simp: text_rows_def)
    with s show ?case by simp
  qed simp
  have "\<exists>s'. js_foldM (header_cell h hdr td) (t, [], None) [0..<length hdr] = Inr s'"
    using assms by (intro loop) auto
  then show ?thesis by (auto simp: header_cells_def)
qed

lemma cmp_cells_text: "is_Str a \<Longrightarrow> is_Str b \<Longrightarrow> \<exists>r. cmp_cells st a b = Inr r"
  by (auto elim!: is_StrE simp: cmp_cells_def cmp_stripped_def has_replace_def nullish_def replace_tags_def)

lemma sort_rows_text:
  assumes "text_rows hdr t" "ids_ok (length (row_store t)) td" "sortcol t < length hdr"
  shows "\<exists>t' disp. sort_rows hdr fl td t = Inr (t', disp)"
proof -
  have "is_Str (cell t r (header_at hdr (sortcol t)))" if "r \<in> set td" for r
    using text_cell [OF assms(1) _ assms(3), of r] assms(2) that by (auto simp: ids_ok_def list_all_iff is_Str_def)
  then have "\<exists>n. row_cmp hdr t a b = Inr n" if "a \<in> set td" "b \<in> set td" for a b
    using that by (simp add: row_cmp_def Let_def cmp_cells_text)
  then have "\<exists>d. js_sortM (row_cmp hdr t) td = Inr d" by (rule js_sortM_ex)
  then show ?thesis by (auto simp: sort_rows_def)
qed

lemma detect_column_text:
  assumes "td = [] \<or> (\<exists>s. cell t (List.hd td) (header_at hdr i) = Str s)"
  shows "\<exists>st. detect_column hdr td t i = Inr (t\<lparr>sorttype := st\<rparr>)"
proof (cases "sorttype t i \<noteq> None \<and> sorttype t i \<noteq> Some []")
  case True
  then have "detect_column hdr td t i = Inr (t\<lparr>sorttype := sorttype t\<rparr>)" by (simp add: detect_column_def)
  then show ?thesis by blast
next
  case False
  have new: "\<exists>st. Inr (t\<lparr>sorttype := x\<rparr>) = (Inr (t\<lparr>sorttype := st\<rparr>) :: table js)" for x
    by (rule exI) (rule refl)
  show ?thesis
  proof (cases td)
    case Nil
    then show ?thesis unfolding detect_column_def by (simp only: if_not_P [OF False] list.case new)
  next
    case (Cons r rs)
    then obtain s where "cell t r (header_at hdr i) = Str s" using assms by auto
    with Cons have "detect_column hdr td t i = Inr (t\<lparr>sorttype := (sorttype t)(i := Some
      (if parseFloat (strip_tags s) = JNaN then ''string'' else ''number''))\<rparr>)"
      unfolding detect_column_def if_not_P [OF False]
      by (simp only: list.case) (simp only: has_replace_def nullish_def replace_tags_def jsval.distinct
          jsval.case jbind_simps if_False not_True_eq_False simp_thms)
    with new show ?thesis by (simp only:)
  qed
qed

lemma detect_sorttypes_text:
  assumes "text_rows hdr t" "ids_ok (length (row_store t)) td"
  shows "\<exists>t'. detect_sorttypes hdr td t = Inr t'"
proof -
  have loop: "\<exists>t'. js_foldM (detect_column hdr td) t is = Inr t'"
    if "set is \<subseteq> {..<length hdr}" "text_rows hdr t" "ids_ok (length (row_store t)) td" for t "is"
    using that
  proof (induction "is" arbitrary: t)
    case (Cons i "is")
    have "td = [] \<or> (\<exists>s. cell t (List.hd td) (header_at hdr i) = Str s)"
      using Cons.prems text_cell [of hdr t "List.hd td" i] by (cases td) (auto simp: ids_ok_def)
    then obtain st where st: "detect_column hdr td t i = Inr (t\<lparr>sorttype := st\<rparr>)"
      using detect_column_text by blast
    have "\<exists>t'. js_foldM (detect_column hdr td) (t\<lparr>sorttype := st\<rparr>) is = Inr t'"
      using Cons.prems by (intro Cons.IH) (auto simp: text_rows_def)
    with st show ?case by simp
  qed simp
  show ?thesis
  proof (cases "sort_autodetect t")
    case True
    then show ?thesis using loop [of "[0..<length hdr]" t] assms by (simp add: detect_sorttypes_def subset_eq)
  qed (simp add: detect_sorttypes_def)
qed

lemma render_table_returns:
  assumes "table_wf t" "header t = Some hdr" "tdata t = Some td" "text_rows hdr t"
    and "list_all (text_filter h hdr) (tfilters t)" "sortcol t < length hdr"
    and "uses_filter t \<Longrightarrow> filter_changed t \<or> filtered_data t \<noteq> None"
  shows "\<exists>t' v. render_table h t = Inr (t', v)"
proof -
  let ?t0 = "split_raw (init_callback t)"
  have s12: "init_header ?t0 = Inr (?t0, hdr)" "parse_data hdr ?t0 = Inr (?t0, td)"
    using assms(2,3) by (simp_all add: init_header_def parse_data_def)
  have ids: "ids_ok (length (row_store t)) td" using assms(1,3) by (simp add: table_wf_def)
  then obtain t3 where s3: "detect_sorttypes hdr td ?t0 = Inr t3"
    using detect_sorttypes_text [of hdr ?t0 td] assms(4) by (auto simp: text_rows_def)
  then obtain st where t3: "t3 = ?t0\<lparr>sorttype := st\<rparr>" using detect_sorttypes_frame by blast
  have w3: "table_wf t3" using detect_sorttypes_wf [OF init_wf [OF assms(1)] s3] by blast
  obtain t4 ftd where s4: "apply_filter h hdr td t3 = Inr (t4, ftd)" "text_rows hdr t4" "ids_ok (length (row_store t4)) ftd"
    "list_all (\<lambda>p. known_type (snd p)) (tfilters t4)"
    using apply_filter_text [OF w3, of td hdr h] assms(3,4,5,7) by (auto simp: t3 text_rows_def uses_filter_def)
  obtain t5 cs where s5: "header_cells h hdr ftd t4 = Inr (t5, cs)" using header_cells_text s4(2,3,4) by blast
  have f5: "row_store t5 = row_store t4" "sortcol t5 = sortcol t"
    using header_cells_frame [OF s5] apply_filter_frame [OF s4(1)] by (auto simp: t3)
  have "text_rows hdr t5" "ids_ok (length (row_store t5)) ftd" "sortcol t5 < length hdr"
    using s4(2,3) assms(6) by (simp_all add: f5 text_rows_def)
  then obtain t6 disp where s6: "sort_rows hdr (uses_filter t3) ftd t5 = Inr (t6, disp)"
    using sort_rows_text by blast
  show ?thesis
    by (simp add: render_table_def s12 s3 s4(1) s5 s6)
qed

end
