(* ===== verification/Table_Nav.thy ===== *)
theory Table_Nav
  imports Table_Correct
begin

text \<open>
  The event handlers of the table renderer and its asynchronous \<^verbatim>\<open>update\<close>, over a page that holds
  every table instance. The variable \<^verbatim>\<open>renderer\<close> of the source file is shared by all
  instances and names the one rendered last: handlers that ask \<^verbatim>\<open>renderer.settings\<close> for the
  navigation callback ask that instance (\<^verbatim>\<open>cur\<close>), while they write to the instance whose
  element fired. Requests and calls into the embedding page are recorded in \<^verbatim>\<open>log\<close>.
\<close>

datatype nav_query = QueryDefault string | QueryList "query list"

record nav_obj =
  p_sort :: "string option"
  p_dir :: "string option"
  p_query :: "nav_query option"
  p_clear :: bool
  p_goto :: "jsint option"
  p_limit :: jsint

datatype nav = NavStr string | NavObj nav_obj

definition no_params :: nav_obj where
  "no_params = \<lparr>p_sort = None, p_dir = None, p_query = None, p_clear = False, p_goto = None, p_limit = None\<rparr>"

datatype effect = Ajax string nat | NavCall nav nat | EditCall nat
  | ClickCall nat "string list" string jsint nat

record tpage =
  tables :: "table list"
  views :: "view option list"
  cur :: nat
  log :: "effect list"

definition tbl_at :: "tpage \<Rightarrow> nat \<Rightarrow> table js" where
  "tbl_at p k = (if k < length (tables p) then ok (tables p ! k) else throw TypeError)"

definition set_tbl :: "tpage \<Rightarrow> nat \<Rightarrow> table \<Rightarrow> tpage" where
  "set_tbl p k t = p\<lparr>tables := (tables p)[k := t]\<rparr>"

definition emit :: "tpage \<Rightarrow> effect \<Rightarrow> tpage" where
  "emit p e = p\<lparr>log := log p @ [e]\<rparr>"

definition render :: "host \<Rightarrow> nat \<Rightarrow> tpage \<Rightarrow> tpage js" where
  "render h k p =
     jbind (tbl_at p k) (\<lambda>t. jbind (render_table h t) (\<lambda>(t', v).
       ok (p\<lparr>tables := (tables p)[k := t'], views := (views p)[k := Some v], cur := k\<rparr>)))"

section \<open>update: asynchronous tables\<close>

definition clamp0 :: "jsint \<Rightarrow> jsint" where
  "clamp0 a = (if i_less a (Some 0) then Some 0 else a)"

definition update_string :: "string \<Rightarrow> table \<Rightarrow> table" where
  "update_string s t =
     (let t1 = (if s = ''first'' then t\<lparr>offset := Some 0\<rparr> else t);
          t2 = (if s = ''previous'' then t1\<lparr>offset := clamp0 (i_sub (offset t1) (rows_per_page t1))\<rparr> else t1);
          t3 = (if s = ''next'' then t2\<lparr>offset := i_add (offset t2) (rows_per_page t2)\<rparr> else t2)
      in if s = ''last'' then t3\<lparr>offset := clamp0 (i_sub (numrows t3) (rows_per_page t3))\<rparr> else t3)"

definition map_column :: "table \<Rightarrow> jsval \<Rightarrow> jsval" where
  "map_column t f =
     (case asynch_column_mapping t of None \<Rightarrow> f
      | Some m \<Rightarrow> (case oget m (to_string f) of None \<Rightarrow> Undef | Some g \<Rightarrow> Str g))"

definition array_props :: "'a list \<Rightarrow> 'a props" where
  "array_props xs = map (\<lambda>i. (nat_to_string i, xs ! i)) [0..<length xs]"

definition update_sort :: "nav_obj \<Rightarrow> table \<Rightarrow> table" where
  "update_sort o' t =
     (case p_sort o' of None \<Rightarrow> t
      | Some s \<Rightarrow>
          if s = [] then t
          else if s = ''default'' then t\<lparr>sort_field := Some (Str ''name''), sort_direction := Some ''asc''\<rparr>
          else t\<lparr>sort_field := Some (map_column t (Str s)), sort_direction := p_dir o'\<rparr>)"

definition update_query :: "nav_obj \<Rightarrow> table \<Rightarrow> table" where
  "update_query o' t =
     (case p_query o' of None \<Rightarrow> t
      | Some (QueryDefault s) \<Rightarrow> if s = [] then t else t\<lparr>tquery := []\<rparr>
      | Some (QueryList qs) \<Rightarrow> t\<lparr>tquery := array_props (map (\<lambda>q. q\<lparr>q_field := map_column t (q_field q)\<rparr>) qs)\<rparr>)"

definition update_params :: "nav \<Rightarrow> table \<Rightarrow> table" where
  "update_params n t =
     (case n of NavStr s \<Rightarrow> update_string s t
      | NavObj o' \<Rightarrow>
          (let t1 = update_query o' (update_sort o' t);
               t2 = (case p_goto o' of None \<Rightarrow> t1 | Some g \<Rightarrow> t1\<lparr>offset := g\<rparr>)
           in if i_truthy (p_limit o') then t2\<lparr>rows_per_page := p_limit o'\<rparr> else t2))"

definition query_part :: "string \<Rightarrow> query \<Rightarrow> string" where
  "query_part qt q =
     (if qt = ''infix'' then to_string (q_field q) @ ''=*'' @ q_searchword q @ ''*''
      else to_string (q_field q) @ ''='' @ q_searchword q)"

definition add_query :: "string \<Rightarrow> string \<Rightarrow> query \<Rightarrow> string" where
  "add_query qt acc q =
     (if q_searchword q \<noteq> [] then acc @ (if has_qmark acc then ''&'' else ''?'') @ query_part qt q else acc)"

definition query_values :: "query props \<Rightarrow> query list" where
  "query_values qs = List.map_filter (oget qs) (okeys qs)"

definition query_string :: "string \<Rightarrow> query list \<Rightarrow> string" where
  "query_string qt qs = foldl (add_query qt) [] qs"

definition join_url :: "string \<Rightarrow> string \<Rightarrow> string" where
  "join_url base q = base @ (if has_qmark base \<and> has_qmark q then replace_qmark q else q)"

definition update_url :: "table \<Rightarrow> string js" where
  "update_url t =
     (case navigation_url t of None \<Rightarrow> throw TypeError
      | Some base \<Rightarrow>
          (let url = join_url base (query_string (query_type t) (query_values (tquery t)));
               url1 = url @ (if has_qmark url then ''&'' else ''?'') @ ''limit='' @ jsint_to_string (rows_per_page t)
                      @ ''&offset='' @ jsint_to_string (offset t);
               url2 = (case sort_field t of None \<Rightarrow> url1
                       | Some f \<Rightarrow> if truthy f then url1 @ ''&order='' @ to_string f else url1)
           in ok (case sort_direction t of None \<Rightarrow> url2
                  | Some d \<Rightarrow> if d = [] then url2 else url2 @ ''&direction='' @ d)))"

definition update :: "nav \<Rightarrow> nat \<Rightarrow> tpage \<Rightarrow> tpage js" where
  "update n k p =
     jbind (tbl_at p k) (\<lambda>t.
       let t' = update_params n t
       in jbind (update_url t') (\<lambda>url. ok (emit ((set_tbl p k t')\<lparr>cur := k\<rparr>) (Ajax url k))))"

text \<open>The response: the rows it carries (after the table's data manipulation) and its total.\<close>

definition update_success :: "host \<Rightarrow> nat \<Rightarrow> row list \<Rightarrow> jsint \<Rightarrow> tpage \<Rightarrow> tpage js" where
  "update_success h k rows tot p =
     jbind (tbl_at p k) (\<lambda>t.
       let n = length (row_store t)
       in render h k (set_tbl p k (t\<lparr>row_store := row_store t @ rows, tdata := Some [n..<n + length rows],
            filter_changed := False, is_sorted := True, numrows := tot\<rparr>)))"

text \<open>\<^verbatim>\<open>settings.navigation_callback(params, index)\<close> for the callback of instance \<^verbatim>\<open>c\<close>.\<close>

definition call_nav :: "nav_callback \<Rightarrow> nav \<Rightarrow> nat \<Rightarrow> tpage \<Rightarrow> tpage js" where
  "call_nav c n k p =
     (case c of NoCallback \<Rightarrow> throw TypeError | UpdateCallback \<Rightarrow> update n k p
      | UserCallback \<Rightarrow> ok (emit p (NavCall n k)))"

definition shared_callback :: "tpage \<Rightarrow> nav_callback" where
  "shared_callback p = (if cur p < length (tables p) then navigation_callback (tables p ! cur p) else NoCallback)"

section \<open>Paging\<close>

definition next_offset :: "jsint \<Rightarrow> int \<Rightarrow> jsint \<Rightarrow> jsint" where
  "next_offset rows tlen off =
     (let o1 = i_add off rows
      in if i_less (Some (tlen - 1)) o1 then clamp0 (i_sub (Some tlen) rows) else o1)"

definition prev_offset :: "jsint \<Rightarrow> jsint \<Rightarrow> jsint" where
  "prev_offset rows off = clamp0 (i_sub off rows)"

definition last_offset :: "jsint \<Rightarrow> int \<Rightarrow> jsint" where
  "last_offset rows tlen = clamp0 (i_sub (Some tlen) rows)"

definition goto_offset :: "jsint \<Rightarrow> string \<Rightarrow> jsint" where
  "goto_offset rows s =
     (let o1 = clamp0 (i_sub (parseInt s) (Some 1)) in if i_less rows o1 then rows else o1)"

definition with_view :: "nat \<Rightarrow> tpage \<Rightarrow> (table \<Rightarrow> view \<Rightarrow> 'a js) \<Rightarrow> 'a js" where
  "with_view k p f =
     jbind (tbl_at p k) (\<lambda>t.
       if k < length (views p) then (case views p ! k of Some v \<Rightarrow> f t v | None \<Rightarrow> throw TypeError)
       else throw TypeError)"

definition page_click :: "host \<Rightarrow> string \<Rightarrow> (view \<Rightarrow> jsint \<Rightarrow> jsint) \<Rightarrow> nat \<Rightarrow> tpage \<Rightarrow> tpage js" where
  "page_click h name f k p =
     with_view k p (\<lambda>t v.
       if v_nav_callback v then call_nav (navigation_callback t) (NavStr name) k p
       else render h k (set_tbl p k (t\<lparr>offset := f v (offset t)\<rparr>)))"

definition first_click :: "host \<Rightarrow> nat \<Rightarrow> tpage \<Rightarrow> tpage js" where
  "first_click h = page_click h ''first'' (\<lambda>v off. Some 0)"

definition prev_click :: "host \<Rightarrow> nat \<Rightarrow> tpage \<Rightarrow> tpage js" where
  "prev_click h = page_click h ''previous'' (\<lambda>v off. prev_offset (v_rows v) off)"

definition next_click :: "host \<Rightarrow> nat \<Rightarrow> tpage \<Rightarrow> tpage js" where
  "next_click h = page_click h ''next'' (\<lambda>v off. next_offset (v_rows v) (v_tlen v) off)"

definition last_click :: "host \<Rightarrow> nat \<Rightarrow> tpage \<Rightarrow> tpage js" where
  "last_click h = page_click h ''last'' (\<lambda>v off. last_offset (v_rows v) (v_tlen v))"

text \<open>The handlers of the options line ask the shared \<^verbatim>\<open>renderer\<close> variable for the callback.\<close>

definition via_callback :: "host \<Rightarrow> nav \<Rightarrow> (table \<Rightarrow> table) \<Rightarrow> nat \<Rightarrow> tpage \<Rightarrow> tpage js" where
  "via_callback h n f k p =
     (if shared_callback p \<noteq> NoCallback then call_nav (shared_callback p) n k p
      else jbind (tbl_at p k) (\<lambda>t. render h k (set_tbl p k (f t))))"

definition goto_enter :: "host \<Rightarrow> string \<Rightarrow> nat \<Rightarrow> tpage \<Rightarrow> tpage js" where
  "goto_enter h s k p =
     with_view k p (\<lambda>_ v.
       via_callback h (NavObj (no_params\<lparr>p_goto := Some (i_sub (parseInt s) (Some 1))\<rparr>))
         (\<lambda>t. t\<lparr>offset := goto_offset (v_rows v) s\<rparr>) k p)"

definition perpage_enter :: "host \<Rightarrow> string \<Rightarrow> nat \<Rightarrow> tpage \<Rightarrow> tpage js" where
  "perpage_enter h s k p =
     via_callback h (NavObj (no_params\<lparr>p_limit := parseInt s\<rparr>))
       (\<lambda>t. t\<lparr>offset := Some 0, rows_per_page := parseInt s\<rparr>) k p"

section \<open>Sorting, filtering, columns\<close>

definition sort_click :: "host \<Rightarrow> string \<Rightarrow> nat \<Rightarrow> nat \<Rightarrow> tpage \<Rightarrow> tpage js" where
  "sort_click h dir i k p =
     jbind (tbl_at p k) (\<lambda>t.
       let t1 = t\<lparr>sortcol := i, sortdir := dir\<rparr>;
           name = (case header t of None \<Rightarrow> None | Some hdr \<Rightarrow> if i < length hdr then Some (hdr ! i) else None)
       in via_callback h (NavObj (no_params\<lparr>p_sort := name, p_dir := Some dir\<rparr>))
            (\<lambda>t. t\<lparr>is_sorted := False\<rparr>) k (set_tbl p k t1))"

definition set_searchword :: "nat \<Rightarrow> string \<Rightarrow> table \<Rightarrow> table js" where
  "set_searchword i w t =
     (case fget (tfilters t) i of None \<Rightarrow> throw TypeError
      | Some f \<Rightarrow> ok (t\<lparr>tfilters := fput (tfilters t) i (f\<lparr>searchword := Some w\<rparr>)\<rparr>))"

definition filter_query :: "table \<Rightarrow> query list" where
  "filter_query t =
     List.map_filter (\<lambda>(i, f).
       if filter_active f
       then Some \<lparr>q_searchword = (case searchword f of None \<Rightarrow> [] | Some w \<Rightarrow> w),
                  q_field = (case header t of None \<Rightarrow> Undef
                             | Some hdr \<Rightarrow> if i < length hdr then Str (hdr ! i) else Undef),
                  q_comparison = operator f\<rparr>
       else None) (tfilters t)"

definition filter_enter :: "host \<Rightarrow> nat \<Rightarrow> string \<Rightarrow> nat \<Rightarrow> tpage \<Rightarrow> tpage js" where
  "filter_enter h i w k p =
     jbind (tbl_at p k) (\<lambda>t. jbind (set_searchword i w t) (\<lambda>t1.
       via_callback h (NavObj (no_params\<lparr>p_query := Some (QueryList (filter_query t1))\<rparr>))
         (\<lambda>t. t\<lparr>filter_changed := True\<rparr>) k (set_tbl p k t1)))"

definition select_change :: "host \<Rightarrow> nat \<Rightarrow> string \<Rightarrow> nat \<Rightarrow> tpage \<Rightarrow> tpage js" where
  "select_change h i w k p =
     jbind (tbl_at p k) (\<lambda>t. jbind (set_searchword i w t) (\<lambda>t1.
       render h k (set_tbl p k (t1\<lparr>filter_changed := True\<rparr>))))"

definition clear_filters :: "table \<Rightarrow> table" where
  "clear_filters t = t\<lparr>tfilters := map (\<lambda>(i, f). (i, f\<lparr>searchword := Some []\<rparr>)) (tfilters t)\<rparr>"

definition clear_click :: "host \<Rightarrow> nat \<Rightarrow> tpage \<Rightarrow> tpage js" where
  "clear_click h k p =
     jbind (tbl_at p k) (\<lambda>t.
       via_callback h (NavObj (no_params\<lparr>p_goto := Some (Some 0), p_query := Some (QueryDefault ''default''),
           p_sort := Some ''default''\<rparr>)) (\<lambda>t. t\<lparr>is_sorted := False\<rparr>) k (set_tbl p k (clear_filters t)))"

definition update_visible_columns :: "host \<Rightarrow> bool list \<Rightarrow> nat \<Rightarrow> tpage \<Rightarrow> tpage js" where
  "update_visible_columns h checked k p =
     jbind (tbl_at p k) (\<lambda>t.
       render h k (set_tbl p k (t\<lparr>invisible_columns := (\<lambda>i. i < length checked \<and> \<not> checked ! i)\<rparr>)))"

text \<open>The click on the operator switch: one pass over the operator labels, of which the visible
  one gives way to its successor. The loop index skips the label it has just shown.\<close>

function op_cycle :: "nat \<Rightarrow> bool list \<Rightarrow> nat option \<Rightarrow> bool list \<times> nat option" where
  "op_cycle x ds act =
     (if x < length ds
      then if ds ! x
           then if x = length ds - 1 then op_cycle (x + 1) ((ds[x := False])[0 := True]) (Some 0)
                else op_cycle (x + 2) ((ds[x := False])[x + 1 := True]) (Some (x + 1))
           else op_cycle (x + 1) ds act
      else (ds, act))"
  by pat_completeness auto
termination
  by (relation "measure (\<lambda>(x, ds, act). length ds - x)") auto

declare op_cycle.simps [simp del]

definition op_click :: "nat \<Rightarrow> bool list \<Rightarrow> table \<Rightarrow> (bool list \<times> table) js" where
  "op_click i ds t =
     (case fget (tfilters t) i of None \<Rightarrow> throw TypeError
      | Some f \<Rightarrow>
          (let (ds', act) = op_cycle 0 ds (active_operator f)
           in ok (ds', t\<lparr>tfilters := fput (tfilters t) i (f\<lparr>active_operator := act\<rparr>)\<rparr>)))"

section \<open>Cells\<close>

text \<open>The position of a clicked cell: the row of the page plus the offset, and the position of the
  cell among the cells of its row.\<close>

definition clicked_row_index :: "view \<Rightarrow> nat \<Rightarrow> jsint" where
  "clicked_row_index v y = i_add (Some (int y)) (v_offset v)"

definition edit_target :: "table \<Rightarrow> view \<Rightarrow> nat \<Rightarrow> nat js" where
  "edit_target t v y =
     (case clicked_row_index v y of
        Some n \<Rightarrow> (case tdata t of
           Some td \<Rightarrow> if 0 \<le> n \<and> nat n < length td then ok (td ! nat n) else throw TypeError
         | None \<Rightarrow> throw TypeError)
      | None \<Rightarrow> throw TypeError)"

text \<open>What the input field is opened with, and the commit with the Enter key.\<close>

definition edit_open :: "nat \<Rightarrow> nat \<Rightarrow> nat \<Rightarrow> tpage \<Rightarrow> string js" where
  "edit_open y x k p =
     with_view k p (\<lambda>t v. jbind (edit_target t v y) (\<lambda>r. ok (to_string (cell t r (header_at (v_columns v) x)))))"

definition write_cell :: "table \<Rightarrow> nat \<Rightarrow> string \<Rightarrow> jsval \<Rightarrow> table" where
  "write_cell t r k v = t\<lparr>row_store := (row_store t)[r := oput (row_store t ! r) k v]\<rparr>"

definition edit_enter :: "host \<Rightarrow> nat \<Rightarrow> nat \<Rightarrow> string \<Rightarrow> nat \<Rightarrow> tpage \<Rightarrow> tpage js" where
  "edit_enter h y x s k p =
     with_view k p (\<lambda>t v. jbind (edit_target t v y) (\<lambda>r.
       let p1 = set_tbl p k (write_cell t r (header_at (v_columns v) x) (Str s))
       in render h k (if has_edit_callback t then emit p1 (EditCall k) else p1)))"

definition cell_click :: "nat \<Rightarrow> nat \<Rightarrow> nat \<Rightarrow> tpage \<Rightarrow> tpage js" where
  "cell_click y x k p =
     with_view k p (\<lambda>t v.
       if y < length (v_body v) \<and> x < length (v_body v ! y) \<and> v_clickable v
       then ok (emit p (ClickCall k (v_body v ! y) (v_body v ! y ! x) (clicked_row_index v y) x))
       else ok p)"

end
