(* ===== verification/Table_Nav_Correct.thy ===== *)
theory Table_Nav_Correct
  imports Table_Nav
begin

text \<open>
  Browsing: what a table shows after a navigation event, that the page buttons walk over all rows,
  and the operator switch.
\<close>

section \<open>Filters are stable under rendering\<close>

lemma filter_present_fput:
  assumes "sorted_wrt (<) (map fst fs)"
    and "case fget fs i of None \<Rightarrow> \<not> filter_active f | Some g \<Rightarrow> filter_active f = filter_active g"
  shows "filter_present (fput fs i f) = filter_present fs"
  using assms
proof (induction fs)
  case (Cons p fs)
  obtain j g where p: "p = (j, g)" by (cases p)
  consider "i < j" | "i = j" | "j < i" by linarith
  then show ?case
  proof cases
    case 1
    with Cons.prems p have "fget ((j, g) # fs) i = None"
      by (auto simp: fget_def map_of_eq_None_iff)
    with 1 Cons.prems p show ?thesis by (simp add: filter_present_def)
  next
    case 2
    with Cons.prems p show ?thesis by (simp add: filter_present_def fget_def)
  next
    case 3
    with Cons p show ?thesis by (simp add: filter_present_def fget_def)
  qed
qed (simp add: filter_present_def fget_def)

lemma filter_active_default:
  "filter_active (f\<lparr>searchword := Some (case searchword f of None \<Rightarrow> [] | Some w \<Rightarrow> w)\<rparr>) = filter_active f"
  by (simp add: filter_active_def split: option.split)

lemma detect_filter_present:
  assumes "sorted_wrt (<) (map fst (tfilters t))"
  shows "filter_present (tfilters (detect_filter h hdr td t i)) = filter_present (tfilters t)"
proof (cases "filter_autodetect t \<and> fget (tfilters t) i = None")
  case True
  then obtain f where "detect_filter h hdr td t i = t\<lparr>tfilters := fput (tfilters t) i f\<rparr>" "\<not> filter_active f"
    by (simp add: detect_filter_def Let_def filter_active_def)
  with True filter_present_fput [OF assms] show ?thesis by simp
next
  case False
  then have "detect_filter h hdr td t i = t" unfolding detect_filter_def by (rule if_not_P)
  then show ?thesis by simp
qed

lemma header_cell_present:
  assumes "header_cell h hdr td (t, cs, p) i = Inr (t', cs', p')" "sorted_wrt (<) (map fst (tfilters t))"
  shows "filter_present (tfilters t') = filter_present (tfilters t)"
proof (cases "invisible_columns t i")
  case True
  with assms show ?thesis by (simp add: header_cell_def)
next
  case False
  obtain fs where fs: "detect_filter h hdr td t i = t\<lparr>tfilters := fs\<rparr>" and so: "sorted_wrt (<) (map fst fs)"
    using detect_filter_frame assms(2) by blast
  have pr: "filter_present fs = filter_present (tfilters t)"
    using detect_filter_present [OF assms(2), of h hdr td i] by (simp add: fs)
  show ?thesis
  proof (cases "fget fs i")
    case None
    with assms(1) False fs have "t' = t\<lparr>tfilters := fs\<rparr>" by (simp add: header_cell_def Let_def)
    with pr show ?thesis by simp
  next
    case (Some f)
    let ?f1 = "f\<lparr>searchword := Some (case searchword f of None \<Rightarrow> [] | Some w \<Rightarrow> w)\<rparr>"
    have "t' = t\<lparr>tfilters := fput fs i ?f1\<rparr>"
      using assms(1) False fs Some by (auto simp: header_cell_def Let_def jbind_Inr_iff split: option.splits)
    moreover have "filter_present (fput fs i ?f1) = filter_present fs"
      using filter_present_fput [OF so, where i = i and f = ?f1] Some by (simp add: filter_active_default)
    ultimately show ?thesis using pr by simp
  qed
qed

lemma header_cells_present:
  assumes "header_cells h hdr td t = Inr (t', cells)" "sorted_wrt (<) (map fst (tfilters t))"
  shows "filter_present (tfilters t') = filter_present (tfilters t)"
proof -
  have "js_foldM (header_cell h hdr td) (t, cs, p) is = Inr (t', cs', p') \<Longrightarrow> sorted_wrt (<) (map fst (tfilters t)) \<Longrightarrow>
    filter_present (tfilters t') = filter_present (tfilters t)" for t cs p "is" t' cs' p'
  proof (induction "is" arbitrary: t cs p)
    case (Cons i "is")
    then obtain t1 cs1 p1 where s: "header_cell h hdr td (t, cs, p) i = Inr (t1, cs1, p1)"
      and r: "js_foldM (header_cell h hdr td) (t1, cs1, p1) is = Inr (t', cs', p')"
      by (auto simp: jbind_Inr_iff)
    have "sorted_wrt (<) (map fst (tfilters t1))" using header_cell_frame [OF s] Cons.prems(2) by auto
    with Cons.IH [OF r] header_cell_present [OF s Cons.prems(2)] show ?case by simp
  qed simp
  with assms show ?thesis by (fastforce simp: header_cells_def jbind_Inr_iff)
qed

section \<open>A settled table\<close>

text \<open>The rows a table displays, over all its pages.\<close>

definition display_list :: "table \<Rightarrow> nat list" where
  "display_list t =
     (case (if uses_filter t then filtered_data t else tdata t) of None \<Rightarrow> [] | Some d \<Rightarrow> d)"

text \<open>A synchronous table of texts that has been rendered: parsed, sorted, its filter applied.\<close>

definition settled :: "host \<Rightarrow> string list \<Rightarrow> table \<Rightarrow> bool" where
  "settled h hdr t \<longleftrightarrow>
     table_wf t \<and> header t = Some hdr \<and> tdata t \<noteq> None \<and> text_rows hdr t
     \<and> list_all (text_filter h hdr) (tfilters t) \<and> sortcol t < length hdr
     \<and> is_sorted t \<and> synchronous t \<and> \<not> i_truthy (numrows t)
     \<and> navigation_callback t = NoCallback \<and> navigation_url t = None \<and> filter_autodetect t = False
     \<and> (uses_filter t \<longrightarrow> \<not> filter_changed t \<and> filtered_data t \<noteq> None)"

text \<open>A synchronous table of texts whose rows are parsed and not sorted yet.\<close>

definition fresh :: "host \<Rightarrow> string list \<Rightarrow> nat list \<Rightarrow> table \<Rightarrow> bool" where
  "fresh h hdr td t \<longleftrightarrow>
     table_wf t \<and> header t = Some hdr \<and> tdata t = Some td \<and> text_rows hdr t
     \<and> list_all (text_filter h hdr) (tfilters t) \<and> sortcol t < length hdr
     \<and> \<not> is_sorted t \<and> synchronous t \<and> \<not> i_truthy (numrows t)
     \<and> navigation_callback t = NoCallback \<and> navigation_url t = None \<and> filter_autodetect t = False
     \<and> (uses_filter t \<longrightarrow> filter_changed t)"

lemma header_cell_text_filters:
  assumes "header_cell h hdr td (t, cs, p) i = Inr (t', cs', p')" "i < length hdr" "\<not> filter_autodetect t"
    and "list_all (text_filter h hdr) (tfilters t)" "re_ok h []"
  shows "list_all (text_filter h hdr) (tfilters t')"
proof (cases "fget (tfilters t) i = None \<or> invisible_columns t i")
  case True
  then have "t' = t"
    using assms(1,3) by (cases "invisible_columns t i") (simp_all add: header_cell_def detect_filter_def Let_def)
  with assms(4) show ?thesis by simp
next
  case False
  then obtain f where f: "fget (tfilters t) i = Some f" by auto
  let ?f1 = "f\<lparr>searchword := Some (case searchword f of None \<Rightarrow> [] | Some w \<Rightarrow> w)\<rparr>"
  have "t' = t\<lparr>tfilters := fput (tfilters t) i ?f1\<rparr>"
    using assms(1,3) False f
    by (auto simp: header_cell_def detect_filter_def Let_def jbind_Inr_iff split: option.splits)
  moreover have "text_filter h hdr (i, f)"
    using f assms(4) map_of_SomeD [of "tfilters t" i f] by (simp add: fget_def list_all_iff)
  then have "text_filter h hdr (i, ?f1)"
    using assms(5) by (auto simp: text_filter_def split: option.splits)
  moreover have "list_all (text_filter h hdr) fs \<Longrightarrow> text_filter h hdr (i, g) \<Longrightarrow> list_all (text_filter h hdr) (fput fs i g)" for fs g
    by (induction fs) auto
  ultimately show ?thesis using assms(4) by simp
qed

lemma header_cells_text_filters:
  assumes "header_cells h hdr td t = Inr (t', cs)" "\<not> filter_autodetect t"
    and "list_all (text_filter h hdr) (tfilters t)" "re_ok h []"
  shows "list_all (text_filter h hdr) (tfilters t')"
proof -
  have "js_foldM (header_cell h hdr td) (t, cs, p) is = Inr (t', cs', p') \<Longrightarrow> set is \<subseteq> {..<length hdr} \<Longrightarrow>
     \<not> filter_autodetect t \<Longrightarrow> list_all (text_filter h hdr) (tfilters t) \<Longrightarrow>
     list_all (text_filter h hdr) (tfilters t')" for t cs p "is" t' cs' p'
  proof (induction "is" arbitrary: t cs p)
    case (Cons i "is")
    then obtain t1 cs1 p1 where s: "header_cell h hdr td (t, cs, p) i = Inr (t1, cs1, p1)"
      and r: "js_foldM (header_cell h hdr td) (t1, cs1, p1) is = Inr (t', cs', p')"
      by (auto simp: jbind_Inr_iff)
    have "\<not> filter_autodetect t1" using header_cell_frame [OF s] Cons.prems(3) by auto
    moreover have "list_all (text_filter h hdr) (tfilters t1)"
      using header_cell_text_filters [OF s] Cons.prems assms(4) by simp
    ultimately show ?case using Cons.IH [OF r] Cons.prems(2) by simp
  qed simp
  moreover obtain cs' p' where "js_foldM (header_cell h hdr td) (t, [], None) [0..<length hdr] = Inr (t', cs', p')"
    using assms(1) by (auto simp: header_cells_def jbind_Inr_iff)
  ultimately show ?thesis using assms(2,3) by (auto simp: subset_eq)
qed

lemma detect_split:
  assumes "detect_sorttypes hdr td (split_raw t) = Inr t3"
  shows "\<exists>dt st. t3 = t\<lparr>data := dt, sorttype := st\<rparr>"
proof -
  have "split_raw t = t\<lparr>data := data (split_raw t)\<rparr>"
    by (simp add: split_raw_def split: data_src.split list.split)
  moreover obtain st where "t3 = split_raw t\<lparr>sorttype := st\<rparr>"
    using detect_sorttypes_frame [OF assms] by auto
  ultimately have "t3 = t\<lparr>data := data (split_raw t), sorttype := st\<rparr>" by (metis (no_types))
  then show ?thesis by (intro exI)
qed

text \<open>Rendering a settled table again changes neither its rows nor their order: it cuts the page at
  the current offset out of the display list.\<close>

lemma render_settled:
  assumes "settled h hdr t" "re_ok h []"
  shows "\<exists>t' v. render_table h t = Inr (t', v) \<and> settled h hdr t' \<and> display_list t' = display_list t
    \<and> offset t' = offset t \<and> rows_per_page t' = rows_per_page t
    \<and> v_rows v = page_rows (display_list t) t \<and> v_tlen v = int (length (display_list t))
    \<and> v_shown v = js_slice (offset t) (i_add (offset t) (v_rows v)) (display_list t)
    \<and> v_next v = i_less (i_add (offset t) (v_rows v)) (Some (int (length (display_list t))))
    \<and> \<not> v_nav_callback v \<and> v_offset v = offset t \<and> v_columns v = hdr"
proof -
  note d = assms(1) [unfolded settled_def]
  obtain td where td: "tdata t = Some td" using d by blast
  obtain t' v where r: "render_table h t = Inr (t', v)"
    using render_table_returns [of t hdr td h] d td by blast
  obtain t1 hdr' t2 td' t3 t4 ftd t5 cells disp where s:
    "init_header (split_raw (init_callback t)) = Inr (t1, hdr')" "parse_data hdr' t1 = Inr (t2, td')"
    "detect_sorttypes hdr' td' t2 = Inr t3" "apply_filter h hdr' td' t3 = Inr (t4, ftd)"
    "header_cells h hdr' ftd t4 = Inr (t5, cells)" "sort_rows hdr' (uses_filter t3) ftd t5 = Inr (t', disp)"
    "v = mk_view hdr' ftd cells disp t'"
    using render_table_stages [OF r] by metis
  have t0: "init_callback t = t" using d by (simp add: init_callback_def)
  have e: "t1 = split_raw t" "hdr' = hdr" "t2 = split_raw t" "td' = td"
    using s(1,2) d td t0 init_fields(1,2) [of t] by (auto simp: init_header_def parse_data_def)
  obtain dt st where t3: "t3 = t\<lparr>data := dt, sorttype := st\<rparr>"
    using detect_split [OF s(3) [unfolded e(3)]] by blast
  have uf: "uses_filter t3 = uses_filter t" by (simp add: uses_filter_def t3)
  have t4: "t4 = t3 \<and> ftd = display_list t"
    using s(4) d td uf by (auto simp: apply_filter_def uses_filter_def display_list_def t3 e split: if_splits option.splits)
  obtain fs where t5: "t5 = t3\<lparr>tfilters := fs\<rparr>" using header_cells_frame s(5) t4 by blast
  have so: "sorted_wrt (<) (map fst (tfilters t3))" using d by (simp add: t3 table_wf_def)
  have pf: "filter_present fs = filter_present (tfilters t)"
    using header_cells_present [OF s(5)] so t4 by (simp add: t5 t3)
  have tf: "list_all (text_filter h hdr) fs"
    using header_cells_text_filters [OF s(5) [unfolded e]] d assms(2) t4 by (simp add: t5 t3)
  have t': "t' = t5" "disp = ftd" using s(6) d by (auto simp: sort_rows_def t5 t3)
  have "table_wf t'" using render_table_wf [OF _ r] d by blast
  moreover have "uses_filter t' = uses_filter t" by (simp add: uses_filter_def t' t5 t3 pf)
  ultimately have "settled h hdr t'" "display_list t' = display_list t"
    using d tf by (auto simp: settled_def display_list_def text_rows_def t' t5 t3)
  moreover have "page_rows ftd t' = page_rows (display_list t) t" by (simp add: page_rows_def t' t5 t3 t4)
  moreover have "i_or (numrows t) x = x" for x using d by (simp add: i_or_def)
  ultimately show ?thesis
    using r d t4 by (simp add: s(7) mk_view_def Let_def page_of_def total_rows_def t' t5 t3 e)
qed

text \<open>The first rendering settles a table.\<close>

lemma apply_filter_text_eq:
  assumes "apply_filter h hdr td t = Inr (t', ftd)" "list_all (text_filter h hdr) (tfilters t)"
    and "uses_filter t \<longrightarrow> filter_changed t"
  shows "list_all (text_filter h hdr) (tfilters t') \<and> uses_filter t' = uses_filter t
    \<and> (uses_filter t \<longrightarrow> \<not> filter_changed t' \<and> filtered_data t' \<noteq> None)
    \<and> map fst (tfilters t') = map fst (tfilters t)"
proof (cases "uses_filter t")
  case True
  let ?fs = "map (\<lambda>(i, f). (i, f\<lparr>re := Some (case searchword f of None \<Rightarrow> ''(?:)'' | Some w \<Rightarrow> w, \<not> case_sensitive f)\<rparr>)) (tfilters t)"
  obtain new where t': "t' = t\<lparr>offset := Some 0, tfilters := ?fs, alerts := alerts t @ [],
      filter_changed := False, filtered_data := Some new\<rparr>"
    using True assms by (auto simp: apply_filter_def uses_filter_def prepare_filters_text [OF assms(2)] jbind_Inr_iff)
  have "list_all (text_filter h hdr) ?fs"
    using assms(2) by (fastforce simp: list_all_iff text_filter_def)
  moreover have "filter_present ?fs = filter_present (tfilters t)"
    by (simp add: filter_present_def list_ex_iff filter_active_def case_prod_unfold)
  moreover have "map fst ?fs = map fst (tfilters t)" by (simp add: case_prod_unfold comp_def)
  ultimately show ?thesis unfolding t' by (simp add: uses_filter_def)
next
  case False
  with assms have "t' = t" by (auto simp: apply_filter_def uses_filter_def)
  with False assms show ?thesis by simp
qed

lemma render_settles:
  assumes "fresh h hdr td t" "re_ok h []" "render_table h t = Inr (t', v)"
    and "col_sortable (sorttype t' (sortcol t)) (sort_column hdr t td)"
  shows "settled h hdr t'
    \<and> display_list t' = js_sort (row_order hdr (t\<lparr>sorttype := sorttype t'\<rparr>)) (filter (row_accepted h hdr t) td)
    \<and> offset t' = v_offset v \<and> rows_per_page t' = rows_per_page t
    \<and> v_tlen v = int (length (display_list t'))
    \<and> v_next v = i_less (i_add (v_offset v) (v_rows v)) (Some (int (length (display_list t'))))
    \<and> \<not> v_nav_callback v"
proof -
  note d = assms(1) [unfolded fresh_def]
  obtain t1 hdr' t2 td' t3 t4 ftd t5 cells disp where s:
    "init_header (split_raw (init_callback t)) = Inr (t1, hdr')" "parse_data hdr' t1 = Inr (t2, td')"
    "detect_sorttypes hdr' td' t2 = Inr t3" "apply_filter h hdr' td' t3 = Inr (t4, ftd)"
    "header_cells h hdr' ftd t4 = Inr (t5, cells)" "sort_rows hdr' (uses_filter t3) ftd t5 = Inr (t', disp)"
    "v = mk_view hdr' ftd cells disp t'"
    using render_table_stages [OF assms(3)] by metis
  have t0: "init_callback t = t" using d by (simp add: init_callback_def)
  have e: "t1 = split_raw t" "hdr' = hdr" "t2 = split_raw t" "td' = td"
    using s(1,2) d t0 init_fields(1,2) [of t] by (auto simp: init_header_def parse_data_def)
  obtain dt st where t3: "t3 = t\<lparr>data := dt, sorttype := st\<rparr>"
    using detect_split [OF s(3) [unfolded e(3)]] by blast
  have uf: "uses_filter t3 = uses_filter t" by (simp add: uses_filter_def t3)
  have t4: "list_all (text_filter h hdr) (tfilters t4)" "uses_filter t4 = uses_filter t"
    "uses_filter t \<longrightarrow> \<not> filter_changed t4 \<and> filtered_data t4 \<noteq> None" "map fst (tfilters t4) = map fst (tfilters t)"
    using apply_filter_text_eq [OF s(4) [unfolded e]] d uf by (auto simp: t3)
  obtain off fs as b fd where t4': "t4 = t3\<lparr>offset := off, tfilters := fs, alerts := as, filter_changed := b, filtered_data := fd\<rparr>"
    using apply_filter_frame [OF s(4)] by blast
  obtain fs' where t5: "t5 = t4\<lparr>tfilters := fs'\<rparr>" using header_cells_frame [OF s(5)] by blast
  have pf: "filter_present fs' = filter_present (tfilters t4)"
    using header_cells_present [OF s(5)] d t4(4) by (simp add: t5 table_wf_def)
  have tf: "list_all (text_filter h hdr) fs'"
    using header_cells_text_filters [OF s(5) [unfolded e]] d assms(2) t4(1) by (simp add: t5 t4' t3)
  have t': "t' = (if uses_filter t then t5\<lparr>filtered_data := Some disp, is_sorted := True\<rparr> else t5\<lparr>tdata := Some disp, is_sorted := True\<rparr>)"
  proof -
    have "\<not> is_sorted t5" using d by (simp add: t5 t4' t3)
    with s(6) show ?thesis unfolding uf by (auto simp: sort_rows_def jbind_Inr_iff)
  qed
  have u5: "uses_filter t' = uses_filter t"
    using pf t4(2) by (auto simp: t' uses_filter_def t5 t4')
  have fc: "\<not> filter_changed t4" if "uses_filter t" using t4(3) that by simp
  have "table_wf t'" using render_table_wf [OF _ assms(3)] d by blast
  then have "settled h hdr t'"
    using d tf u5 fc unfolding settled_def by (auto simp: t' t5 t4' t3 text_rows_def)
  moreover have dl: "display_list t' = disp"
    unfolding display_list_def u5 by (simp add: t')
  moreover have ls: "mset disp = mset ftd"
    using s(6) by (auto simp: sort_rows_def jbind_Inr_iff dest: mset_js_sortM split: if_splits)
  then have "length ftd = length disp" by (metis size_mset)
  moreover have "disp = js_sort (row_order hdr (t\<lparr>sorttype := sorttype t'\<rparr>)) (filter (row_accepted h hdr t) td)"
  proof -
    have "row_accepted h hdr t3 = row_accepted h hdr t" by (simp add: row_accepted_def fun_eq_iff t3)
    then have ftd: "ftd = filter (row_accepted h hdr t) td"
      using apply_filter_spec [OF s(4)] uf d by (simp add: t3 e)
    have st: "sorttype t' = st" "sorttype t5 = st" "sortcol t5 = sortcol t" "sortdir t5 = sortdir t" "cell t5 = cell t"
      "\<not> is_sorted t5"
      using d by (simp_all add: t' t5 t4' t3)
    with assms(4) have "col_sortable (sorttype t5 (sortcol t5)) (sort_column hdr t5 ftd)"
      by (auto simp: ftd sort_column_def col_sortable_def list_all_iff)
    from sort_rows_order [OF this st(6), of "uses_filter t3"] s(6) have "disp = js_sort (row_order hdr t5) ftd"
      by (auto simp: e)
    moreover have "row_order hdr t5 = row_order hdr (t\<lparr>sorttype := sorttype t'\<rparr>)"
      using st by (intro row_order_cong) auto
    ultimately show ?thesis by (simp add: ftd)
  qed
  moreover have "numrows t' = numrows t" "navigation_callback t' = NoCallback" "rows_per_page t' = rows_per_page t"
    using d by (simp_all add: t' t5 t4' t3)
  moreover have "i_or (numrows t) x = x" for x using d by (simp add: i_or_def)
  ultimately show ?thesis
    by (simp add: s(7) mk_view_def Let_def total_rows_def)
qed

section \<open>Browsing\<close>

text \<open>Clicking \<^verbatim>\<open>next\<close> for as long as the button is there, at most \<^verbatim>\<open>n\<close> times; the pages seen.\<close>

fun browse :: "host \<Rightarrow> nat \<Rightarrow> nat \<Rightarrow> tpage \<Rightarrow> nat list list js" where
  "browse h n k p =
     with_view k p (\<lambda>t v.
       if v_next v
       then (case n of 0 \<Rightarrow> throw TypeError
             | Suc m \<Rightarrow> jbind (next_click h k p) (\<lambda>p'. jbind (browse h m k p') (\<lambda>ps. ok (v_shown v # ps))))
       else ok [v_shown v])"

declare browse.simps [simp del]

definition at_page :: "host \<Rightarrow> string list \<Rightarrow> nat list \<Rightarrow> int \<Rightarrow> nat \<Rightarrow> int \<Rightarrow> tpage \<Rightarrow> bool" where
  "at_page h hdr d r k off p \<longleftrightarrow>
     k < length (tables p) \<and> k < length (views p) \<and> settled h hdr (tables p ! k)
     \<and> display_list (tables p ! k) = d \<and> rows_per_page (tables p ! k) = Some r \<and> offset (tables p ! k) = Some off
     \<and> (\<exists>v. views p ! k = Some v \<and> v_rows v = Some r \<and> v_tlen v = int (length d)
          \<and> v_shown v = js_slice (Some off) (Some (off + r)) d \<and> v_next v = (off + r < int (length d))
          \<and> \<not> v_nav_callback v)"

lemma settled_offset: "settled h hdr t \<Longrightarrow> settled h hdr (t\<lparr>offset := off\<rparr>)"
  by (simp add: settled_def table_wf_def text_rows_def uses_filter_def)

lemma display_list_offset [simp]: "display_list (t\<lparr>offset := off\<rparr>) = display_list t"
  by (simp add: display_list_def uses_filter_def)

text \<open>A page button moves a settled table to the page at the offset the button computes.\<close>

lemma page_click_page:
  assumes "at_page h hdr d r k off p" "0 < r" "re_ok h []"
    and "\<And>v. v_rows v = Some r \<Longrightarrow> v_tlen v = int (length d) \<Longrightarrow> f v (Some off) = Some off'"
  shows "\<exists>p'. page_click h name f k p = Inr p' \<and> at_page h hdr d r k off' p'"
proof -
  let ?t = "tables p ! k"
  obtain v where v: "views p ! k = Some v" "v_rows v = Some r" "v_tlen v = int (length d)" "\<not> v_nav_callback v"
    using assms(1) by (auto simp: at_page_def)
  have k: "k < length (tables p)" "k < length (views p)" and st: "settled h hdr ?t" "display_list ?t = d"
    "rows_per_page ?t = Some r" "offset ?t = Some off"
    using assms(1) by (auto simp: at_page_def)
  let ?u = "?t\<lparr>offset := Some off'\<rparr>"
  obtain t' w where r: "render_table h ?u = Inr (t', w)" and t': "settled h hdr t'" "display_list t' = d"
    "offset t' = Some off'" "rows_per_page t' = Some r"
    and w: "v_rows w = page_rows (display_list ?u) ?u" "v_tlen w = int (length (display_list ?u))"
      "v_shown w = js_slice (offset ?u) (i_add (offset ?u) (v_rows w)) (display_list ?u)"
      "v_next w = i_less (i_add (offset ?u) (v_rows w)) (Some (int (length (display_list ?u))))" "\<not> v_nav_callback w"
    using render_settled [OF settled_offset [OF st(1)] assms(3), of "Some off'"] st by auto
  have "v_rows w = Some r" using w(1) assms(2) by (simp add: page_rows_def st)
  then have "at_page h hdr d r k off'
      (p\<lparr>tables := (tables p)[k := t'], views := (views p)[k := Some w], cur := k\<rparr>)"
    using k t' w by (simp add: at_page_def st)
  moreover have "page_click h name f k p = Inr (p\<lparr>tables := (tables p)[k := t'], views := (views p)[k := Some w], cur := k\<rparr>)"
    using k v r by (simp add: page_click_def with_view_def tbl_at_def render_def set_tbl_def st assms(4))
  ultimately show ?thesis by blast
qed

lemma next_click_page:
  assumes "at_page h hdr d r k off p" "off + r < int (length d)" "0 < r" "re_ok h []"
  shows "\<exists>p'. next_click h k p = Inr p' \<and> at_page h hdr d r k (off + r) p'"
  unfolding next_click_def
  by (rule page_click_page [OF assms(1,3,4)]) (use assms(2) in \<open>simp add: next_offset_def\<close>)

text \<open>A table that has just been rendered for the first time is at its first page.\<close>

lemma render_at_page:
  assumes "k < length (tables p)" "k < length (views p)" "fresh h hdr td (tables p ! k)" "re_ok h []"
    and "render_table h (tables p ! k) = Inr (t', v)"
    and "col_sortable (sorttype t' (sortcol (tables p ! k))) (sort_column hdr (tables p ! k) td)"
    and "offset (tables p ! k) = Some 0" "rows_per_page (tables p ! k) = Some r" "0 < r"
  shows "\<exists>p'. render h k p = Inr p' \<and> at_page h hdr
     (js_sort (row_order hdr ((tables p ! k)\<lparr>sorttype := sorttype t'\<rparr>))
        (filter (row_accepted h hdr (tables p ! k)) td)) r k 0 p'"
proof -
  let ?t = "tables p ! k"
  let ?p = "p\<lparr>tables := (tables p)[k := t'], views := (views p)[k := Some v], cur := k\<rparr>"
  have f: "header ?t = Some hdr" "tdata ?t = Some td" "synchronous ?t" "\<not> is_sorted ?t" "uses_filter ?t \<Longrightarrow> filter_changed ?t"
    using assms(3) by (simp_all add: fresh_def)
  note sh = render_table_shows [OF assms(5) f assms(6)] and se = render_settles [OF assms(3,4,5,6)]
  have rows: "v_offset v = Some 0" "v_rows v = Some r"
    using sh assms(7,8,9) by (simp_all add: page_rows_def)
  have "at_page h hdr (display_list t') r k 0 ?p"
    using conjunct1 [OF sh] se assms(1,2,8) by (simp add: at_page_def rows)
  moreover have "render h k p = Inr ?p" using assms(1,5) by (simp add: render_def tbl_at_def)
  ultimately show ?thesis using se by auto
qed

lemma browse_from:
  assumes "at_page h hdr d r k off p" "0 \<le> off" "0 < r" "re_ok h []" "int (length d) \<le> off + r + int n"
  shows "\<exists>ps. browse h n k p = Inr ps \<and> concat ps = drop (nat off) d"
  using assms
proof (induction n arbitrary: off p)
  case 0
  then obtain v where "views p ! k = Some v" "\<not> v_next v" "v_shown v = js_slice (Some off) (Some (off + r)) d"
    by (auto simp: at_page_def)
  moreover have "js_slice (Some off) (Some (off + r)) d = drop (nat off) d"
    using 0 by (simp add: js_slice_nat)
  ultimately show ?case
    using 0 by (simp add: browse.simps with_view_def tbl_at_def at_page_def)
next
  case (Suc n)
  then obtain v where v: "views p ! k = Some v" "v_next v = (off + r < int (length d))"
    "v_shown v = js_slice (Some off) (Some (off + r)) d" "k < length (tables p)" "k < length (views p)"
    by (auto simp: at_page_def)
  show ?case
  proof (cases "off + r < int (length d)")
    case True
    obtain p' where p': "next_click h k p = Inr p'" "at_page h hdr d r k (off + r) p'"
      using next_click_page [OF Suc.prems(1) True Suc.prems(3,4)] by blast
    obtain ps where ps: "browse h n k p' = Inr ps" "concat ps = drop (nat (off + r)) d"
      using Suc.IH [OF p'(2)] Suc.prems by auto
    have "js_slice (Some off) (Some (off + r)) d @ drop (nat (off + r)) d = drop (nat off) d"
      using Suc.prems(2,3) append_take_drop_id [of "nat r" "drop (nat off) d"]
      by (simp add: js_slice_nat nat_add_distrib add.commute)
    with v True p' ps show ?thesis
      by (simp add: browse.simps [of h "Suc n"] with_view_def tbl_at_def)
  next
    case False
    then have "js_slice (Some off) (Some (off + r)) d = drop (nat off) d"
      using Suc.prems(2,3) by (simp add: js_slice_nat)
    with v False show ?thesis by (simp add: browse.simps with_view_def tbl_at_def)
  qed
qed

section \<open>The operator switch\<close>

definition only_at :: "nat \<Rightarrow> nat \<Rightarrow> bool list" where
  "only_at n a = map (\<lambda>i. i = a) [0..<n]"

lemma op_cycle_none:
  "\<forall>i. x \<le> i \<and> i < length ds \<longrightarrow> \<not> ds ! i \<Longrightarrow> op_cycle x ds act = (ds, act)"
proof (induction x ds act rule: op_cycle.induct)
  case (1 x ds act)
  then show ?case by (simp add: op_cycle.simps [of x ds act])
qed

lemma op_cycle_to: "x \<le> a \<Longrightarrow> a < n \<Longrightarrow> op_cycle x (only_at n a) act = op_cycle a (only_at n a) act"
proof (induction "a - x" arbitrary: x)
  case (Suc m)
  then have "x < a" "x < n" by simp_all
  then have "op_cycle x (only_at n a) act = op_cycle (x + 1) (only_at n a) act"
    by (subst op_cycle.simps) (simp add: only_at_def)
  with Suc show ?case by simp
qed simp

lemma op_cycle_only_at:
  assumes "a < n"
  shows "op_cycle 0 (only_at n a) act = (only_at n (Suc a mod n), Some (Suc a mod n))"
proof (cases "a = n - 1")
  case True
  then have m: "Suc a mod n = 0" using assms by simp
  have "(only_at n a)[a := False, 0 := True] = only_at n 0"
    using assms by (intro nth_equalityI) (auto simp: only_at_def nth_list_update)
  then have "op_cycle a (only_at n a) act = op_cycle (a + 1) (only_at n 0) (Some 0)"
    using assms True by (subst op_cycle.simps) (simp add: only_at_def)
  moreover have "op_cycle (a + 1) (only_at n 0) (Some 0) = (only_at n 0, Some 0)"
    by (rule op_cycle_none) (simp add: only_at_def)
  ultimately show ?thesis using op_cycle_to [of 0 a n act] assms m by simp
next
  case False
  then have "Suc a < n" and m: "Suc a mod n = Suc a" using assms by simp_all
  then have "(only_at n a)[a := False, Suc a := True] = only_at n (Suc a)"
    by (intro nth_equalityI) (auto simp: only_at_def nth_list_update)
  then have "op_cycle a (only_at n a) act = op_cycle (a + 2) (only_at n (Suc a)) (Some (Suc a))"
    using assms False by (subst op_cycle.simps) (simp add: only_at_def)
  moreover have "op_cycle (a + 2) (only_at n (Suc a)) (Some (Suc a)) = (only_at n (Suc a), Some (Suc a))"
    by (rule op_cycle_none) (simp add: only_at_def)
  ultimately show ?thesis using op_cycle_to [of 0 a n act] assms m by simp
qed

section \<open>All events\<close>

lemma with_view_Inr:
  "with_view k p f = Inr x \<longleftrightarrow>
     (\<exists>t v. tbl_at p k = Inr t \<and> k < length (views p) \<and> views p ! k = Some v \<and> f t v = Inr x)"
  by (cases "tbl_at p k") (auto simp: with_view_def split: option.splits)

text \<open>One event on a page: a user action on one of its tables, or the response to a request.\<close>

inductive page_step :: "host \<Rightarrow> tpage \<Rightarrow> tpage \<Rightarrow> bool" for h where
  step_first: "first_click h k p = Inr p' \<Longrightarrow> page_step h p p'"
| step_prev: "prev_click h k p = Inr p' \<Longrightarrow> page_step h p p'"
| step_next: "next_click h k p = Inr p' \<Longrightarrow> page_step h p p'"
| step_last: "last_click h k p = Inr p' \<Longrightarrow> page_step h p p'"
| step_goto: "goto_enter h s k p = Inr p' \<Longrightarrow> page_step h p p'"
| step_perpage: "perpage_enter h s k p = Inr p' \<Longrightarrow> page_step h p p'"
| step_sort: "sort_click h dir i k p = Inr p' \<Longrightarrow> page_step h p p'"
| step_filter: "filter_enter h i w k p = Inr p' \<Longrightarrow> page_step h p p'"
| step_select: "select_change h i w k p = Inr p' \<Longrightarrow> page_step h p p'"
| step_clear: "clear_click h k p = Inr p' \<Longrightarrow> page_step h p p'"
| step_columns: "update_visible_columns h cs k p = Inr p' \<Longrightarrow> page_step h p p'"
| step_edit: "edit_enter h y x s k p = Inr p' \<Longrightarrow> page_step h p p'"
| step_click: "cell_click y x k p = Inr p' \<Longrightarrow> page_step h p p'"
| step_render: "render h k p = Inr p' \<Longrightarrow> page_step h p p'"
| step_response: "update_success h k rows tot p = Inr p' \<Longrightarrow> page_step h p p'"

definition tables_wf :: "tpage \<Rightarrow> bool" where
  "tables_wf p \<longleftrightarrow> list_all table_wf (tables p)"

lemma tables_wf_nth: "tables_wf p \<Longrightarrow> tbl_at p k = Inr t \<Longrightarrow> table_wf t"
  by (auto simp: tables_wf_def tbl_at_def list_all_length split: if_splits)

lemma tables_wf_set [intro]: "tables_wf p \<Longrightarrow> table_wf t \<Longrightarrow> tables_wf (set_tbl p k t)"
  using set_update_subset_insert [of "tables p" k t] by (auto simp: tables_wf_def set_tbl_def list_all_iff)

lemma tables_wf_emit [simp]: "tables_wf (emit p e) = tables_wf p" "tables_wf (p\<lparr>cur := c\<rparr>) = tables_wf p"
  by (simp_all add: tables_wf_def emit_def)

lemma table_wf_update [simp]:
  "table_wf (t\<lparr>offset := i\<rparr>) = table_wf t" "table_wf (t\<lparr>rows_per_page := i\<rparr>) = table_wf t"
  "table_wf (t\<lparr>is_sorted := b\<rparr>) = table_wf t" "table_wf (t\<lparr>filter_changed := b\<rparr>) = table_wf t"
  "table_wf (t\<lparr>sortcol := n\<rparr>) = table_wf t" "table_wf (t\<lparr>sortdir := d\<rparr>) = table_wf t"
  "table_wf (t\<lparr>invisible_columns := f\<rparr>) = table_wf t" "table_wf (t\<lparr>sort_field := g\<rparr>) = table_wf t"
  "table_wf (t\<lparr>sort_direction := d'\<rparr>) = table_wf t" "table_wf (t\<lparr>tquery := q\<rparr>) = table_wf t"
  "table_wf (t\<lparr>numrows := i\<rparr>) = table_wf t"
  by (simp_all add: table_wf_def)

lemma render_tables_wf: "tables_wf p \<Longrightarrow> render h k p = Inr p' \<Longrightarrow> tables_wf p'"
proof -
  assume wf: "tables_wf p" and "render h k p = Inr p'"
  then obtain t t' v where t: "tbl_at p k = Inr t" "render_table h t = Inr (t', v)"
    and p': "p' = p\<lparr>tables := (tables p)[k := t'], views := (views p)[k := Some v], cur := k\<rparr>"
    by (auto simp: render_def jbind_Inr_iff)
  have "table_wf t'" using render_table_wf [OF tables_wf_nth [OF wf t(1)] t(2)] .
  then have "tables_wf (set_tbl p k t')" using wf by blast
  then show "tables_wf p'" by (simp add: p' set_tbl_def tables_wf_def)
qed

lemma update_params_wf: "table_wf t \<Longrightarrow> table_wf (update_params n t)"
  by (auto simp: update_params_def update_string_def update_sort_def update_query_def Let_def
      split: nav.split option.split nav_query.split)

lemma call_nav_wf: "tables_wf p \<Longrightarrow> call_nav c n k p = Inr p' \<Longrightarrow> tables_wf p'"
  by (auto simp: call_nav_def update_def jbind_Inr_iff Let_def split: nav_callback.splits
      dest: tables_wf_nth intro!: tables_wf_set update_params_wf)

lemma via_callback_wf:
  assumes "tables_wf p" "\<And>t. table_wf t \<Longrightarrow> table_wf (f t)" "via_callback h n f k p = Inr p'"
  shows "tables_wf p'"
proof (cases "shared_callback p = NoCallback")
  case True
  then obtain t where t: "tbl_at p k = Inr t" "render h k (set_tbl p k (f t)) = Inr p'"
    using assms(3) by (auto simp: via_callback_def jbind_Inr_iff)
  have "tables_wf (set_tbl p k (f t))" using assms(1,2) tables_wf_nth [OF assms(1) t(1)] by blast
  then show ?thesis using t(2) by (rule render_tables_wf)
next
  case False
  with assms show ?thesis by (auto simp: via_callback_def intro: call_nav_wf)
qed

lemma page_click_wf: "tables_wf p \<Longrightarrow> page_click h name f k p = Inr p' \<Longrightarrow> tables_wf p'"
  by (auto simp: page_click_def with_view_def jbind_Inr_iff split: if_splits option.splits
      intro: call_nav_wf dest!: render_tables_wf [rotated] intro!: tables_wf_set dest: tables_wf_nth)

lemma set_searchword_wf: "table_wf t \<Longrightarrow> set_searchword i w t = Inr t' \<Longrightarrow> table_wf t'"
  by (auto simp: set_searchword_def table_wf_def sorted_fput split: option.splits)

lemma clear_filters_wf: "table_wf t \<Longrightarrow> table_wf (clear_filters t)"
  by (simp add: clear_filters_def table_wf_def comp_def case_prod_unfold)

lemma write_cell_wf: "table_wf t \<Longrightarrow> table_wf (write_cell t r k v)"
  by (simp add: write_cell_def table_wf_def)

lemma response_wf:
  "table_wf t \<Longrightarrow> table_wf (t\<lparr>row_store := row_store t @ rows,
     tdata := Some [length (row_store t)..<length (row_store t) + length rows]\<rparr>)"
  using ids_ok_mono [of "length (row_store t)" _ "length (row_store t) + length rows"]
  by (cases "filtered_data t") (auto simp: table_wf_def ids_ok_upt)

lemma page_step_wf:
  assumes "page_step h p p'" "tables_wf p"
  shows "tables_wf p'"
  using assms
proof (induction rule: page_step.induct)
  case (step_goto s k p p')
  then show ?case
    by (auto simp: goto_enter_def with_view_def jbind_Inr_iff split: if_splits option.splits
        elim!: via_callback_wf [rotated 2])
next
  case (step_perpage s k p p')
  then show ?case by (auto simp: perpage_enter_def elim!: via_callback_wf [rotated 2])
next
  case (step_sort dir i k p p')
  then obtain t where t: "tbl_at p k = Inr t" by (auto simp: sort_click_def jbind_Inr_iff)
  with step_sort have "tables_wf (set_tbl p k (t\<lparr>sortcol := i, sortdir := dir\<rparr>))"
    by (intro tables_wf_set) (auto dest: tables_wf_nth)
  with step_sort t show ?case by (auto simp: sort_click_def Let_def elim!: via_callback_wf [rotated 2])
next
  case (step_filter i w k p p')
  then obtain t t1 where t: "tbl_at p k = Inr t" "set_searchword i w t = Inr t1"
    by (auto simp: filter_enter_def jbind_Inr_iff)
  with step_filter have "tables_wf (set_tbl p k t1)"
    by (auto dest: tables_wf_nth intro: set_searchword_wf)
  with step_filter t show ?case by (auto simp: filter_enter_def elim!: via_callback_wf [rotated 2])
next
  case (step_select i w k p p')
  then obtain t t1 where t: "tbl_at p k = Inr t" "set_searchword i w t = Inr t1"
    by (auto simp: select_change_def jbind_Inr_iff)
  with step_select have "tables_wf (set_tbl p k (t1\<lparr>filter_changed := True\<rparr>))"
    by (intro tables_wf_set) (auto intro: set_searchword_wf dest: tables_wf_nth)
  with step_select t show ?case by (auto simp: select_change_def intro: render_tables_wf)
next
  case (step_clear k p p')
  then obtain t where t: "tbl_at p k = Inr t" by (auto simp: clear_click_def jbind_Inr_iff)
  with step_clear have "tables_wf (set_tbl p k (clear_filters t))"
    by (auto dest: tables_wf_nth intro: clear_filters_wf)
  with step_clear t show ?case by (auto simp: clear_click_def elim!: via_callback_wf [rotated 2])
next
  case (step_columns cs k p p')
  then obtain t where t: "tbl_at p k = Inr t" by (auto simp: update_visible_columns_def jbind_Inr_iff)
  with step_columns have "tables_wf (set_tbl p k (t\<lparr>invisible_columns := (\<lambda>i. i < length cs \<and> \<not> cs ! i)\<rparr>))"
    by (intro tables_wf_set) (auto dest: tables_wf_nth)
  with step_columns t show ?case by (auto simp: update_visible_columns_def intro: render_tables_wf)
next
  case (step_edit y x s k p p')
  then obtain t r and v :: view where t: "tbl_at p k = Inr t" and
    r: "render h k (if has_edit_callback t
          then emit (set_tbl p k (write_cell t r (header_at (v_columns v) x) (Str s))) (EditCall k)
          else set_tbl p k (write_cell t r (header_at (v_columns v) x) (Str s))) = Inr p'"
    unfolding edit_enter_def with_view_Inr jbind_Inr_iff Let_def by blast
  from step_edit t have "tables_wf (set_tbl p k (write_cell t r (header_at (v_columns v) x) (Str s)))"
    by (auto dest: tables_wf_nth intro: write_cell_wf)
  then show ?case using render_tables_wf [OF _ r] by simp
next
  case (step_click y x k p p')
  then show ?case
    by (auto simp: cell_click_def with_view_def jbind_Inr_iff split: if_splits option.splits)
next
  case (step_response k rows tot p p')
  then obtain t where t: "tbl_at p k = Inr t" by (auto simp: update_success_def jbind_Inr_iff)
  with step_response have "table_wf (t\<lparr>row_store := row_store t @ rows,
     tdata := Some [length (row_store t)..<length (row_store t) + length rows]\<rparr>)"
    using response_wf tables_wf_nth by blast
  then have "tables_wf (set_tbl p k (t\<lparr>row_store := row_store t @ rows,
     tdata := Some [length (row_store t)..<length (row_store t) + length rows],
     filter_changed := False, is_sorted := True, numrows := tot\<rparr>))"
    using step_response by (intro tables_wf_set) auto
  with step_response t show ?case by (auto simp: update_success_def Let_def intro: render_tables_wf)
qed (auto simp: first_click_def prev_click_def next_click_def last_click_def
       intro: page_click_wf render_tables_wf)

end
