(* ===== verification/Table_Url.thy ===== *)
theory Table_Url
  imports Table_Nav_Correct
begin

text \<open>
  The request an asynchronous table sends: the URL \<^verbatim>\<open>update\<close> builds is the navigation URL
  followed by one parameter list, whatever the URL and the queries contain.
\<close>

section \<open>Joining and splitting\<close>

lemma js_join_Cons: "ws \<noteq> [] \<Longrightarrow> js_join sep (w # ws) = w @ sep @ js_join sep ws"
  by (cases ws) auto

lemma js_join_append:
  "ws \<noteq> [] \<Longrightarrow> vs \<noteq> [] \<Longrightarrow> js_join sep (ws @ vs) = js_join sep ws @ sep @ js_join sep vs"
proof (induction ws)
  case (Cons w ws)
  then show ?case by (cases "ws = []") (simp_all add: js_join_Cons)
qed simp

lemma js_split_append: "c \<notin> set w \<Longrightarrow> js_split c (w @ c # s) = w # js_split c s"
  by (induction w) auto

lemma js_split_none: "c \<notin> set w \<Longrightarrow> js_split c w = [w]"
  by (induction w) auto

lemma js_split_join:
  "ws \<noteq> [] \<Longrightarrow> list_all (\<lambda>w. c \<notin> set w) ws \<Longrightarrow> js_split c (js_join [c] ws) = ws"
proof (induction ws)
  case (Cons w ws)
  then show ?case
    by (cases ws) (auto simp: js_split_none js_split_append)
qed simp

section \<open>The parameters of a request\<close>

definition query_parts :: "string \<Rightarrow> query list \<Rightarrow> string list" where
  "query_parts qt qs = map (query_part qt) (filter (\<lambda>q. q_searchword q \<noteq> []) qs)"

definition url_params :: "table \<Rightarrow> string list" where
  "url_params t =
     query_parts (query_type t) (query_values (tquery t))
     @ [''limit='' @ jsint_to_string (rows_per_page t), ''offset='' @ jsint_to_string (offset t)]
     @ (case sort_field t of Some f \<Rightarrow> if truthy f then [''order='' @ to_string f] else [] | None \<Rightarrow> [])
     @ (case sort_direction t of Some d \<Rightarrow> if d = [] then [] else [''direction='' @ d] | None \<Rightarrow> [])"

definition url_sep :: "string \<Rightarrow> string" where
  "url_sep base = (if has_qmark base then ''&'' else ''?'')"

lemma query_string_acc:
  "has_qmark acc \<Longrightarrow> foldl (add_query qt) acc qs = acc @ concat (map (\<lambda>w. ''&'' @ w) (query_parts qt qs))"
  by (induction qs arbitrary: acc) (auto simp: query_parts_def add_query_def has_qmark_def)

lemma concat_amp: "concat (map (\<lambda>w. ''&'' @ w) ws) = (if ws = [] then [] else ''&'' @ js_join ''&'' ws)"
  by (induction ws) (auto simp: js_join_Cons)

lemma query_string_join:
  "query_string qt qs = (if query_parts qt qs = [] then [] else ''?'' @ js_join ''&'' (query_parts qt qs))"
proof (induction qs)
  case (Cons q qs)
  show ?case
  proof (cases "q_searchword q = []")
    case True
    with Cons show ?thesis by (simp add: query_string_def query_parts_def add_query_def)
  next
    case False
    then have "query_string qt (q # qs) = foldl (add_query qt) (''?'' @ query_part qt q) qs"
      by (simp add: query_string_def add_query_def has_qmark_def)
    also have "\<dots> = (''?'' @ query_part qt q) @ concat (map (\<lambda>w. ''&'' @ w) (query_parts qt qs))"
      by (rule query_string_acc) (simp add: has_qmark_def)
    finally have "query_string qt (q # qs) = ''?'' @ query_part qt q
        @ (if query_parts qt qs = [] then [] else ''&'' @ js_join ''&'' (query_parts qt qs))"
      unfolding concat_amp by simp
    moreover have "query_parts qt (q # qs) = query_part qt q # query_parts qt qs"
      using False by (simp add: query_parts_def)
    ultimately show ?thesis by (simp add: js_join_Cons)
  qed
qed (simp add: query_string_def query_parts_def)

lemma join_url_params:
  "join_url base (query_string qt qs) =
     base @ (if query_parts qt qs = [] then [] else url_sep base @ js_join ''&'' (query_parts qt qs))"
  by (auto simp: join_url_def query_string_join url_sep_def has_qmark_def)

lemma has_qmark_join_url: "has_qmark (join_url base (query_string qt qs)) \<longleftrightarrow> has_qmark base \<or> query_parts qt qs \<noteq> []"
  unfolding join_url_params by (auto simp: url_sep_def has_qmark_def)

lemma update_url_join:
  assumes "navigation_url t = Some base"
  shows "update_url t = Inr (base @ url_sep base @ js_join ''&'' (url_params t))"
proof -
  let ?q = "query_parts (query_type t) (query_values (tquery t))"
  let ?r = "[''limit='' @ jsint_to_string (rows_per_page t), ''offset='' @ jsint_to_string (offset t)]
     @ (case sort_field t of Some f \<Rightarrow> if truthy f then [''order='' @ to_string f] else [] | None \<Rightarrow> [])
     @ (case sort_direction t of Some d \<Rightarrow> if d = [] then [] else [''direction='' @ d] | None \<Rightarrow> [])"
  have "update_url t = Inr (base @ url_sep base @ (if ?q = [] then [] else js_join ''&'' ?q @ ''&'') @ js_join ''&'' ?r)"
  proof -
    let ?u = "join_url base (query_string (query_type t) (query_values (tquery t)))"
    have "?u @ (if has_qmark ?u then ''&'' else ''?'')
        = base @ url_sep base @ (if ?q = [] then [] else js_join ''&'' ?q @ ''&'')"
      unfolding has_qmark_join_url by (simp add: join_url_params url_sep_def)
    moreover have "update_url t = Inr ((?u @ (if has_qmark ?u then ''&'' else ''?'')) @ js_join ''&'' ?r)"
      using assms unfolding update_url_def Let_def
      by (cases "sort_field t"; cases "sort_direction t") (simp_all add: js_join_Cons)
    ultimately show ?thesis by (simp only: append.assoc)
  qed
  also have "(if ?q = [] then [] else js_join ''&'' ?q @ ''&'') @ js_join ''&'' ?r = js_join ''&'' (?q @ ?r)"
    by (simp add: js_join_append)
  finally show ?thesis by (simp only: url_params_def)
qed

end
