(* ===== verification/Table_Props.thy ===== *)
theory Table_Props
  imports Table_Url
begin

text \<open>
  The properties of the table renderer, each with the table or page on which its hypotheses are
  seen to hold.
\<close>

section \<open>Example tables\<close>

text \<open>A table whose raw data has been parsed, as the first part of \<^verbatim>\<open>render\<close> leaves it.\<close>

definition loaded :: "string list \<Rightarrow> jsval list list \<Rightarrow> table \<Rightarrow> table" where
  "loaded hdr rows t =
     t\<lparr>header := Some hdr, row_store := row_store t @ map (parse_row hdr) rows,
       tdata := Some [length (row_store t)..<length (row_store t) + length rows], data := DataObj None None\<rparr>"

definition text_filter_of :: "string \<Rightarrow> tfilter" where
  "text_filter_of w = \<lparr>ftype = ''text'', searchword = Some w, case_sensitive = False, operator = None,
     active_operator = None, re = None, minmax = None\<rparr>"

definition sample_data :: "jsval list list" where
  "sample_data = [[Str ''b'', Str ''done''], [Str ''d'', Str ''queued''], [Str ''a'', Str ''done''], [Str ''c'', Str ''redone'']]"

definition sample :: table where
  "sample = loaded [''id'', ''state''] sample_data
     (default_table\<lparr>rows_per_page := Some 2, tfilters := [(1, text_filter_of ''done'')], filter_changed := True\<rparr>)"

definition sample_page :: tpage where
  "sample_page = \<lparr>tables = [sample], views = [None], cur = 0, log = []\<rparr>"

text \<open>The page after its table has been rendered, and the table shown there.\<close>

definition shown_page :: tpage where
  "shown_page = projr (render literal_host 0 sample_page)"

lemma sample_fields:
  "header sample = Some [''id'', ''state'']" "tdata sample = Some [0, 1, 2, 3]" "synchronous sample"
  "\<not> is_sorted sample" "filter_changed sample" "uses_filter sample" "offset sample = Some 0"
  "rows_per_page sample = Some 2" "sortcol sample = 0"
  by code_simp+

lemma literal_re_ok [simp]: "re_ok literal_host w"
  by (simp add: literal_host_def)

lemma sample_fresh: "fresh literal_host [''id'', ''state''] [0, 1, 2, 3] sample"
proof -
  have "table_wf sample" "text_rows [''id'', ''state''] sample" "\<not> i_truthy (numrows sample)"
    "navigation_callback sample = NoCallback" "navigation_url sample = None" "\<not> filter_autodetect sample"
    "list_all (text_filter literal_host [''id'', ''state'']) (tfilters sample)"
    by code_simp+
  then show ?thesis by (simp add: fresh_def sample_fields)
qed

lemma sample_renders:
  obtains t' v where "render_table literal_host sample = Inr (t', v)"
    "col_sortable (sorttype t' (sortcol sample)) (sort_column [''id'', ''state''] sample [0, 1, 2, 3])"
proof -
  have "\<not> isl (render_table literal_host sample)" by code_simp
  then obtain t' v where r: "render_table literal_host sample = Inr (t', v)"
    by (cases "render_table literal_host sample") auto
  have "sorttype (fst (projr (render_table literal_host sample))) (sortcol sample) = None" by code_simp
  moreover have "col_sortable None (sort_column [''id'', ''state''] sample [0, 1, 2, 3])" by code_simp
  ultimately show ?thesis using that [of t' v] by (simp add: r)
qed

lemma sample_page_renders: "render literal_host 0 sample_page = Inr shown_page"
proof -
  have "\<not> isl (render literal_host 0 sample_page)" by code_simp
  then show ?thesis by (cases "render literal_host 0 sample_page") (auto simp: shown_page_def)
qed

section \<open>What a rendered table shows\<close>

text \<open>C1: The page of a freshly rendered synchronous table is cut, at the offset and with the number
  of rows the options give, out of the rows every filter accepts, sorted by the sort column with any
  stable sort (so with the sort of every engine), and its cells are those of the visible columns. A
  filter that has just changed sends the table back to its first page.\<close>

theorem render_table_page:
  assumes "render_table h t = Inr (t', v)" "stable_sort srt"
    and "header t = Some hdr" "tdata t = Some td" "synchronous t" "\<not> is_sorted t"
    and "uses_filter t \<Longrightarrow> filter_changed t"
    and "col_sortable (sorttype t' (sortcol t)) (sort_column hdr t td)"
  shows "v_shown v = js_slice (v_offset v) (i_add (v_offset v) (v_rows v))
           (srt (row_order hdr (t\<lparr>sorttype := sorttype t'\<rparr>)) (filter (row_accepted h hdr t) td))
     \<and> v_offset v = (if uses_filter t then Some 0 else offset t)
     \<and> v_rows v = page_rows (filter (row_accepted h hdr t) td) t
     \<and> v_body v = map (\<lambda>r. map (\<lambda>i. to_html (cell t r (header_at hdr i))) (visible_cols hdr t)) (v_shown v)"
proof -
  have "consistent (row_order hdr (t\<lparr>sorttype := sorttype t'\<rparr>)) (set td)"
    using assms(8) by (intro consistent_row_order) (simp add: sort_column_def)
  then have "consistent (row_order hdr (t\<lparr>sorttype := sorttype t'\<rparr>)) (set (filter (row_accepted h hdr t) td))"
    by (rule consistent_subset) auto
  then show ?thesis
    using render_table_shows [OF assms(1,3-8)] js.engine_independent [OF assms(2)] by simp
qed

theorem render_table_page_witness:
  "\<exists>t' v. render_table literal_host sample = Inr (t', v) \<and>
     v_shown v = js_slice (Some 0) (Some 2)
           (js_sort (row_order [''id'', ''state''] (sample\<lparr>sorttype := sorttype t'\<rparr>))
            (filter (row_accepted literal_host [''id'', ''state''] sample) [0, 1, 2, 3]))"
proof -
  obtain t' v where r: "render_table literal_host sample = Inr (t', v)"
    "col_sortable (sorttype t' (sortcol sample)) (sort_column [''id'', ''state''] sample [0, 1, 2, 3])"
    using sample_renders .
  from render_table_page [OF r(1) js.stable_sort_axioms sample_fields(1-4) _ r(2)] r(1) show ?thesis
    by (simp add: page_rows_def sample_fields)
qed

text \<open>The rows on the page are in the order the header announces, are rows of the data that
  every filter accepts, and no row is shown twice.\<close>

theorem render_table_ordered:
  assumes "render_table h t = Inr (t', v)" "table_wf t"
    and "header t = Some hdr" "tdata t = Some td" "synchronous t" "\<not> is_sorted t"
    and "uses_filter t \<Longrightarrow> filter_changed t"
    and "col_sortable (sorttype t' (sortcol t)) (sort_column hdr t td)"
  shows "sorted_wrt (\<lambda>a b. row_order hdr (t\<lparr>sorttype := sorttype t'\<rparr>) a b \<le> 0) (v_shown v)
     \<and> set (v_shown v) \<subseteq> {r \<in> set td. row_accepted h hdr t r} \<and> distinct (v_shown v)"
proof -
  let ?c = "row_order hdr (t\<lparr>sorttype := sorttype t'\<rparr>)" and ?d = "filter (row_accepted h hdr t) td"
  have sh: "v_shown v = js_slice (v_offset v) (i_add (v_offset v) (v_rows v)) (js_sort ?c ?d)"
    using render_table_shows [OF assms(1,3-8)] by blast
  have "consistent ?c (set td)"
    using assms(8) by (intro consistent_row_order) (simp add: sort_column_def)
  then have "sorted_wrt (\<lambda>a b. ?c a b \<le> 0) (js_sort ?c ?d)"
    by (intro js.ordered) (rule consistent_subset, auto)
  moreover have "distinct (js_sort ?c ?d)"
    using assms(2,4) mset_eq_imp_distinct_iff [OF js.perm [of ?c ?d]] by (simp add: table_wf_def ids_ok_def)
  ultimately show ?thesis
    using set_js_slice [of "v_offset v" "i_add (v_offset v) (v_rows v)" "js_sort ?c ?d"]
    unfolding sh by (auto simp: sorted_wrt_js_slice distinct_js_slice)
qed

theorem render_table_ordered_witness:
  "\<exists>t' v. render_table literal_host sample = Inr (t', v)
     \<and> set (v_shown v) \<subseteq> {r \<in> set [0, 1, 2, 3]. row_accepted literal_host [''id'', ''state''] sample r} \<and> distinct (v_shown v)"
proof -
  obtain t' v where r: "render_table literal_host sample = Inr (t', v)"
    "col_sortable (sorttype t' (sortcol sample)) (sort_column [''id'', ''state''] sample [0, 1, 2, 3])"
    using sample_renders .
  have "table_wf sample" by code_simp
  from render_table_ordered [OF r(1) this sample_fields(1-4) _ r(2)] r(1) show ?thesis
    by (simp add: sample_fields)
qed





text \<open>A parsed row is an object that returns, under the name of a column, the value of that
  column, where a missing or falsy value has become the empty text.\<close>

theorem parse_row_get:
  assumes "distinct hdr" "length vs \<le> length hdr" "i < length vs"
  shows "row_cell (parse_row hdr vs) (hdr ! i) = (if truthy (vs ! i) then vs ! i else Str [])"
proof -
  let ?f = "header_at hdr" and ?g = "\<lambda>h. default_cell (vs ! h)"
  have "map ?f [0..<length vs] = take (length vs) hdr"
    using assms(2) by (intro nth_equalityI) (auto simp: header_at_def)
  then have "distinct (map ?f [0..<length vs])" using assms(1) by simp
  then have "oget (parse_row hdr vs) (?f i) = Some (?g i)"
    unfolding parse_row_def by (rule obj.get_put_all_distinct) (use assms(3) in simp)
  moreover have "?f i = hdr ! i" using assms by (simp add: header_at_def)
  ultimately show ?thesis by (simp add: row_cell_def default_cell_def)
qed

theorem parse_row_get_witness:
  "row_cell (parse_row [''id'', ''size''] [Str ''a'', Num (Fin 0)]) ([''id'', ''size''] ! 1) = Str []"
  using parse_row_get [of "[''id'', ''size'']" "[Str ''a'', Num (Fin 0)]" 1] by simp

section \<open>Events\<close>



text \<open>C2: Clicking the next button for as long as it is there, from the first page of a table of
  texts, shows every accepted row exactly once, in the order of the sort column, and ends.\<close>

theorem browse_shows_all:
  assumes "k < length (tables p)" "k < length (views p)" "fresh h hdr td (tables p ! k)" "re_ok h []"
    and "render_table h (tables p ! k) = Inr (t', v)"
    and "col_sortable (sorttype t' (sortcol (tables p ! k))) (sort_column hdr (tables p ! k) td)"
    and "offset (tables p ! k) = Some 0" "rows_per_page (tables p ! k) = Some r" "0 < r"
  shows "\<exists>p' ps. render h k p = Inr p' \<and> browse h (length td) k p' = Inr ps
    \<and> concat ps = js_sort (row_order hdr ((tables p ! k)\<lparr>sorttype := sorttype t'\<rparr>))
        (filter (row_accepted h hdr (tables p ! k)) td)"
proof -
  let ?d = "js_sort (row_order hdr ((tables p ! k)\<lparr>sorttype := sorttype t'\<rparr>))
        (filter (row_accepted h hdr (tables p ! k)) td)"
  obtain p' where p': "render h k p = Inr p'" "at_page h hdr ?d r k 0 p'"
    using render_at_page [OF assms] by blast
  have "length ?d \<le> length td" by (simp add: js.same_length)
  then obtain ps where "browse h (length td) k p' = Inr ps" "concat ps = drop (nat 0) ?d"
    using browse_from [OF p'(2) _ assms(9,4), of "length td"] assms(9) by auto
  with p' show ?thesis by auto
qed

theorem browse_shows_all_witness:
  "\<exists>(t' :: table) p' ps. render literal_host 0 sample_page = Inr p' \<and> browse literal_host (length [0, 1, 2, 3 :: nat]) 0 p' = Inr ps
     \<and> concat ps = js_sort (row_order [''id'', ''state''] (sample\<lparr>sorttype := sorttype t'\<rparr>))
         (filter (row_accepted literal_host [''id'', ''state''] sample) [0, 1, 2, 3])"
proof -
  obtain t' v where r: "render_table literal_host sample = Inr (t', v)"
    "col_sortable (sorttype t' (sortcol sample)) (sort_column [''id'', ''state''] sample [0, 1, 2, 3])"
    using sample_renders .
  have p: "0 < length (tables sample_page)" "0 < length (views sample_page)" "tables sample_page ! 0 = sample"
    by (simp_all add: sample_page_def)
  show ?thesis
    by (rule exI [of _ t'], rule browse_shows_all [OF p(1,2), unfolded p(3), OF sample_fresh literal_re_ok r sample_fields(7,8)])
      simp
qed

text \<open>C15: The four page buttons of a settled table show the first page, the page before, the page
  after and the last full page, whatever page is shown; going forward and back returns to the same
  page.\<close>

theorem page_buttons:
  assumes "at_page h hdr d r k off p" "0 \<le> off" "0 < r" "re_ok h []"
  shows "(\<exists>p'. first_click h k p = Inr p' \<and> at_page h hdr d r k 0 p')
    \<and> (\<exists>p'. prev_click h k p = Inr p' \<and> at_page h hdr d r k (max 0 (off - r)) p')
    \<and> (\<exists>p'. last_click h k p = Inr p' \<and> at_page h hdr d r k (max 0 (int (length d) - r)) p')
    \<and> (off + r < int (length d) \<longrightarrow>
        (\<exists>p' p''. next_click h k p = Inr p' \<and> at_page h hdr d r k (off + r) p'
           \<and> prev_click h k p' = Inr p'' \<and> at_page h hdr d r k off p''))"
proof -
  note pg = page_click_page [OF _ assms(3,4)]
  have prv: "\<exists>p''. prev_click h k p' = Inr p'' \<and> at_page h hdr d r k (max 0 (a - r)) p''"
    if "at_page h hdr d r k a p'" for a p'
    unfolding prev_click_def by (rule pg [OF that]) (auto simp: prev_offset_def clamp0_def max_def)
  have "\<exists>p'. first_click h k p = Inr p' \<and> at_page h hdr d r k 0 p'"
    unfolding first_click_def by (rule pg [OF assms(1)]) simp
  moreover have "\<exists>p'. last_click h k p = Inr p' \<and> at_page h hdr d r k (max 0 (int (length d) - r)) p'"
    unfolding last_click_def by (rule pg [OF assms(1)]) (auto simp: last_offset_def clamp0_def max_def)
  moreover have "\<exists>p' p''. next_click h k p = Inr p' \<and> at_page h hdr d r k (off + r) p'
           \<and> prev_click h k p' = Inr p'' \<and> at_page h hdr d r k off p''" if "off + r < int (length d)"
    using next_click_page [OF assms(1) that assms(3,4)] prv [of "off + r"] assms(2) by fastforce
  ultimately show ?thesis using prv [OF assms(1)] by blast
qed

theorem page_buttons_witness:
  "\<exists>d p'. first_click literal_host 0 shown_page = Inr p' \<and> at_page literal_host [''id'', ''state''] d 2 0 0 p'"
proof -
  obtain t' v where r: "render_table literal_host sample = Inr (t', v)"
    "col_sortable (sorttype t' (sortcol sample)) (sort_column [''id'', ''state''] sample [0, 1, 2, 3])"
    using sample_renders .
  have p: "0 < length (tables sample_page)" "0 < length (views sample_page)" "tables sample_page ! 0 = sample"
    by (simp_all add: sample_page_def)
  obtain d where "at_page literal_host [''id'', ''state''] d 2 0 0 shown_page"
    using render_at_page [OF p(1,2), unfolded p(3), OF sample_fresh literal_re_ok r, of 2] sample_page_renders
    by (auto simp: sample_fields)
  from page_buttons [OF this] show ?thesis by auto
qed

section \<open>Filters\<close>



text \<open>The operator switch of a filter field shows one operator; a click moves it to the next
  one, from the last back to the first, and makes exactly that operator the active one.\<close>

theorem op_click_next:
  assumes "fget (tfilters t) i = Some f" "operator f = Some ops" "active_operator f = Some a" "a < length ops"
    and "filter_element hdr td t i f = Inr (Some (TextBox i w (Some labels)))"
  shows "op_click i (map snd labels) t =
    Inr (only_at (length ops) (Suc a mod length ops),
         t\<lparr>tfilters := fput (tfilters t) i (f\<lparr>active_operator := Some (Suc a mod length ops)\<rparr>)\<rparr>)"
proof -
  have "labels = map (\<lambda>n. (ops ! n, active_operator f = Some n)) [0..<length ops]"
    using assms(2,5) by (auto simp: filter_element_def Let_def jbind_Inr_iff split: if_splits)
  then have "map snd labels = only_at (length ops) a"
    using assms(3) by (auto simp: only_at_def)
  with op_cycle_only_at [OF assms(4)] assms(1,3) show ?thesis by (simp add: op_click_def)
qed

definition range_filter :: tfilter where
  "range_filter = (text_filter_of [])\<lparr>operator := Some [''='', ''<'', ''>'', ''><''], active_operator := Some 3\<rparr>"

theorem op_click_next_witness:
  "op_click 0 [False, False, False, True] (sample\<lparr>tfilters := [(0, range_filter)]\<rparr>)
     = Inr (only_at 4 0, sample\<lparr>tfilters := [(0, range_filter\<lparr>active_operator := Some 0\<rparr>)]\<rparr>)"
proof -
  let ?t = "sample\<lparr>tfilters := [(0, range_filter)]\<rparr>"
  have "filter_element [''id''] [] ?t 0 range_filter = Inr (Some (TextBox 0 []
      (Some [(''='', False), (''<'', False), (''>'', False), (''><'', True)])))"
    by (simp add: filter_element_def range_filter_def text_filter_of_def upt_rec)
  from op_click_next [OF _ _ _ _ this, of "[''='', ''<'', ''>'', ''><'']" 3] show ?thesis
    by (simp add: fget_def range_filter_def eval_nat_numeral)
qed

text \<open>C29: The button that clears the filters shows, on a table that navigates itself, the page at the
  current offset of all rows in sorted order.\<close>

theorem clear_shows_all:
  assumes "clear_click h k p = Inr p'" "shared_callback p = NoCallback" "k < length (tables p)" "k < length (views p)"
    and "cur p < length (tables p)" "navigation_url (tables p ! k) = None"
    and "header (tables p ! k) = Some hdr" "tdata (tables p ! k) = Some td" "synchronous (tables p ! k)"
    and "col_sortable (sorttype (tables p' ! k) (sortcol (tables p ! k))) (sort_column hdr (tables p ! k) td)"
  shows "\<exists>v. views p' ! k = Some v \<and> v_offset v = offset (tables p ! k)
    \<and> v_shown v = js_slice (v_offset v) (i_add (v_offset v) (v_rows v))
        (js_sort (row_order hdr ((tables p ! k)\<lparr>sorttype := sorttype (tables p' ! k)\<rparr>)) td)"
proof -
  let ?t = "tables p ! k"
  let ?u = "(clear_filters ?t)\<lparr>is_sorted := False\<rparr>"
  have nf: "\<not> uses_filter ?u"
    by (auto simp: uses_filter_def filter_present_def clear_filters_def list_ex_iff filter_active_def case_prod_unfold)
  have cb: "shared_callback (set_tbl p k (clear_filters ?t)) = NoCallback"
    using assms(2,3,5) by (cases "cur p = k") (simp_all add: shared_callback_def set_tbl_def clear_filters_def)
  obtain t' v where r: "render_table h ?u = Inr (t', v)"
    and p': "p' = p\<lparr>tables := (tables p)[k := t'], views := (views p)[k := Some v], cur := k\<rparr>"
    using assms(1,3) cb
    by (auto simp: clear_click_def via_callback_def tbl_at_def render_def set_tbl_def jbind_Inr_iff)
  have f: "header ?u = Some hdr" "tdata ?u = Some td" "synchronous ?u" "\<not> is_sorted ?u" "sortcol ?u = sortcol ?t"
    "cell (clear_filters ?t) = cell ?t" "sortdir ?u = sortdir ?t" "offset ?u = offset ?t"
    using assms(7-9) by (simp_all add: clear_filters_def cell_def fun_eq_iff)
  have st: "sorttype (tables p' ! k) = sorttype t'" using assms(3) by (simp add: p')
  have "accepts h (g\<lparr>searchword := Some []\<rparr>) x" for g x by (simp add: accepts_def)
  then have acc: "filter (row_accepted h hdr ?u) td = td"
    by (simp add: row_accepted_def clear_filters_def list_all_iff case_prod_unfold)
  have "col_sortable (sorttype t' (sortcol ?u)) (sort_column hdr ?u td)"
    using assms(10) by (simp add: st f sort_column_def)
  from render_table_shows [OF r f(1-4) _ this] nf acc
  have "v_offset v = offset ?t" "v_shown v = js_slice (v_offset v) (i_add (v_offset v) (v_rows v))
        (js_sort (row_order hdr (?u\<lparr>sorttype := sorttype t'\<rparr>)) td)" by (simp_all add: f)
  moreover have "row_order hdr (?u\<lparr>sorttype := sorttype t'\<rparr>) = row_order hdr (?t\<lparr>sorttype := sorttype t'\<rparr>)"
    using f by (intro row_order_cong) auto
  ultimately show ?thesis using assms(4) by (simp add: st) (simp add: p')
qed

definition cleared_page :: tpage where
  "cleared_page = projr (clear_click literal_host 0 sample_page)"

theorem clear_shows_all_witness:
  "\<exists>v. views cleared_page ! 0 = Some v \<and> v_offset v = Some 0
     \<and> v_shown v = js_slice (v_offset v) (i_add (v_offset v) (v_rows v))
        (js_sort (row_order [''id'', ''state''] (sample\<lparr>sorttype := sorttype (tables cleared_page ! 0)\<rparr>)) [0, 1, 2, 3])"
proof -
  have "\<not> isl (clear_click literal_host 0 sample_page)" by code_simp
  then have r: "clear_click literal_host 0 sample_page = Inr cleared_page"
    by (cases "clear_click literal_host 0 sample_page") (auto simp: cleared_page_def)
  have p: "0 < length (tables sample_page)" "0 < length (views sample_page)" "tables sample_page ! 0 = sample"
    "cur sample_page < length (tables sample_page)"
    by (simp_all add: sample_page_def)
  have q: "shared_callback sample_page = NoCallback" "navigation_url sample = None" by code_simp+
  have "sorttype (tables cleared_page ! 0) 0 = None" by code_simp
  moreover have "col_sortable None (sort_column [''id'', ''state''] sample [0, 1, 2, 3])" by code_simp
  ultimately have "col_sortable (sorttype (tables cleared_page ! 0) (sortcol sample)) (sort_column [''id'', ''state''] sample [0, 1, 2, 3])"
    by (simp add: sample_fields)
  from clear_shows_all [OF r q(1) p(1,2,4), unfolded p(3), OF q(2) sample_fields(1,2,3) this] show ?thesis
    by (simp add: sample_fields)
qed

section \<open>Requests of asynchronous tables\<close>

definition remote :: table where
  "remote = default_table\<lparr>header := Some [''id'', ''state''], tdata := Some [], synchronous := False,
     navigation_callback := UpdateCallback, navigation_url := Some ''http://api/job?verbose=1'',
     tquery := array_props [\<lparr>q_searchword = ''done'', q_field = Str ''info.state'', q_comparison = None\<rparr>,
       \<lparr>q_searchword = [], q_field = Str ''info.name'', q_comparison = None\<rparr>],
     sort_field := Some (Str ''info.name''), sort_direction := Some ''asc''\<rparr>"

text \<open>C16: An asynchronous table asks for its URL with exactly one list of parameters: the active
  queries in order, then limit and offset, then order and direction where they are set. The list is
  opened with a question mark only if the URL has none yet.\<close>

theorem update_url_params:
  assumes "navigation_url t = Some base"
  shows "update_url t = Inr (base @ url_sep base @ js_join ''&'' (url_params t))"
  using assms by (rule update_url_join)

theorem update_url_params_witness:
  "update_url remote = Inr (''http://api/job?verbose=1'' @ ''&'' @
     ''info.state=*done*&limit=10&offset=0&order=info.name&direction=asc'')"
proof -
  have "js_join ''&'' (url_params remote) = ''info.state=*done*&limit=10&offset=0&order=info.name&direction=asc''"
    "url_sep ''http://api/job?verbose=1'' = ''&''"
    by code_simp+
  with update_url_params [of remote "''http://api/job?verbose=1''"] show ?thesis by (simp add: remote_def)
qed

text \<open>A server that splits the parameter list at the ampersands reads back the parameters the
  table meant, provided that no search word or column name contains one (they are not encoded).\<close>

theorem url_params_roundtrip:
  assumes "navigation_url t = Some base" "update_url t = Inr url" "list_all (\<lambda>w. CHR ''&'' \<notin> set w) (url_params t)"
  shows "js_split (CHR ''&'') (drop (length base + 1) url) = url_params t"
proof -
  have "url = base @ url_sep base @ js_join ''&'' (url_params t)"
    using update_url_join [OF assms(1)] assms(2) by simp
  then have "drop (length base + 1) url = js_join [CHR ''&''] (url_params t)" by (simp add: url_sep_def)
  then show ?thesis using js_split_join [OF _ assms(3)] by (simp add: url_params_def)
qed

theorem url_params_roundtrip_witness:
  "js_split (CHR ''&'') (drop (length ''http://api/job?verbose=1'' + 1) (projr (update_url remote)))
     = [''info.state=*done*'', ''limit=10'', ''offset=0'', ''order=info.name'', ''direction=asc'']"
proof -
  have "navigation_url remote = Some ''http://api/job?verbose=1''" by (simp add: remote_def)
  moreover from this have "update_url remote = Inr (projr (update_url remote))" by (simp add: update_url_join)
  moreover have p: "url_params remote = [''info.state=*done*'', ''limit=10'', ''offset=0'', ''order=info.name'', ''direction=asc'']"
    by code_simp
  then have "list_all (\<lambda>w. CHR ''&'' \<notin> set w) (url_params remote)" by simp
  ultimately show ?thesis unfolding p [symmetric] by (rule url_params_roundtrip)
qed

section \<open>Where rendering fails\<close>

text \<open>A synchronous table that starts with a search word in one of its filters cannot be rendered
  unless \<^verbatim>\<open>filter_changed\<close> is set as well (its default is false): the filtered data it then
  reads does not exist, and rendering throws.\<close>

theorem preset_search_throws:
  assumes "header t = Some hdr" "tdata t = Some td" "sort_autodetect t = False"
    and "uses_filter t" "\<not> filter_changed t" "filtered_data t = None"
  shows "render_table h t = Inl TypeError"
  using assms
  by (simp add: render_table_def init_header_def parse_data_def detect_sorttypes_def apply_filter_def uses_filter_def)

theorem preset_search_throws_witness:
  "render_table literal_host (sample\<lparr>filter_changed := False\<rparr>) = Inl TypeError"
proof (rule preset_search_throws)
  show "sort_autodetect (sample\<lparr>filter_changed := False\<rparr>) = False" "filtered_data (sample\<lparr>filter_changed := False\<rparr>) = None"
    by code_simp+
qed (use sample_fields in \<open>simp_all add: uses_filter_def\<close>)

text \<open>A visible column whose filter has a type other than text or select (as the premade-select
  filters of the monitor) makes rendering throw when no visible column to its left has a filter.\<close>

theorem unknown_filter_throws:
  assumes "header t = Some hdr" "tdata t = Some td" "sort_autodetect t = False" "\<not> uses_filter t"
    and "filter_autodetect t = False" "i < length hdr" "\<not> invisible_columns t i"
    and "fget (tfilters t) i = Some f" "\<not> known_type f"
    and "\<And>j. j < i \<Longrightarrow> \<not> invisible_columns t j \<Longrightarrow> fget (tfilters t) j = None"
  shows "render_table h t = Inl TypeError"
proof -
  let ?t = "split_raw (init_callback t)"
  have fa: "filter_autodetect ?t = False"
    using assms(5) by (simp add: split_raw_def init_callback_def split: option.split data_src.split list.split)
  have pre: "\<exists>cs. js_foldM (header_cell h hdr td) (?t, [], None) [0..<j] = Inr (?t, cs, None)" if "j \<le> i" for j
    using that
  proof (induction j)
    case (Suc j)
    then obtain cs where "js_foldM (header_cell h hdr td) (?t, [], None) [0..<j] = Inr (?t, cs, None)" by auto
    moreover have "\<exists>cs'. header_cell h hdr td (?t, cs, None) j = Inr (?t, cs', None)"
      using assms(10) [of j] Suc.prems fa by (simp add: header_cell_def detect_filter_def Let_def)
    ultimately show ?case by (auto simp: js_foldM_append)
  qed simp
  obtain cs where cs: "js_foldM (header_cell h hdr td) (?t, [], None) [0..<i] = Inr (?t, cs, None)"
    using pre by blast
  have "header_cell h hdr td (?t, cs, None) i = Inl TypeError"
    using assms(7-9) fa by (simp add: header_cell_def detect_filter_def Let_def filter_element_def known_type_def)
  moreover have "[0..<length hdr] = [0..<i] @ i # [Suc i..<length hdr]"
    using assms(6) upt_add_eq_append [of 0 i "length hdr - i"] by (simp add: upt_conv_Cons)
  ultimately have "header_cells h hdr td ?t = Inl TypeError"
    using cs by (simp add: header_cells_def js_foldM_append)
  moreover have "apply_filter h hdr td ?t = Inr (?t, td)"
    using assms(4) by (auto simp: apply_filter_def uses_filter_def)
  ultimately show ?thesis
    using assms(1-3) by (simp add: render_table_def init_header_def parse_data_def detect_sorttypes_def)
qed

theorem unknown_filter_throws_witness:
  "render_table literal_host (sample\<lparr>tfilters := [(1, (text_filter_of [])\<lparr>ftype := ''premade-select''\<rparr>)]\<rparr>) = Inl TypeError"
proof -
  let ?t = "sample\<lparr>tfilters := [(1, (text_filter_of [])\<lparr>ftype := ''premade-select''\<rparr>)]\<rparr>"
  have a: "sort_autodetect ?t = False" "\<not> uses_filter ?t" "filter_autodetect ?t = False" "\<not> invisible_columns ?t 1"
    by code_simp+
  show ?thesis
    by (rule unknown_filter_throws [OF _ _ a(1-3) _ a(4), where hdr = "[''id'', ''state'']" and td = "[0, 1, 2, 3]"
          and f = "(text_filter_of [])\<lparr>ftype := ''premade-select''\<rparr>"])
       (simp_all add: sample_fields [simplified] fget_def known_type_def)
qed

text \<open>The handlers ask the table that was rendered last for its navigation callback. If that is a
  table with a URL, sorting another table that has none throws.\<close>

theorem sort_other_table_throws:
  assumes "k < length (tables p)" "k \<noteq> cur p" "shared_callback p = UpdateCallback" "navigation_url (tables p ! k) = None"
  shows "sort_click h dir i k p = Inl TypeError"
proof -
  have u: "navigation_url (update_params n t) = navigation_url t" for n t
    by (auto simp: update_params_def update_string_def update_sort_def update_query_def Let_def
        split: nav.split option.split nav_query.split)
  have "shared_callback (set_tbl p k t) = UpdateCallback" for t
    using assms(2,3) by (auto simp: shared_callback_def set_tbl_def split: if_splits)
  then show ?thesis
    using assms(1,4) u by (simp add: sort_click_def tbl_at_def via_callback_def call_nav_def update_def
        set_tbl_def update_url_def Let_def)
qed

theorem sort_other_table_throws_witness:
  "sort_click literal_host ''desc'' 0 0 \<lparr>tables = [sample, remote], views = [None, None], cur = 1, log = []\<rparr> = Inl TypeError"
proof (rule sort_other_table_throws)
  show "navigation_url (tables \<lparr>tables = [sample, remote], views = [None, None], cur = 1, log = []\<rparr> ! 0) = None"
    by (simp add: sample_def loaded_def default_table_def)
qed (simp_all add: shared_callback_def remote_def)

section \<open>Where the table misleads\<close>

text \<open>The goto field of a synchronous table never moves it further than one page: the offset is
  cut off at the number of rows per page instead of the number of rows.\<close>

theorem goto_stops_at_page_size:
  assumes "0 \<le> r"
  shows "goto_offset (Some r) (int_to_string n) = Some (min r (max 0 (n - 1)))"
  using assms by (simp add: goto_offset_def clamp0_def Let_def)

theorem goto_stops_at_page_size_witness: "goto_offset (Some 10) (int_to_string 100) = Some 10"
  using goto_stops_at_page_size [of 10 100] by simp



end
