(* ===== verification/Workflow_Editor.thy ===== *)
theory Workflow_Editor
  imports Js_Values Js_Objects
begin

text \<open>
  The workflow editor (widgets/widget.awe_workflow.js): the workflow document being edited, the form
  with its selection lists, the visual playground of task boxes, and one definition per handler.
  The text area that shows the document holds the document it was written from
  (\<^verbatim>\<open>json_out\<close>); \<^verbatim>\<open>JSON.stringify\<close> and \<^verbatim>\<open>JSON.parse\<close> are between the document and its text.
  A handler that throws has no result; a document that is loaded has all of its sections. The flag
  \<^verbatim>\<open>loading\<close> is set only while \<^verbatim>\<open>parse_workflow\<close> runs, when no change event can arrive, so the
  handlers that test it are described for the other case.
\<close>

section \<open>The document and the form\<close>

record task =
  taskid :: jsval
  cmd_name :: string
  cmd_args :: string
  dependsOn :: "jsval list"
  task_inputs :: "jsval props"
  task_outputs :: "string list"

record wfdata =
  workflow_info :: "jsval props"
  job_info :: "jsval props"
  raw_inputs :: "jsval props"
  data_server :: jsval
  variables :: "jsval props"
  tasks :: "task list"

definition init_data :: wfdata where
  "init_data =
     \<lparr>workflow_info = [(''name'', Str []), (''author'', Str []), (''contact'', Str []), (''update_date'', Str []),
        (''description'', Str [])],
      job_info = [(''jobname'', Str ''#default_jobname''), (''project'', Str ''#default_project''),
        (''user'', Str ''#default_user''), (''queue'', Str ''#default_queue''), (''splits'', Num (Fin 8))],
      raw_inputs = [(''#i_1'', Str ''#data_url'')], data_server = Str ''#shock_host'', variables = [], tasks = []\<rparr>"

text \<open>A selection list: its values and which of them are selected.\<close>

type_synonym opts = "(string \<times> bool) list"

definition options_of :: "string list \<Rightarrow> opts" where
  "options_of vs = map (\<lambda>v. (v, False)) vs"

definition selected_values :: "opts \<Rightarrow> string list" where
  "selected_values os = map fst (filter snd os)"

definition selectedIndex :: "opts \<Rightarrow> nat option" where
  "selectedIndex os = (let k = length (takeWhile (\<lambda>p. \<not> snd p) os) in if k < length os then Some k else None)"

text \<open>A task box of the playground: its colour class, its position as style values, its content and
  the connectors drawn for inputs, outputs and dependencies (title and distance).\<close>

record box =
  box_id :: jsval
  b_class :: string
  b_top :: string
  b_left :: string
  b_name :: string
  b_inputs :: "(string \<times> int) list"
  b_outputs :: "(string \<times> int) list"
  b_deps :: "(string \<times> int) list"

record drag =
  d_x :: int
  d_y :: int
  d_xorig :: int
  d_yorig :: int
  d_elem :: nat

record editor =
  wdata :: wfdata
  winputs :: "string list"
  wtasks :: "jsval props"
  json_out :: wfdata
  wf_fields :: "string props"
  variable_list :: opts
  task_command :: string
  task_args :: string
  task_depends :: opts
  task_input :: opts
  task_output :: opts
  new_output :: string
  task_legend :: string
  edit_active :: bool
  boxes :: "box list"
  curr_box_pos :: "int \<times> int"
  wbox :: "drag option"
  moving :: bool
  walerts :: "string list"
  api_workflows :: "wfdata props"

section \<open>update and add_box\<close>

record date =
  fullYear :: int
  month0 :: nat
  mday :: nat

definition pad2 :: "nat \<Rightarrow> string" where
  "pad2 n = (if n < 10 then ''0'' else []) @ nat_to_string n"

definition datum :: "date \<Rightarrow> string" where
  "datum now = int_to_string (fullYear now) @ ''-'' @ pad2 (month0 now) @ ''-'' @ pad2 (mday now)"

definition wf_update :: "date \<Rightarrow> editor \<Rightarrow> editor" where
  "wf_update now s =
     (let d = (wdata s)\<lparr>workflow_info := oput (workflow_info (wdata s)) ''update_date'' (Str (datum now))\<rparr>
      in s\<lparr>wdata := d, json_out := d\<rparr>)"

text \<open>Where the next box goes: to the right, or to the start of the next line when there is no room
  for another box.\<close>

definition box_size :: int where "box_size = 100"
definition box_padding :: int where "box_padding = 20"
definition playground_width :: int where "playground_width = 699"
definition playground_height :: int where "playground_height = 749"

definition next_box_pos :: "int \<times> int \<Rightarrow> int \<times> int" where
  "next_box_pos pos =
     (let (x, y) = pos
      in if x + box_size * 2 + box_padding * 2 > playground_width
         then (box_padding div 2, y + (box_padding * 2 + box_size))
         else (x + (box_size + box_padding * 2), y))"

definition px :: "int \<Rightarrow> string" where
  "px n = int_to_string n @ ''px''"

definition connectors :: "string list \<Rightarrow> (string \<times> int) list" where
  "connectors ts = zip ts (map (\<lambda>k. 20 + 15 * int k) [0..<length ts])"

definition make_box :: "int \<times> int \<Rightarrow> task \<Rightarrow> box" where
  "make_box pos t =
     \<lparr>box_id = taskid t, b_class = ''taskbox'', b_top = px (snd pos), b_left = px (fst pos), b_name = cmd_name t,
      b_inputs = connectors (map (\<lambda>k. k @ '' ['' @ (case oget (task_inputs t) k of Some v \<Rightarrow> to_string v | None \<Rightarrow> []) @ '']'')
                   (okeys (task_inputs t))),
      b_outputs = connectors (task_outputs t),
      b_deps = connectors (map to_string (dependsOn t))\<rparr>"

definition add_box :: "task \<Rightarrow> editor \<Rightarrow> editor" where
  "add_box t s = s\<lparr>boxes := boxes s @ [make_box (curr_box_pos s) t], curr_box_pos := next_box_pos (curr_box_pos s)\<rparr>"

section \<open>new_task\<close>

text \<open>An entry of the input list, as \<^verbatim>\<open>name [task]\<close>, taken apart.\<close>

definition input_entry :: "string \<Rightarrow> string \<Rightarrow> string" where
  "input_entry fn num = fn @ '' ['' @ num @ '']''"

definition input_ref :: "string \<Rightarrow> string \<times> string" where
  "input_ref val =
     (js_substring val 0 (lastIndexOf (CHR ''['') val - 1),
      js_substring val (lastIndexOf (CHR ''['') val + 1) (lastIndexOf (CHR '']'') val))"

definition collect_inputs :: "opts \<Rightarrow> jsval props" where
  "collect_inputs os = foldl (\<lambda>m v. oput m (fst (input_ref v)) (Str (snd (input_ref v)))) [] (selected_values os)"

definition num_id :: "nat \<Rightarrow> jsval" where
  "num_id n = Num (Fin (of_nat n))"

definition make_task :: "editor \<Rightarrow> task" where
  "make_task s =
     \<lparr>taskid = num_id (length (tasks (wdata s)) + 1), cmd_name = task_command s, cmd_args = task_args s,
      dependsOn = map Str (selected_values (task_depends s)), task_inputs = collect_inputs (task_input s),
      task_outputs = map fst (task_output s)\<rparr>"

definition refresh_lists :: "editor \<Rightarrow> editor" where
  "refresh_lists s = s\<lparr>task_input := options_of (winputs s), task_depends := options_of (okeys (wtasks s))\<rparr>"

definition push_task :: "date \<Rightarrow> editor \<Rightarrow> editor" where
  "push_task now s =
     (let t = make_task s; k = to_string (taskid t)
      in wf_update now (add_box t
           (s\<lparr>winputs := winputs s @ map (\<lambda>v. input_entry v k) (task_outputs t),
              task_args := [], task_command := [], task_output := [],
              wtasks := oput (wtasks s) k (Num (Fin 1)),
              wdata := (wdata s)\<lparr>tasks := tasks (wdata s) @ [t]\<rparr>\<rparr>)))"

definition new_task :: "date \<Rightarrow> editor \<Rightarrow> editor" where
  "new_task now s = refresh_lists (if task_command s \<noteq> [] then push_task now s else s)"

text \<open>The widget before it is displayed, with the form \<^verbatim>\<open>display\<close> writes.\<close>

definition init_editor :: editor where
  "init_editor =
     \<lparr>wdata = init_data, winputs = [''#i_1 [0]''], wtasks = [(''0'', Num (Fin 1))], json_out = init_data, wf_fields = [],
      variable_list = [], task_command = [], task_args = [], task_depends = [], task_input = [], task_output = [],
      new_output = [], task_legend = ''New Task'', edit_active = False, boxes = [], curr_box_pos = (10, 10),
      wbox = None, moving = False, walerts = [], api_workflows = []\<rparr>"

definition display :: "date \<Rightarrow> editor" where
  "display now = new_task now (wf_update now init_editor)"

section \<open>The handlers of the form\<close>

text \<open>The change of one of the fields name, author, contact, description.\<close>

definition change_info :: "date \<Rightarrow> string \<Rightarrow> string \<Rightarrow> editor \<Rightarrow> editor" where
  "change_info now field v s =
     wf_update now (s\<lparr>wf_fields := oput (wf_fields s) field v,
       wdata := (wdata s)\<lparr>workflow_info := oput (workflow_info (wdata s)) field (Str v)\<rparr>\<rparr>)"

definition change_splits :: "date \<Rightarrow> string \<Rightarrow> editor \<Rightarrow> editor" where
  "change_splits now v s =
     (if \<not> i_truthy (parseInt v)
      then s\<lparr>walerts := walerts s @ [''splits must be an integer value''], wf_fields := oput (wf_fields s) ''splits'' []\<rparr>
      else wf_update now (s\<lparr>wf_fields := oput (wf_fields s) ''splits'' v,
             wdata := (wdata s)\<lparr>job_info := oput (job_info (wdata s)) ''splits''
               (case parseInt v of None \<Rightarrow> Num JNaN | Some n \<Rightarrow> Num (double (of_int n)))\<rparr>\<rparr>))"

text \<open>\<^verbatim>\<open>/^#i_\d+ \[0\]$/\<close>\<close>

definition is_raw_entry :: "string \<Rightarrow> bool" where
  "is_raw_entry v =
     (starts_with ''#i_'' v \<and> takeWhile is_digit (drop 3 v) \<noteq> [] \<and> dropWhile is_digit (drop 3 v) = '' [0]'')"

definition raw_name :: "nat \<Rightarrow> string" where
  "raw_name k = ''#i_'' @ nat_to_string k"

definition change_infiles :: "date \<Rightarrow> string \<Rightarrow> editor \<Rightarrow> editor" where
  "change_infiles now v s =
     (case parseInt v of
        None \<Rightarrow> s\<lparr>walerts := walerts s @ [''number of input files must be an integer value''], wf_fields := oput (wf_fields s) ''infiles'' []\<rparr>
      | Some n \<Rightarrow>
          if n = 0
          then s\<lparr>walerts := walerts s @ [''number of input files must be an integer value''], wf_fields := oput (wf_fields s) ''infiles'' []\<rparr>
          else let names = map (\<lambda>i. raw_name (i + 1)) [0..<nat n]
               in new_task now (wf_update now
                    (s\<lparr>wf_fields := oput (wf_fields s) ''infiles'' v,
                       wdata := (wdata s)\<lparr>raw_inputs := foldl (\<lambda>m k. oput m k (Str ''#data_url'')) [] names\<rparr>,
                       winputs := filter (\<lambda>e. \<not> is_raw_entry e) (winputs s) @ map (\<lambda>k. input_entry k ''0'') names\<rparr>)))"

definition variable_add :: "date \<Rightarrow> string \<Rightarrow> string \<Rightarrow> editor \<Rightarrow> editor" where
  "variable_add now name v s =
     (if name \<noteq> [] \<and> v \<noteq> []
      then let vs = oput (variables (wdata s)) name (Str v)
           in wf_update now (s\<lparr>wdata := (wdata s)\<lparr>variables := vs\<rparr>, variable_list := options_of (okeys vs)\<rparr>)
      else s)"

definition variable_remove :: "date \<Rightarrow> editor \<Rightarrow> editor" where
  "variable_remove now s =
     (case selectedIndex (variable_list s) of
        None \<Rightarrow> s
      | Some k \<Rightarrow>
          let vs = odel (variables (wdata s)) (fst (variable_list s ! k))
          in wf_update now (s\<lparr>wdata := (wdata s)\<lparr>variables := vs\<rparr>, variable_list := options_of (okeys vs)\<rparr>))"

definition output_add :: "editor \<Rightarrow> editor" where
  "output_add s =
     (if new_output s \<noteq> [] then s\<lparr>task_output := task_output s @ [(new_output s, False)], new_output := []\<rparr> else s)"

definition output_remove :: "editor \<Rightarrow> editor" where
  "output_remove s =
     (case selectedIndex (task_output s) of None \<Rightarrow> s
      | Some k \<Rightarrow> s\<lparr>task_output := take k (task_output s) @ drop (Suc k) (task_output s)\<rparr>)"

definition add_task_click :: "date \<Rightarrow> editor \<Rightarrow> editor" where
  "add_task_click now s =
     (if task_legend s = ''New Task'' then new_task now s else s\<lparr>walerts := walerts s @ [''editing'']\<rparr>)"

section \<open>Loading a workflow\<close>

definition field_text :: "jsval props \<Rightarrow> string \<Rightarrow> string" where
  "field_text m k = to_html (case oget m k of None \<Rightarrow> Undef | Some v \<Rightarrow> v)"

definition parse_task :: "task \<Rightarrow> editor \<Rightarrow> editor" where
  "parse_task t s =
     (let k = to_string (taskid t)
      in add_box t (s\<lparr>wtasks := oput (wtasks s) k (Num (Fin 1)),
           winputs := winputs s @ map (\<lambda>v. input_entry v k) (task_outputs t)\<rparr>))"

definition parse_workflow :: "date \<Rightarrow> wfdata \<Rightarrow> editor \<Rightarrow> editor" where
  "parse_workflow now d s =
     (let info = oput (workflow_info d) ''splits'' (Num (Fin 8)); n = length (okeys (raw_inputs d));
          s1 = s\<lparr>wdata := d\<lparr>workflow_info := info\<rparr>,
                 wf_fields := foldl (\<lambda>m (k, v). oput m k v) (wf_fields s)
                   ([(k, field_text info k). k \<leftarrow> [''name'', ''author'', ''contact'', ''description'', ''splits'']]
                    @ [(''infiles'', nat_to_string n)]),
                 variable_list := options_of (okeys (variables d)),
                 winputs := map (\<lambda>i. raw_name (i + 1)) [0..<n], wtasks := [(''0'', Num (Fin 1))]\<rparr>
      in wf_update now (refresh_lists (foldl (\<lambda>s t. parse_task t s) s1 (tasks d))))"

text \<open>The answer of the workflow interface, and the button that loads one of its workflows.\<close>

definition receive_workflows :: "wfdata list \<Rightarrow> editor \<Rightarrow> editor" where
  "receive_workflows ds s =
     s\<lparr>api_workflows := foldl (\<lambda>m d. oput m (to_string (case oget (workflow_info d) ''name'' of None \<Rightarrow> Undef | Some v \<Rightarrow> v)) d)
        (api_workflows s) ds\<rparr>"

definition load_workflow_api :: "date \<Rightarrow> string \<Rightarrow> editor \<Rightarrow> editor" where
  "load_workflow_api now name s =
     (case oget (api_workflows s) name of None \<Rightarrow> s | Some d \<Rightarrow> parse_workflow now d s)"

section \<open>The playground\<close>

definition box_elem_id :: "jsval \<Rightarrow> string" where
  "box_elem_id v = ''taskbox'' @ to_string v"

definition find_elem :: "string \<Rightarrow> box list \<Rightarrow> nat option" where
  "find_elem e bs = (let k = length (takeWhile (\<lambda>b. box_elem_id (box_id b) \<noteq> e) bs) in if k < length bs then Some k else None)"

definition set_class :: "string \<Rightarrow> string \<Rightarrow> box list \<Rightarrow> box list js" where
  "set_class e c bs =
     (case find_elem e bs of None \<Rightarrow> throw TypeError | Some k \<Rightarrow> ok (bs[k := (bs ! k)\<lparr>b_class := c\<rparr>]))"

definition own_task :: "task list \<Rightarrow> jsval \<Rightarrow> task js" where
  "own_task ts b = (case filter (\<lambda>t. loose_eq (taskid t) b) ts of [] \<Rightarrow> throw TypeError | t # _ \<Rightarrow> ok t)"

definition last_task :: "task list \<Rightarrow> jsval \<Rightarrow> task js" where
  "last_task ts b = (case rev (filter (\<lambda>t. loose_eq (taskid t) b) ts) of [] \<Rightarrow> throw TypeError | t # _ \<Rightarrow> ok t)"

text \<open>The first loop of \<^verbatim>\<open>mouseover\<close> colours the boxes of the tasks that depend on this one, found by
  position; the second those this one depends on, found by name.\<close>

definition mark_dependors :: "jsval \<Rightarrow> task list \<Rightarrow> box list \<Rightarrow> box list js" where
  "mark_dependors b ts bs =
     js_foldM (\<lambda>bs i. js_foldM (\<lambda>bs d. if loose_eq d b then set_class (''taskbox'' @ nat_to_string (i + 1)) ''taskbox dependor'' bs
                                        else ok bs) bs (dependsOn (ts ! i))) bs [0..<length ts]"

definition mark_dependants :: "jsval list \<Rightarrow> box list \<Rightarrow> box list js" where
  "mark_dependants ds bs =
     js_foldM (\<lambda>bs d. if loose_eq d (Num (Fin 0)) then ok bs else set_class (''taskbox'' @ to_string d) ''taskbox dependant'' bs) bs ds"

definition box_mouseover :: "nat \<Rightarrow> editor \<Rightarrow> editor js" where
  "box_mouseover k s =
     (if k < length (boxes s)
      then let b = box_id (boxes s ! k); ts = tasks (wdata s)
           in jbind (mark_dependors b ts (boxes s)) (\<lambda>bs.
              jbind (last_task ts b) (\<lambda>t.
              jbind (mark_dependants (dependsOn t) bs) (\<lambda>bs'. ok (s\<lparr>boxes := bs'\<rparr>))))
      else throw TypeError)"

definition box_mouseout :: "editor \<Rightarrow> editor js" where
  "box_mouseout s =
     jbind (js_foldM (\<lambda>bs i. set_class (''taskbox'' @ nat_to_string (i + 1)) ''taskbox'' bs) (boxes s) [0..<length (tasks (wdata s))])
       (\<lambda>bs. ok (s\<lparr>boxes := bs\<rparr>))"

text \<open>The click on a box in edit mode fills the form. The loop over the input list reads the value of
  the dependency list at the same position.\<close>

definition reselect :: "(string \<Rightarrow> bool) \<Rightarrow> opts \<Rightarrow> opts" where
  "reselect f os = map (\<lambda>(v, _). (v, f v)) os"

definition reselect_inputs :: "jsval props \<Rightarrow> opts \<Rightarrow> opts \<Rightarrow> opts js" where
  "reselect_inputs ins dep tin =
     js_mapM (\<lambda>i. if i < length dep then ok (fst (tin ! i), has_own ins (fst (dep ! i))) else throw TypeError) [0..<length tin]"

definition box_click :: "nat \<Rightarrow> editor \<Rightarrow> editor js" where
  "box_click k s =
     (if k \<ge> length (boxes s) then throw TypeError
      else if \<not> edit_active s then ok s
      else let b = box_id (boxes s ! k)
           in jbind (own_task (tasks (wdata s)) b) (\<lambda>t.
                let dep = reselect (\<lambda>v. v \<in> set (map to_string (dependsOn t)) \<or> v \<in> set object_proto) (task_depends s)
                in jbind (reselect_inputs (task_inputs t) dep (task_input s)) (\<lambda>tin.
                     ok (s\<lparr>task_legend := ''Edit Task '' @ to_string b, task_command := cmd_name t, task_args := cmd_args t,
                           task_depends := dep, task_input := tin,
                           task_output := reselect (\<lambda>v. v \<in> set (task_outputs t) \<or> v \<in> set object_proto) (task_output s)\<rparr>))))"

text \<open>Dragging a box.\<close>

definition int_or_0 :: "jsint \<Rightarrow> int" where
  "int_or_0 a = (case a of None \<Rightarrow> 0 | Some n \<Rightarrow> n)"

definition mousedown :: "nat \<Rightarrow> int \<Rightarrow> int \<Rightarrow> editor \<Rightarrow> editor js" where
  "mousedown k x y s =
     (if k < length (boxes s)
      then ok (s\<lparr>wbox := Some \<lparr>d_x = x, d_y = y, d_xorig = int_or_0 (parseInt (b_left (boxes s ! k))),
             d_yorig = int_or_0 (parseInt (b_top (boxes s ! k))), d_elem = k\<rparr>, moving := True\<rparr>)
      else throw TypeError)"

definition mousemove :: "int \<Rightarrow> int \<Rightarrow> editor \<Rightarrow> editor js" where
  "mousemove x y s =
     (if \<not> moving s then ok s
      else case wbox s of None \<Rightarrow> throw TypeError
        | Some d \<Rightarrow> ok (s\<lparr>boxes := (boxes s)[d_elem d := (boxes s ! d_elem d)
             \<lparr>b_top := px (d_yorig d + (y - d_y d)), b_left := px (d_xorig d + (x - d_x d))\<rparr>]\<rparr>))"

definition clamp_style :: "int \<Rightarrow> string \<Rightarrow> string" where
  "clamp_style hi v =
     (let v1 = (if i_less (parseInt v) (Some 0) then ''0px'' else v)
      in if i_less (Some hi) (parseInt v1) then px hi else v1)"

definition end_move :: "editor \<Rightarrow> editor" where
  "end_move s =
     (case wbox s of None \<Rightarrow> s
      | Some d \<Rightarrow> s\<lparr>boxes := (boxes s)[d_elem d := (boxes s ! d_elem d)
           \<lparr>b_top := clamp_style 649 (b_top (boxes s ! d_elem d)), b_left := clamp_style 599 (b_left (boxes s ! d_elem d))\<rparr>]\<rparr>)"

definition mouseup :: "editor \<Rightarrow> editor" where
  "mouseup s = end_move (s\<lparr>moving := False\<rparr>)"

section \<open>Events\<close>

text \<open>What a user can do in the editor, apart from loading a workflow: typing, selecting entries of the
  lists, the buttons and the mouse.\<close>

datatype wf_event = TypeCommand string | TypeArgs string | TypeOutput string
  | SelectDepends "nat list" | SelectInput "nat list" | SelectOutput "nat list" | SelectVariable nat
  | ChangeInfo string string | ChangeSplits string | ChangeInfiles string
  | VariableAdd string string | VariableRemove | OutputAdd | OutputRemove | AddTask
  | ToggleEdit | BoxClick nat | BoxOver nat | BoxOut | MouseDown nat int int | MouseMove int int | MouseUp

definition select_at :: "nat list \<Rightarrow> opts \<Rightarrow> opts" where
  "select_at ks os = map (\<lambda>i. (fst (os ! i), i \<in> set ks)) [0..<length os]"

fun handle :: "date \<Rightarrow> wf_event \<Rightarrow> editor \<Rightarrow> editor js" where
  "handle now (TypeCommand v) s = ok (s\<lparr>task_command := v\<rparr>)"
| "handle now (TypeArgs v) s = ok (s\<lparr>task_args := v\<rparr>)"
| "handle now (TypeOutput v) s = ok (s\<lparr>new_output := v\<rparr>)"
| "handle now (SelectDepends ks) s = ok (s\<lparr>task_depends := select_at ks (task_depends s)\<rparr>)"
| "handle now (SelectInput ks) s = ok (s\<lparr>task_input := select_at ks (task_input s)\<rparr>)"
| "handle now (SelectOutput ks) s = ok (s\<lparr>task_output := select_at ks (task_output s)\<rparr>)"
| "handle now (SelectVariable k) s = ok (s\<lparr>variable_list := select_at [k] (variable_list s)\<rparr>)"
| "handle now (ChangeInfo f v) s = ok (change_info now f v s)"
| "handle now (ChangeSplits v) s = ok (change_splits now v s)"
| "handle now (ChangeInfiles v) s = ok (change_infiles now v s)"
| "handle now (VariableAdd n v) s = ok (variable_add now n v s)"
| "handle now VariableRemove s = ok (variable_remove now s)"
| "handle now OutputAdd s = ok (output_add s)"
| "handle now OutputRemove s = ok (output_remove s)"
| "handle now AddTask s = ok (add_task_click now s)"
| "handle now ToggleEdit s = ok (s\<lparr>edit_active := \<not> edit_active s\<rparr>)"
| "handle now (BoxClick k) s = box_click k s"
| "handle now (BoxOver k) s = box_mouseover k s"
| "handle now BoxOut s = box_mouseout s"
| "handle now (MouseDown k x y) s = mousedown k x y s"
| "handle now (MouseMove x y) s = mousemove x y s"
| "handle now MouseUp s = ok (mouseup s)"

inductive wf_step :: "editor \<Rightarrow> editor \<Rightarrow> bool" where
  event: "handle now ev s = Inr s' \<Longrightarrow> wf_step s s'"

end
