(* ===== verification/Workflow_Correct.thy ===== *)
theory Workflow_Correct
  imports Workflow_Editor
begin

text \<open>
  What every session of the workflow editor keeps: the tasks are numbered in order, depend only on
  earlier tasks and read only raw inputs or outputs of earlier tasks; every task has its box; the
  text shown is the document. Also the placement and dragging of boxes and the marking of
  dependencies.
\<close>

section \<open>Task numbers as texts\<close>

lemma to_string_num_id: "n \<le> 2 ^ 53 \<Longrightarrow> to_string (num_id n) = nat_to_string n"
  by (simp add: num_id_def int_to_string_def)

lemma trim_digits: "\<forall>c \<in> set s. is_digit c \<Longrightarrow> trim s = s"
proof -
  assume d: "\<forall>c \<in> set s. is_digit c"
  have dw: "dropWhile is_space t = t" if "\<forall>c \<in> set t. is_digit c" for t
    using that by (cases t) (auto simp: digit_not_space)
  show ?thesis unfolding trim_def using dw [of s] dw [of "rev s"] d by simp
qed

lemma string_to_number_nat:
  assumes "n \<le> 2 ^ 53"
  shows "string_to_number (nat_to_string n) = Fin (of_nat n)"
proof -
  let ?s = "nat_to_string n"
  note dg = nat_to_string_digits [of n]
  have ne: "?s \<noteq> []" and hd: "is_digit (hd ?s)" by (simp_all add: hd_nat_to_string_digit)
  have pre: "take 2 ?s \<noteq> p" if "set p \<inter> Collect is_digit \<noteq> set p" for p
    using dg that by (metis Int_commute Int_absorb1 in_set_takeD mem_Collect_eq subsetI)
  have pr: "take 2 ?s \<noteq> ''0x''" "take 2 ?s \<noteq> ''0X''" "take 2 ?s \<noteq> ''0o''" "take 2 ?s \<noteq> ''0O''" "take 2 ?s \<noteq> ''0b''"
    "take 2 ?s \<noteq> ''0B''"
    by (rule pre; simp add: is_digit_def; auto)+
  have inf: "?s \<noteq> ''Infinity''" using dg by (auto simp: is_digit_def)
  have "double (of_nat n) = Fin (of_nat n)" using double_of_int [of "int n"] assms by simp
  then show ?thesis
    using ne pr inf by (simp add: unsigned_decimal_nat_to_string string_to_number_def Let_def trim_digits [OF dg] strip_sign_digit [OF ne hd])
qed

lemma loose_eq_num_id:
  assumes "m \<le> 2 ^ 53"
  shows "loose_eq (Str (nat_to_string m)) (num_id n) \<longleftrightarrow> m = n"
  using string_to_number_nat [OF assms] by (simp add: loose_eq_def num_id_def nullish_def num_eq_def)

lemma loose_eq_num_ids: "loose_eq (num_id m) (num_id n) \<longleftrightarrow> m = n"
  by (simp add: num_id_def num_eq_def)

section \<open>Entries of the input list\<close>

lemma input_ref_entry:
  assumes "CHR ''['' \<notin> set num" "CHR '']'' \<notin> set num"
  shows "input_ref (input_entry fn num) = (fn, num)"
proof -
  let ?v = "input_entry fn num"
  have l: "lastIndexOf (CHR ''['') ?v = int (length fn) + 1"
    using lastIndexOf_snoc_part [of "CHR ''[''" "num @ '']''" "fn @ '' ''"] assms(1) by (simp add: input_entry_def)
  have r: "lastIndexOf (CHR '']'') ?v = int (length fn) + 2 + int (length num)"
    using lastIndexOf_snoc_part [of "CHR '']''" "[]" "fn @ '' ['' @ num"] by (simp add: input_entry_def)
  have "js_substring ?v 0 (int (length fn)) = fn"
    using js_substring_prefix [of fn "'' ['' @ num @ '']''"] by (simp add: input_entry_def)
  moreover have "js_substring ?v (2 + int (length fn)) (int (length fn) + 2 + int (length num)) = num"
    using js_substring_middle [of "fn @ '' [''" num "'']''"] by (simp add: input_entry_def algebra_simps)
  ultimately show ?thesis by (simp add: input_ref_def l r)
qed

lemma nat_to_string_brackets: "CHR ''['' \<notin> set (nat_to_string n)" "CHR '']'' \<notin> set (nat_to_string n)"
  using nat_to_string_digits [of n] by (auto simp: is_digit_def)

lemma input_ref_nat: "input_ref (input_entry fn (nat_to_string n)) = (fn, nat_to_string n)"
  by (rule input_ref_entry) (simp_all add: nat_to_string_brackets)

section \<open>The invariant of a session\<close>

text \<open>Box number \<^verbatim>\<open>n\<close> (from 0) is placed in a grid of five columns.\<close>

definition grid :: "nat \<Rightarrow> int \<times> int" where
  "grid n = (10 + 140 * int (n mod 5), 10 + 140 * int (n div 5))"

lemma next_box_pos_grid: "next_box_pos (grid n) = grid (Suc n)"
proof (cases "n mod 5 = 4")
  case True
  then have "Suc n mod 5 = 0" "Suc n div 5 = Suc (n div 5)" by presburger+
  with True show ?thesis
    by (simp add: grid_def next_box_pos_def box_size_def box_padding_def playground_width_def)
next
  case False
  then have "Suc n mod 5 = Suc (n mod 5)" "Suc n div 5 = n div 5" "n mod 5 \<le> 3" by presburger+
  then show ?thesis
    by (simp add: grid_def next_box_pos_def box_size_def box_padding_def playground_width_def)
qed

text \<open>A file a task may read: a raw input, or an output of one of the first \<^verbatim>\<open>n\<close> tasks, with the
  number of the task that writes it.\<close>

definition earlier_entry :: "task list \<Rightarrow> nat \<Rightarrow> string \<Rightarrow> string \<Rightarrow> bool" where
  "earlier_entry ts n fn num \<longleftrightarrow>
     (num = nat_to_string 0 \<and> (\<exists>r. fn = raw_name r)) \<or> (\<exists>j<n. num = nat_to_string (Suc j) \<and> fn \<in> set (task_outputs (ts ! j)))"

definition entries_ok :: "task list \<Rightarrow> string list \<Rightarrow> bool" where
  "entries_ok ts es \<longleftrightarrow> (\<forall>e \<in> set es. \<exists>fn num. e = input_entry fn num \<and> earlier_entry ts (length ts) fn num)"

definition task_ok :: "task list \<Rightarrow> nat \<Rightarrow> bool" where
  "task_ok ts i \<longleftrightarrow>
     taskid (ts ! i) = num_id (Suc i) \<and> (\<forall>d \<in> set (dependsOn (ts ! i)). \<exists>j\<le>i. d = Str (nat_to_string j))
     \<and> (\<forall>k v. oget (task_inputs (ts ! i)) k = Some v \<longrightarrow> (\<exists>num. v = Str num \<and> earlier_entry ts i k num))"

definition consistent_editor :: "editor \<Rightarrow> bool" where
  "consistent_editor s \<longleftrightarrow>
     (\<forall>i<length (tasks (wdata s)). task_ok (tasks (wdata s)) i)
     \<and> entries_ok (tasks (wdata s)) (winputs s) \<and> entries_ok (tasks (wdata s)) (map fst (task_input s))
     \<and> (\<forall>k. has_own (wtasks s) k \<longleftrightarrow> (\<exists>j\<le>length (tasks (wdata s)). k = nat_to_string j))
     \<and> fst ` set (task_depends s) \<subseteq> nat_to_string ` {..length (tasks (wdata s))}
     \<and> map box_id (boxes s) = map (\<lambda>i. num_id (Suc i)) [0..<length (tasks (wdata s))]
     \<and> curr_box_pos s = grid (length (tasks (wdata s)))
     \<and> (\<forall>d. wbox s = Some d \<longrightarrow> d_elem d < length (tasks (wdata s)))"

definition built :: "editor \<Rightarrow> bool" where
  "built s \<longleftrightarrow> consistent_editor s \<and> json_out s = wdata s"

lemma earlier_entry_mono:
  "earlier_entry ts n fn num \<Longrightarrow> n \<le> length ts \<Longrightarrow> n \<le> m \<Longrightarrow> earlier_entry (ts @ us) m fn num"
  unfolding earlier_entry_def by (force simp: nth_append)

lemma entries_ok_snoc: "entries_ok ts es \<Longrightarrow> entries_ok (ts @ [t]) es"
  unfolding entries_ok_def using earlier_entry_mono [of ts "length ts" _ _ "Suc (length ts)" "[t]"] by fastforce

lemma entries_ok_append [simp]: "entries_ok ts (es @ fs) \<longleftrightarrow> entries_ok ts es \<and> entries_ok ts fs"
  by (auto simp: entries_ok_def)

lemma entries_ok_filter: "entries_ok ts es \<Longrightarrow> entries_ok ts (filter P es)"
  by (simp add: entries_ok_def)

lemma task_ok_snoc: "task_ok ts i \<Longrightarrow> i < length ts \<Longrightarrow> task_ok (ts @ [t]) i"
proof -
  assume a: "task_ok ts i" "i < length ts"
  then have "earlier_entry ts i k num \<Longrightarrow> earlier_entry (ts @ [t]) i k num" for k num
    using earlier_entry_mono [of ts i k num i "[t]"] by simp
  moreover have "(ts @ [t]) ! i = ts ! i" using a(2) by (simp add: nth_append)
  ultimately show ?thesis using a(1) unfolding task_ok_def by metis
qed

lemma fst_options_of [simp]: "map fst (options_of vs) = vs" "fst ` set (options_of vs) = set vs"
  by (auto simp: options_of_def comp_def image_image)

lemma map_fst_select_at [simp]: "map fst (select_at ks os) = map fst os" "fst ` set (select_at ks os) = fst ` set os"
proof -
  show e: "map fst (select_at ks os) = map fst os"
    by (intro nth_equalityI) (auto simp: select_at_def)
  then show "fst ` set (select_at ks os) = fst ` set os" by (metis list.set_map)
qed

lemma map_fst_reselect [simp]: "map fst (reselect f os) = map fst os" "fst ` set (reselect f os) = fst ` set os"
  by (auto simp: reselect_def case_prod_unfold comp_def image_image)

lemma selected_values_sub: "set (selected_values os) \<subseteq> fst ` set os"
  by (auto simp: selected_values_def)

text \<open>What the selected inputs of a new task are.\<close>

lemma collect_inputs_ok:
  assumes "entries_ok ts (map fst os)" "oget (collect_inputs os) k = Some v"
  shows "\<exists>num. v = Str num \<and> earlier_entry ts (length ts) k num"
proof -
  let ?f = "\<lambda>e. fst (input_ref e)" and ?g = "\<lambda>e. Str (snd (input_ref e))"
  have "\<exists>e \<in> set es. k = ?f e \<and> v = ?g e"
    if "oget (foldl (\<lambda>m e. oput m (?f e) (?g e)) m es) k = Some v" "oget m k = None" for es and m :: "jsval props"
    using that
  proof (induction es rule: rev_induct)
    case (snoc e es)
    then show ?case by (cases "k = ?f e") (auto simp: oget_oput)
  qed simp
  from this [of "[]" "selected_values os"] assms(2)
  obtain e where e: "e \<in> set (selected_values os)" "k = ?f e" "v = ?g e" by (auto simp: collect_inputs_def)
  then have "e \<in> set (map fst os)" using selected_values_sub by auto
  then obtain fn num where en: "e = input_entry fn num" "earlier_entry ts (length ts) fn num"
    using assms(1) by (auto simp: entries_ok_def)
  then obtain j where "num = nat_to_string j" by (auto simp: earlier_entry_def)
  with e en show ?thesis by (simp add: input_ref_nat)
qed

lemma update_built: "consistent_editor s \<Longrightarrow> built (wf_update now s)"
  by (simp add: built_def consistent_editor_def wf_update_def Let_def)

lemma built_consistent: "built s \<Longrightarrow> consistent_editor s"
  by (simp add: built_def)

lemma refresh_consistent: "consistent_editor s \<Longrightarrow> consistent_editor (refresh_lists s)"
proof -
  assume c: "consistent_editor s"
  then have "set (okeys (wtasks s)) \<subseteq> nat_to_string ` {..length (tasks (wdata s))}"
    by (auto simp: consistent_editor_def okeys_set)
  with c show ?thesis by (simp add: consistent_editor_def refresh_lists_def)
qed

lemma refresh_built: "built s \<Longrightarrow> built (refresh_lists s)"
  using refresh_consistent by (auto simp: built_def refresh_lists_def)

lemma make_task_ok:
  assumes "consistent_editor s"
  shows "task_ok (tasks (wdata s) @ [make_task s]) (length (tasks (wdata s)))"
proof -
  let ?ts = "tasks (wdata s)"
  have "\<exists>j\<le>length ?ts. d = nat_to_string j" if "d \<in> set (selected_values (task_depends s))" for d
  proof -
    have "d \<in> nat_to_string ` {..length ?ts}"
      using subsetD [OF selected_values_sub that] assms [unfolded consistent_editor_def] by (meson subsetD)
    then show ?thesis by auto
  qed
  moreover have "\<exists>num. v = Str num \<and> earlier_entry (?ts @ [make_task s]) (length ?ts) k num"
    if kv: "oget (collect_inputs (task_input s)) k = Some v" for k v
  proof -
    have "entries_ok ?ts (map fst (task_input s))" using assms by (simp add: consistent_editor_def)
    from collect_inputs_ok [OF this kv] show ?thesis
      using earlier_entry_mono [of ?ts "length ?ts" _ _ "length ?ts" "[make_task s]"] by blast
  qed
  ultimately show ?thesis by (simp add: task_ok_def nth_append) (auto simp: make_task_def)
qed

lemma push_task_built:
  assumes c: "consistent_editor s" and n: "length (tasks (wdata s)) < 2 ^ 53"
  shows "built (push_task now s)"
proof -
  let ?ts = "tasks (wdata s)" and ?t = "make_task s"
  have k: "to_string (taskid ?t) = nat_to_string (Suc (length ?ts))"
    using to_string_num_id [of "Suc (length ?ts)"] n by (simp add: make_task_def)
  have new: "entries_ok (?ts @ [?t]) (map (\<lambda>v. input_entry v (nat_to_string (Suc (length ?ts)))) (task_outputs ?t))"
  proof -
    have "earlier_entry (?ts @ [?t]) (Suc (length ?ts)) v (nat_to_string (Suc (length ?ts)))" if "v \<in> set (task_outputs ?t)" for v
      unfolding earlier_entry_def using that by (intro disjI2 exI [of _ "length ?ts"]) simp
    then show ?thesis by (auto simp: entries_ok_def)
  qed
  have "task_ok (?ts @ [?t]) i" if "i < Suc (length ?ts)" for i
    using that c make_task_ok [OF c] task_ok_snoc [of ?ts i ?t] by (auto simp: consistent_editor_def less_Suc_eq)
  moreover have "(\<exists>j\<le>Suc (length ?ts). x = nat_to_string j) \<longleftrightarrow> x = nat_to_string (Suc (length ?ts)) \<or> (\<exists>j\<le>length ?ts. x = nat_to_string j)" for x
    by (auto simp: le_Suc_eq)
  moreover have "nat_to_string ` {..length ?ts} \<subseteq> nat_to_string ` {..Suc (length ?ts)}" by auto
  ultimately have "consistent_editor (add_box ?t
           (s\<lparr>winputs := winputs s @ map (\<lambda>v. input_entry v (nat_to_string (Suc (length ?ts)))) (task_outputs ?t),
              task_args := [], task_command := [], task_output := [],
              wtasks := oput (wtasks s) (nat_to_string (Suc (length ?ts))) (Num (Fin 1)),
              wdata := (wdata s)\<lparr>tasks := ?ts @ [?t]\<rparr>\<rparr>))"
    using c new entries_ok_snoc [of ?ts _ ?t]
    unfolding consistent_editor_def
    by (auto simp: add_box_def make_box_def has_own_def oget_oput next_box_pos_grid make_task_def less_Suc_eq subset_eq)
  then show ?thesis unfolding push_task_def Let_def k by (rule update_built)
qed

lemma new_task_built:
  assumes "built s" "length (tasks (wdata (new_task now s))) \<le> 2 ^ 53"
  shows "built (new_task now s)"
proof (cases "task_command s = []")
  case True
  with assms show ?thesis by (simp add: new_task_def refresh_built)
next
  case False
  then have "tasks (wdata (new_task now s)) = tasks (wdata s) @ [make_task s]"
    by (simp add: new_task_def refresh_lists_def push_task_def wf_update_def add_box_def Let_def)
  with assms have "built (push_task now s)" by (intro push_task_built) (auto simp: built_consistent)
  with False show ?thesis by (simp add: new_task_def refresh_built)
qed

lemma task_ids:
  "(\<And>i. i < length ts \<Longrightarrow> task_ok ts i) \<Longrightarrow> map taskid ts = map (\<lambda>i. num_id (Suc i)) [0..<length ts]"
  by (intro nth_equalityI) (auto simp: task_ok_def)

section \<open>Every event keeps it\<close>

lemma built_length: "built s \<Longrightarrow> length (boxes s) = length (tasks (wdata s))"
proof -
  assume "built s"
  then have "map box_id (boxes s) = map (\<lambda>i. num_id (Suc i)) [0..<length (tasks (wdata s))]"
    by (simp add: built_def consistent_editor_def)
  from arg_cong [OF this, of length] show ?thesis by simp
qed

lemma nat_to_string_0 [simp]: "nat_to_string 0 = ''0''"
  by code_simp

lemma built_frame:
  assumes "built s" "tasks (wdata s') = tasks (wdata s)" "json_out s' = wdata s'" "winputs s' = winputs s" "wtasks s' = wtasks s"
    and "map fst (task_input s') = map fst (task_input s)" "fst ` set (task_depends s') = fst ` set (task_depends s)"
    and "map box_id (boxes s') = map box_id (boxes s)" "curr_box_pos s' = curr_box_pos s"
    and "\<And>d. wbox s' = Some d \<Longrightarrow> d_elem d < length (boxes s)"
  shows "built s'"
  using assms built_length [OF assms(1)] unfolding built_def consistent_editor_def by simp

lemma built_wbox: "built s \<Longrightarrow> wbox s = Some d \<Longrightarrow> d_elem d < length (boxes s)"
  using built_length [of s] by (simp add: built_def consistent_editor_def)

lemma built_json: "built s \<Longrightarrow> json_out s = wdata s"
  by (simp add: built_def)

lemma change_infiles_built:
  assumes "built s" "length (tasks (wdata (change_infiles now v s))) \<le> 2 ^ 53"
  shows "built (change_infiles now v s)"
proof (cases "\<exists>n. parseInt v = Some n \<and> n \<noteq> 0")
  case False
  then have "change_infiles now v s = s\<lparr>walerts := walerts s @ [''number of input files must be an integer value''],
      wf_fields := oput (wf_fields s) ''infiles'' []\<rparr>"
    by (auto simp: change_infiles_def split: option.split)
  then show ?thesis using assms(1) by (intro built_frame [OF assms(1)]) (auto simp: built_json built_wbox)
next
  case True
  then obtain n where n: "parseInt v = Some n" "n \<noteq> 0" by blast
  let ?names = "map (\<lambda>i. raw_name (i + 1)) [0..<nat n]"
  let ?u = "s\<lparr>wf_fields := oput (wf_fields s) ''infiles'' v,
      wdata := (wdata s)\<lparr>raw_inputs := foldl (\<lambda>m k. oput m k (Str ''#data_url'')) [] ?names\<rparr>,
      winputs := filter (\<lambda>e. \<not> is_raw_entry e) (winputs s) @ map (\<lambda>k. input_entry k ''0'') ?names\<rparr>"
  have e: "change_infiles now v s = new_task now (wf_update now ?u)"
    using n by (simp add: change_infiles_def Let_def)
  have "earlier_entry (tasks (wdata s)) (length (tasks (wdata s))) (raw_name k) ''0''" for k
    by (auto simp: earlier_entry_def)
  then have "entries_ok (tasks (wdata s)) (map (\<lambda>k. input_entry k ''0'') ?names)"
    by (auto simp: entries_ok_def)
  then have "consistent_editor ?u"
    using assms(1) entries_ok_filter by (simp add: built_def consistent_editor_def)
  then have "built (wf_update now ?u)" by (rule update_built)
  then show ?thesis using assms(2) unfolding e by (rule new_task_built)
qed

lemma set_class_ids: "set_class e c bs = Inr bs' \<Longrightarrow> map box_id bs' = map box_id bs"
  by (auto simp: set_class_def map_same_update split: option.splits)

lemma foldM_ids:
  assumes "js_foldM f bs xs = Inr bs'" "\<And>bs x bs'. f bs x = Inr bs' \<Longrightarrow> map box_id bs' = map box_id bs"
  shows "map box_id bs' = map box_id bs"
  using assms(1) by (induction xs arbitrary: bs) (auto simp: jbind_Inr_iff dest: assms(2))

lemma mark_ids:
  "mark_dependors b ts bs = Inr bs' \<Longrightarrow> map box_id bs' = map box_id bs"
  "mark_dependants ds bs = Inr bs' \<Longrightarrow> map box_id bs' = map box_id bs"
  unfolding mark_dependors_def mark_dependants_def
  by (erule foldM_ids, erule foldM_ids, auto split: if_splits dest: set_class_ids)
     (erule foldM_ids, auto split: if_splits dest: set_class_ids)

lemma reselect_inputs_fst: "reselect_inputs ins dep tin = Inr tin' \<Longrightarrow> map fst tin' = map fst tin"
proof -
  assume r: "reselect_inputs ins dep tin = Inr tin'"
  let ?f = "\<lambda>i. if i < length dep then ok (fst (tin ! i), has_own ins (fst (dep ! i))) else throw TypeError"
  have "map fst ys = map (\<lambda>i. fst (tin ! i)) xs" if "js_mapM ?f xs = Inr ys" for xs ys
    using that by (induction xs arbitrary: ys) (auto simp: jbind_Inr_iff split: if_splits)
  from this [OF r [unfolded reselect_inputs_def]] show ?thesis
    by (auto intro: nth_equalityI)
qed

lemma mouse_built:
  assumes "built s"
  shows "mousedown k x y s = Inr s' \<Longrightarrow> built s'" "mousemove x y s = Inr s' \<Longrightarrow> built s'" "built (mouseup s)"
    "box_mouseout s = Inr s' \<Longrightarrow> built s'" "box_mouseover k s = Inr s' \<Longrightarrow> built s'" "box_click k s = Inr s' \<Longrightarrow> built s'"
proof -
  show "mousedown k x y s = Inr s' \<Longrightarrow> built s'"
    by (rule built_frame [OF assms]) (auto simp: mousedown_def built_json [OF assms] split: if_splits)
  show "mousemove x y s = Inr s' \<Longrightarrow> built s'"
    by (rule built_frame [OF assms])
       (use assms in \<open>auto simp: mousemove_def built_json map_same_update built_wbox split: if_splits option.splits\<close>)
  show "built (mouseup s)"
    by (rule built_frame [OF assms])
       (auto simp: mouseup_def end_move_def built_json [OF assms] map_same_update built_wbox [OF assms] split: option.splits)
  show "box_mouseout s = Inr s' \<Longrightarrow> built s'"
    by (rule built_frame [OF assms])
       (auto simp: box_mouseout_def built_json [OF assms] built_wbox [OF assms] jbind_Inr_iff
         elim!: foldM_ids intro: set_class_ids)
  show "box_mouseover k s = Inr s' \<Longrightarrow> built s'"
    by (rule built_frame [OF assms])
       (auto simp: box_mouseover_def built_json [OF assms] built_wbox [OF assms] jbind_Inr_iff Let_def mark_ids split: if_splits)
  show "built s'" if click: "box_click k s = Inr s'"
  proof (cases "edit_active s")
    case True
    then obtain tin and t :: task where tin: "reselect_inputs (task_inputs t)
        (reselect (\<lambda>v. v \<in> to_string ` set (dependsOn t) \<or> v \<in> set object_proto) (task_depends s)) (task_input s) = Inr tin"
      and s': "s' = s\<lparr>task_legend := ''Edit Task '' @ to_string (box_id (boxes s ! k)), task_command := cmd_name t, task_args := cmd_args t,
         task_depends := reselect (\<lambda>v. v \<in> to_string ` set (dependsOn t) \<or> v \<in> set object_proto) (task_depends s), task_input := tin,
         task_output := reselect (\<lambda>v. v \<in> set (task_outputs t) \<or> v \<in> set object_proto) (task_output s)\<rparr>"
      using click by (auto simp: box_click_def jbind_Inr_iff Let_def split: if_splits)
    show ?thesis
      unfolding s' by (rule built_frame [OF assms]) (simp_all add: built_json [OF assms] built_wbox [OF assms] reselect_inputs_fst [OF tin])
  next
    case False
    with click assms show ?thesis by (auto simp: box_click_def split: if_splits)
  qed
qed

lemma tasks_update [simp]: "tasks (wdata (wf_update now s)) = tasks (wdata s)"
  by (simp add: wf_update_def Let_def)

lemma new_task_grows: "length (tasks (wdata s)) \<le> length (tasks (wdata (new_task now s)))"
  by (simp add: new_task_def refresh_lists_def push_task_def add_box_def Let_def)

lemma infiles_grows: "length (tasks (wdata s)) \<le> length (tasks (wdata (change_infiles now v s)))"
proof -
  have "length (tasks (wdata s)) \<le> length (tasks (wdata (new_task now (wf_update now u))))"
    if "tasks (wdata u) = tasks (wdata s)" for u
    using new_task_grows [of "wf_update now u" now] that by simp
  then show ?thesis by (simp add: change_infiles_def Let_def split: option.split)
qed

lemma tasks_grow:
  assumes "handle now ev s = Inr s'"
  shows "length (tasks (wdata s)) \<le> length (tasks (wdata s'))"
proof (cases ev)
  case (ChangeInfiles v)
  with assms infiles_grows show ?thesis by auto
next
  case AddTask
  with assms new_task_grows show ?thesis by (auto simp: add_task_click_def)
qed (use assms in \<open>auto simp: change_info_def change_splits_def variable_add_def variable_remove_def
      output_add_def output_remove_def box_click_def box_mouseover_def box_mouseout_def mousedown_def
      mousemove_def mouseup_def end_move_def jbind_Inr_iff Let_def split: if_splits option.splits\<close>)

lemma handle_built:
  assumes "built s" "handle now ev s = Inr s'" "length (tasks (wdata s')) \<le> 2 ^ 53"
  shows "built s'"
proof -
  have frame: "built (f s)" if "tasks (wdata (f s)) = tasks (wdata s)" "json_out (f s) = wdata (f s)" "winputs (f s) = winputs s" "wtasks (f s) = wtasks s"
    "map fst (task_input (f s)) = map fst (task_input s)" "fst ` set (task_depends (f s)) = fst ` set (task_depends s)"
    "boxes (f s) = boxes s" "curr_box_pos (f s) = curr_box_pos s" "wbox (f s) = wbox s" for f
    using that by (intro built_frame [OF assms(1)]) (auto simp: built_wbox [OF assms(1)])
  note j = built_json [OF assms(1)]
  show ?thesis
  proof (cases ev)
    case (ChangeInfiles v)
    with assms show ?thesis by (auto intro: change_infiles_built)
  next
    case AddTask
    with assms show ?thesis
      using frame [of "\<lambda>s. s\<lparr>walerts := walerts s @ [''editing'']\<rparr>"]
      by (auto simp: add_task_click_def j intro: new_task_built split: if_splits)
  next
    case (ChangeInfo f v)
    with assms(2) show ?thesis using frame [of "change_info now f v"] by (auto simp: change_info_def wf_update_def Let_def)
  next
    case (ChangeSplits v)
    with assms(2) show ?thesis using frame [of "change_splits now v"] j by (auto simp: change_splits_def wf_update_def Let_def)
  next
    case (VariableAdd n v)
    with assms(2) show ?thesis using frame [of "variable_add now n v"] j by (auto simp: variable_add_def wf_update_def Let_def)
  next
    case VariableRemove
    with assms(2) show ?thesis using frame [of "variable_remove now"] j
      by (auto simp: variable_remove_def wf_update_def Let_def split: option.splits)
  next
    case OutputAdd
    with assms(2) show ?thesis using frame [of output_add] j by (auto simp: output_add_def split: if_splits)
  next
    case OutputRemove
    with assms(2) show ?thesis using frame [of output_remove] j by (auto simp: output_remove_def split: option.splits)
  next
    case (TypeCommand v)
    with assms(2) show ?thesis using frame [of "\<lambda>s. s\<lparr>task_command := v\<rparr>"] j by auto
  next
    case (TypeArgs v)
    with assms(2) show ?thesis using frame [of "\<lambda>s. s\<lparr>task_args := v\<rparr>"] j by auto
  next
    case (TypeOutput v)
    with assms(2) show ?thesis using frame [of "\<lambda>s. s\<lparr>new_output := v\<rparr>"] j by auto
  next
    case (SelectDepends ks)
    with assms(2) show ?thesis using frame [of "\<lambda>s. s\<lparr>task_depends := select_at ks (task_depends s)\<rparr>"] j by auto
  next
    case (SelectInput ks)
    with assms(2) show ?thesis using frame [of "\<lambda>s. s\<lparr>task_input := select_at ks (task_input s)\<rparr>"] j by auto
  next
    case (SelectOutput ks)
    with assms(2) show ?thesis using frame [of "\<lambda>s. s\<lparr>task_output := select_at ks (task_output s)\<rparr>"] j by auto
  next
    case (SelectVariable k)
    with assms(2) show ?thesis using frame [of "\<lambda>s. s\<lparr>variable_list := select_at [k] (variable_list s)\<rparr>"] j by auto
  next
    case ToggleEdit
    with assms(2) show ?thesis using frame [of "\<lambda>s. s\<lparr>edit_active := \<not> edit_active s\<rparr>"] j by auto
  qed (use assms(2) mouse_built [OF assms(1)] in auto)
qed

section \<open>Marking dependencies\<close>

definition paint :: "nat set \<Rightarrow> string \<Rightarrow> box list \<Rightarrow> box list" where
  "paint I c bs = map (\<lambda>i. if i \<in> I then (bs ! i)\<lparr>b_class := c\<rparr> else bs ! i) [0..<length bs]"

definition numbered :: "nat \<Rightarrow> box list \<Rightarrow> bool" where
  "numbered n bs \<longleftrightarrow> map box_id bs = map (\<lambda>i. num_id (Suc i)) [0..<n] \<and> n \<le> 2 ^ 53"

lemma numbered_nth: "numbered n bs \<Longrightarrow> length bs = n \<and> (\<forall>i<n. box_id (bs ! i) = num_id (Suc i))"
proof -
  assume "numbered n bs"
  then have m: "map box_id bs = map (\<lambda>i. num_id (Suc i)) [0..<n]" by (simp add: numbered_def)
  from arg_cong [OF m, of length] have l: "length bs = n" by simp
  have "box_id (bs ! i) = num_id (Suc i)" if "i < n" for i
    using arg_cong [OF m, of "\<lambda>xs. xs ! i"] that l by simp
  with l show ?thesis by blast
qed

lemma paint_ids: "map box_id (paint I c bs) = map box_id bs"
  by (intro nth_equalityI) (auto simp: paint_def)

lemma numbered_paint [simp]: "numbered n (paint I c bs) = numbered n bs"
  by (simp add: numbered_def paint_ids)

lemma paint_empty [simp]: "paint {} c bs = bs"
  by (intro nth_equalityI) (auto simp: paint_def)

lemma paint_paint [simp]: "paint I c (paint J c bs) = paint (J \<union> I) c bs"
  by (intro nth_equalityI) (auto simp: paint_def)

lemma paint_one: "i < length bs \<Longrightarrow> bs[i := (bs ! i)\<lparr>b_class := c\<rparr>] = paint {i} c bs"
  by (intro nth_equalityI) (auto simp: paint_def nth_list_update)

lemma find_elem_numbered:
  assumes "numbered n bs" "i < n"
  shows "find_elem (''taskbox'' @ nat_to_string (Suc i)) bs = Some i"
proof -
  note nn = numbered_nth [OF assms(1)]
  have b: "box_elem_id (box_id (bs ! j)) = ''taskbox'' @ nat_to_string (Suc j)" if "j < n" for j
    using nn that assms(1) to_string_num_id [of "Suc j"] by (simp add: box_elem_id_def numbered_def)
  have "takeWhile (\<lambda>b. box_elem_id (box_id b) \<noteq> ''taskbox'' @ nat_to_string (Suc i)) bs = take i bs"
    by (rule takeWhile_eq_take_P_nth) (use b assms(2) nn in auto)
  with assms(2) nn show ?thesis by (simp add: find_elem_def)
qed

lemma set_class_numbered:
  "numbered n bs \<Longrightarrow> i < n \<Longrightarrow> set_class (''taskbox'' @ nat_to_string (Suc i)) c bs = Inr (paint {i} c bs)"
  using find_elem_numbered [of n bs i] numbered_nth [of n bs] by (simp add: set_class_def paint_one)

lemma foldM_paint:
  assumes "\<And>bs x. numbered n bs \<Longrightarrow> x \<in> set xs \<Longrightarrow> f bs x = Inr (paint (A x) c bs)" "numbered n bs"
  shows "js_foldM f bs xs = Inr (paint (\<Union>x \<in> set xs. A x) c bs)"
  using assms by (induction xs arbitrary: bs) auto

definition depends_on :: "task list \<Rightarrow> nat \<Rightarrow> nat \<Rightarrow> bool" where
  "depends_on ts i j \<longleftrightarrow> Str (nat_to_string (Suc j)) \<in> set (dependsOn (ts ! i))"

lemma dep_num:
  assumes "task_ok ts i" "i < 2 ^ 53" "d \<in> set (dependsOn (ts ! i))"
  obtains j where "j \<le> i" "d = Str (nat_to_string j)" "\<And>n. loose_eq d (num_id n) \<longleftrightarrow> j = n"
proof -
  obtain j where "j \<le> i" "d = Str (nat_to_string j)" using assms by (auto simp: task_ok_def)
  with that [of j] loose_eq_num_id [of j] assms(2) show ?thesis by simp
qed

lemma mark_dependors_paint:
  assumes "numbered (length ts) bs" "\<And>i. i < length ts \<Longrightarrow> task_ok ts i"
  shows "mark_dependors (num_id (Suc k)) ts bs = Inr (paint {i. i < length ts \<and> depends_on ts i k} ''taskbox dependor'' bs)"
proof -
  let ?n = "length ts"
  have n: "?n \<le> 2 ^ 53" using assms(1) by (simp add: numbered_def)
  have inner: "js_foldM (\<lambda>bs d. if loose_eq d (num_id (Suc k)) then set_class (''taskbox'' @ nat_to_string (i + 1)) ''taskbox dependor'' bs
      else ok bs) bs (dependsOn (ts ! i)) = Inr (paint (if depends_on ts i k then {i} else {}) ''taskbox dependor'' bs)"
    if i: "i < ?n" and nb: "numbered ?n bs" for i bs
  proof -
    have eq: "loose_eq d (num_id (Suc k)) \<longleftrightarrow> d = Str (nat_to_string (Suc k))" if "d \<in> set (dependsOn (ts ! i))" for d
      using dep_num [OF assms(2) [OF i] _ that] i n by (metis jsval.inject(3) less_le_trans nat_to_string_inject)
    have "js_foldM (\<lambda>bs d. if loose_eq d (num_id (Suc k)) then set_class (''taskbox'' @ nat_to_string (i + 1)) ''taskbox dependor'' bs
      else ok bs) bs (dependsOn (ts ! i))
      = Inr (paint (\<Union>d \<in> set (dependsOn (ts ! i)). if d = Str (nat_to_string (Suc k)) then {i} else {}) ''taskbox dependor'' bs)"
      by (rule foldM_paint [OF _ nb]) (use eq set_class_numbered i in auto)
    moreover have "(\<Union>d \<in> set (dependsOn (ts ! i)). if d = Str (nat_to_string (Suc k)) then {i} else {}) = (if depends_on ts i k then {i} else {})"
      by (auto simp: depends_on_def)
    ultimately show ?thesis by simp
  qed
  have "mark_dependors (num_id (Suc k)) ts bs
      = Inr (paint (\<Union>i \<in> set [0..<?n]. if depends_on ts i k then {i} else {}) ''taskbox dependor'' bs)"
    unfolding mark_dependors_def by (rule foldM_paint [OF inner assms(1)]) auto
  moreover have "(\<Union>i \<in> set [0..<?n]. if depends_on ts i k then {i} else {}) = {i. i < ?n \<and> depends_on ts i k}"
    by auto
  ultimately show ?thesis by simp
qed

lemma mark_dependants_paint:
  assumes "numbered (length ts) bs" "task_ok ts k" "k < length ts"
  shows "mark_dependants (dependsOn (ts ! k)) bs = Inr (paint {j. depends_on ts k j} ''taskbox dependant'' bs)"
proof -
  have k53: "k < 2 ^ 53" using assms(1,3) by (simp add: numbered_def)
  let ?A = "\<lambda>d. {j. d = Str (nat_to_string (Suc j))}"
  have "js_foldM (\<lambda>bs d. if loose_eq d (Num (Fin 0)) then ok bs else set_class (''taskbox'' @ to_string d) ''taskbox dependant'' bs) bs (dependsOn (ts ! k))
     = Inr (paint (\<Union>d \<in> set (dependsOn (ts ! k)). ?A d) ''taskbox dependant'' bs)"
  proof (rule foldM_paint [OF _ assms(1)])
    fix bs :: "box list" and d assume nb: "numbered (length ts) bs" and d: "d \<in> set (dependsOn (ts ! k))"
    obtain j where j: "j \<le> k" "d = Str (nat_to_string j)" "loose_eq d (num_id 0) \<longleftrightarrow> j = 0"
      using dep_num [OF assms(2) k53 d] by metis
    show "(if loose_eq d (Num (Fin 0)) then ok bs else set_class (''taskbox'' @ to_string d) ''taskbox dependant'' bs)
        = Inr (paint (?A d) ''taskbox dependant'' bs)"
    proof (cases j)
      case 0
      with j have "?A d = {}" by (auto simp del: nat_to_string_0)
      with 0 j show ?thesis by (simp add: num_id_def)
    next
      case (Suc i)
      with j have "?A d = {i}" by auto
      with Suc j set_class_numbered [OF nb, of i] assms(3) show ?thesis by (simp add: num_id_def)
    qed
  qed
  moreover have "(\<Union>d \<in> set (dependsOn (ts ! k)). ?A d) = {j. depends_on ts k j}" by (auto simp: depends_on_def)
  ultimately show ?thesis by (simp add: mark_dependants_def)
qed

lemma filter_upt_eq: "k < n \<Longrightarrow> filter (\<lambda>i. i = k) [0..<n] = [k]"
  by (induction n) (auto simp: less_Suc_eq filter_empty_conv)

lemma last_task_built:
  assumes "\<And>i. i < length ts \<Longrightarrow> task_ok ts i" "k < length ts"
  shows "last_task ts (num_id (Suc k)) = Inr (ts ! k)"
proof -
  have "loose_eq (taskid (ts ! i)) (num_id (Suc k)) \<longleftrightarrow> i = k" if "i < length ts" for i
    using assms(1) [OF that] by (simp add: task_ok_def loose_eq_num_ids)
  then have "filter (\<lambda>t. loose_eq (taskid t) (num_id (Suc k))) ts = map ((!) ts) (filter (\<lambda>i. i = k) [0..<length ts])"
    by (subst map_nth [of ts, symmetric], subst filter_map) (auto intro!: arg_cong [where f = "map ((!) ts)"] filter_cong)
  also have "filter (\<lambda>i. i = k) [0..<length ts] = [k]"
    using assms(2) by (rule filter_upt_eq)
  finally show ?thesis by (simp add: last_task_def)
qed

lemma built_numbered: "built s \<Longrightarrow> length (tasks (wdata s)) \<le> 2 ^ 53 \<Longrightarrow> numbered (length (tasks (wdata s))) (boxes s)"
  by (simp add: built_def consistent_editor_def numbered_def)

lemma box_mouseover_paint:
  assumes "built s" "length (tasks (wdata s)) \<le> 2 ^ 53" "k < length (tasks (wdata s))"
  shows "box_mouseover k s = Inr (s\<lparr>boxes := paint {j. depends_on (tasks (wdata s)) k j} ''taskbox dependant''
    (paint {i. i < length (tasks (wdata s)) \<and> depends_on (tasks (wdata s)) i k} ''taskbox dependor'' (boxes s))\<rparr>)"
proof -
  let ?ts = "tasks (wdata s)"
  have nb: "numbered (length ?ts) (boxes s)" using assms by (simp add: built_numbered)
  have ok: "task_ok ?ts i" if "i < length ?ts" for i using assms(1) that by (simp add: built_def consistent_editor_def)
  have k: "k < length (boxes s)" "box_id (boxes s ! k) = num_id (Suc k)" using numbered_nth [OF nb] assms(3) by auto
  have "mark_dependors (num_id (Suc k)) ?ts (boxes s)
      = Inr (paint {i. i < length ?ts \<and> depends_on ?ts i k} ''taskbox dependor'' (boxes s))"
    "last_task ?ts (num_id (Suc k)) = Inr (?ts ! k)"
    using mark_dependors_paint [OF nb ok] last_task_built [OF ok assms(3)] by blast+
  then show ?thesis
    using k mark_dependants_paint [OF _ ok [OF assms(3)] assms(3)] nb by (simp add: box_mouseover_def Let_def)
qed

lemma box_mouseout_paint:
  assumes "built s" "length (tasks (wdata s)) \<le> 2 ^ 53"
  shows "box_mouseout s = Inr (s\<lparr>boxes := paint UNIV ''taskbox'' (boxes s)\<rparr>)"
proof -
  let ?n = "length (tasks (wdata s))"
  have nb: "numbered ?n (boxes s)" using assms by (simp add: built_numbered)
  have "js_foldM (\<lambda>bs i. set_class (''taskbox'' @ nat_to_string (i + 1)) ''taskbox'' bs) (boxes s) [0..<?n]
      = Inr (paint (\<Union>i \<in> set [0..<?n]. {i}) ''taskbox'' (boxes s))"
    by (rule foldM_paint [OF _ nb]) (use set_class_numbered in auto)
  moreover have "paint (\<Union>i \<in> set [0..<?n]. {i}) ''taskbox'' (boxes s) = paint UNIV ''taskbox'' (boxes s)"
    using numbered_nth [OF nb] by (auto simp: paint_def)
  ultimately show ?thesis by (simp add: box_mouseout_def)
qed

section \<open>Sessions\<close>

definition run :: "date \<Rightarrow> wf_event list \<Rightarrow> editor \<Rightarrow> editor js" where
  "run now evs s = js_foldM (\<lambda>s ev. handle now ev s) s evs"

lemma run_steps: "run now evs s = Inr s' \<Longrightarrow> wf_step\<^sup>*\<^sup>* s s'"
proof (induction evs arbitrary: s)
  case (Cons ev evs)
  then obtain s1 where "handle now ev s = Inr s1" "run now evs s1 = Inr s'"
    by (auto simp: run_def jbind_Inr_iff)
  with Cons.IH show ?case by (meson converse_rtranclp_into_rtranclp event)
qed (simp add: run_def)

lemma display_built: "built (display now)"
proof -
  have "entries_ok [] [''#i_1 [0]'']"
  proof -
    have "''#i_1 [0]'' = input_entry (raw_name 1) (nat_to_string 0)" by code_simp
    then show ?thesis unfolding entries_ok_def earlier_entry_def by auto
  qed
  moreover have "(k = ''0'') \<longleftrightarrow> (\<exists>j\<le>0. k = nat_to_string j)" for k by simp
  ultimately have "consistent_editor init_editor"
    by (auto simp: consistent_editor_def init_editor_def init_data_def grid_def has_own_def oget_def entries_ok_def)
  then have "built (wf_update now init_editor)" by (rule update_built)
  moreover have "task_command (wf_update now init_editor) = []" by (simp add: wf_update_def init_editor_def Let_def)
  ultimately show ?thesis by (simp add: display_def new_task_def refresh_built)
qed

lemma session_built:
  assumes "wf_step\<^sup>*\<^sup>* (display now) s" "length (tasks (wdata s)) \<le> 2 ^ 53"
  shows "built s"
  using assms
proof (induction rule: rtranclp_induct)
  case base
  show ?case by (rule display_built)
next
  case (step s s')
  then obtain now' ev where "handle now' ev s = Inr s'" by (auto elim: wf_step.cases)
  with step tasks_grow [OF this] show ?case by (auto intro: handle_built)
qed

section \<open>Dragging\<close>

lemma parseInt_px [simp]: "parseInt (px n) = Some n"
  using parseInt_int_to_string_append [of "''px''" n] by (simp add: px_def is_digit_def)

lemma clamp_style_px: "0 \<le> hi \<Longrightarrow> clamp_style hi (px n) = px (min hi (max 0 n))"
proof -
  have "px 0 = ''0px''" by code_simp
  then have "parseInt ''0px'' = Some 0" by (metis parseInt_px)
  then show "0 \<le> hi \<Longrightarrow> ?thesis"
    by (auto simp: clamp_style_def Let_def \<open>px 0 = ''0px''\<close> [symmetric] min_def max_def)
qed

definition moved :: "nat \<Rightarrow> int \<Rightarrow> int \<Rightarrow> editor \<Rightarrow> editor" where
  "moved k x y s = s\<lparr>boxes := (boxes s)[k := (boxes s ! k)\<lparr>b_top := px y, b_left := px x\<rparr>]\<rparr>"

lemma drag_moves:
  assumes "moving s" "wbox s = Some d" "d_elem d < length (boxes s)"
  shows "js_foldM (\<lambda>s (x, y). mousemove x y s) s (ms @ [(x, y)])
    = Inr (moved (d_elem d) (d_xorig d + (x - d_x d)) (d_yorig d + (y - d_y d)) s)"
  using assms
proof (induction ms arbitrary: s)
  case Nil
  then show ?case by (simp add: mousemove_def moved_def)
next
  case (Cons m ms)
  obtain a b where m: "m = (a, b)" by (cases m)
  let ?s = "moved (d_elem d) (d_xorig d + (a - d_x d)) (d_yorig d + (b - d_y d)) s"
  have "mousemove a b s = Inr ?s" using Cons.prems by (simp add: mousemove_def moved_def)
  moreover have "moved (d_elem d) u v ?s = moved (d_elem d) u v s" for u v
    using Cons.prems by (simp add: moved_def)
  ultimately show ?case using Cons.IH [of ?s] Cons.prems m by (simp add: moved_def)
qed

end
