(* ===== verification/Workflow_Props.thy ===== *)
theory Workflow_Props
  imports Workflow_Correct
begin

text \<open>
  The properties of the workflow editor, with a session on which their hypotheses are seen to hold.
\<close>

section \<open>An example session\<close>

definition today :: date where
  "today = \<lparr>fullYear = 2016, month0 = 0, mday = 5\<rparr>"

text \<open>A task is entered that reads the raw input and writes one file.\<close>

definition session_events :: "wf_event list" where
  "session_events = [TypeCommand ''qc'', SelectDepends [0], SelectInput [0], TypeOutput ''a'', OutputAdd, AddTask]"

definition session_end :: editor where
  "session_end = projr (run today session_events (display today))"

lemma session_runs: "run today session_events (display today) = Inr session_end"
  by (simp add: session_end_def session_events_def run_def)

lemma session_reached: "wf_step\<^sup>*\<^sup>* (display today) session_end"
  using session_runs by (rule run_steps)

lemma session_facts:
  "length (tasks (wdata session_end)) = 1 \<and> length (boxes session_end) = 1
   \<and> list_all (\<lambda>b. b_class b = ''taskbox'' \<and> b_left b = px 10 \<and> b_top b = px 10) (boxes session_end)"
  by code_simp

lemma session_length: "length (tasks (wdata session_end)) = 1"
  using session_facts by blast

section \<open>Sessions\<close>



text \<open>C13: The dependencies of a workflow built in the editor have no cycle, so its tasks can be run.\<close>

theorem session_acyclic:
  assumes "wf_step\<^sup>*\<^sup>* (display now) s" "length (tasks (wdata s)) \<le> 2 ^ 53"
  shows "acyclic {(j, i). i < length (tasks (wdata s)) \<and> j < length (tasks (wdata s))
    \<and> (\<exists>d \<in> set (dependsOn (tasks (wdata s) ! i)). loose_eq d (taskid (tasks (wdata s) ! j)))}"
proof -
  let ?ts = "tasks (wdata s)"
  have ok: "task_ok ?ts i" if "i < length ?ts" for i
    using session_built [OF assms] that by (simp add: built_def consistent_editor_def)
  have "j < i" if ij: "i < length ?ts" "j < length ?ts" and d: "d \<in> set (dependsOn (?ts ! i))" "loose_eq d (taskid (?ts ! j))" for i j d
  proof -
    obtain m where "m \<le> i" "\<And>n. loose_eq d (num_id n) \<longleftrightarrow> m = n"
      using dep_num [OF ok [OF ij(1)] _ d(1)] ij(1) assms(2) by (metis less_le_trans)
    moreover have "taskid (?ts ! j) = num_id (Suc j)" using ok [OF ij(2)] by (simp add: task_ok_def)
    ultimately show ?thesis using d(2) by auto
  qed
  then show ?thesis by (intro acyclic_subset [OF wf_acyclic [OF wf_less_than]]) auto
qed

theorem session_acyclic_witness:
  "acyclic {(j, i). i < 1 \<and> j < 1
    \<and> (\<exists>d \<in> set (dependsOn (tasks (wdata session_end) ! i)). loose_eq d (taskid (tasks (wdata session_end) ! j)))}"
  using session_acyclic [OF session_reached] by (simp only: session_length) simp

text \<open>The entry the input list shows for a file, its name followed by the task in brackets, is taken
  apart into the same name and task, even if the name contains brackets itself.\<close>

theorem input_entry_roundtrip:
  assumes "CHR ''['' \<notin> set num" "CHR '']'' \<notin> set num"
  shows "input_ref (input_entry fn num) = (fn, num)"
  using assms by (rule input_ref_entry)

theorem input_entry_roundtrip_witness: "input_ref (input_entry ''out[1].fa'' ''12'') = (''out[1].fa'', ''12'')"
  by (rule input_entry_roundtrip) simp_all



section \<open>The playground\<close>

text \<open>C32: The boxes of new tasks are placed in lines of five inside the width of the playground, and no
  two of them overlap; only the first 25 are inside its height.\<close>

theorem boxes_placed:
  fixes i j :: nat
  defines "p \<equiv> \<lambda>n. (next_box_pos ^^ n) (10, 10)"
  shows "(i \<noteq> j \<longrightarrow> \<bar>fst (p i) - fst (p j)\<bar> \<ge> box_size + 2 * box_padding \<or> \<bar>snd (p i) - snd (p j)\<bar> \<ge> box_size + 2 * box_padding)
    \<and> 0 \<le> fst (p i) \<and> fst (p i) + box_size \<le> playground_width
    \<and> (snd (p i) + box_size \<le> playground_height \<longleftrightarrow> i < 25)"
proof -
  have "(10, 10) = grid 0" by (simp add: grid_def)
  then have p: "p n = grid n" for n unfolding p_def by (induction n) (simp_all add: next_box_pos_grid)
  have sep: "\<bar>10 + 140 * int a - (10 + 140 * int b)\<bar> \<ge> 140" if "a \<noteq> b" for a b using that by linarith
  have "i mod 5 \<noteq> j mod 5 \<or> i div 5 \<noteq> j div 5" if "i \<noteq> j" using that by (metis div_mult_mod_eq)
  then have "i \<noteq> j \<longrightarrow> \<bar>fst (grid i) - fst (grid j)\<bar> \<ge> 140 \<or> \<bar>snd (grid i) - snd (grid j)\<bar> \<ge> 140"
    using sep by (auto simp: grid_def)
  moreover have "i mod 5 \<le> 4" "i div 5 \<le> 4 \<longleftrightarrow> i < 25" by presburger+
  ultimately show ?thesis
    by (auto simp: p grid_def box_size_def box_padding_def playground_width_def playground_height_def)
qed

theorem boxes_placed_witness: "fst ((next_box_pos ^^ 7) (10, 10)) + box_size \<le> playground_width"
  using boxes_placed [of 7 3] by blast

text \<open>C31: Dragging a box moves it by the distance the mouse has moved and then back into the
  playground: after the button is released its position is between 0 and 599 (left) and 0 and 649
  (top), and no other box has moved.\<close>

theorem drag_box:
  assumes "mousedown k x0 y0 s = Inr s1" "js_foldM (\<lambda>s (x, y). mousemove x y s) s1 (ms @ [(x, y)]) = Inr s2"
    and "b_left (boxes s ! k) = px a" "b_top (boxes s ! k) = px b"
  shows "boxes (mouseup s2) = (boxes s)[k := (boxes s ! k)
     \<lparr>b_top := px (min 649 (max 0 (b + (y - y0)))), b_left := px (min 599 (max 0 (a + (x - x0))))\<rparr>]"
proof -
  let ?d = "\<lparr>d_x = x0, d_y = y0, d_xorig = a, d_yorig = b, d_elem = k\<rparr>"
  have k: "k < length (boxes s)" and s1: "s1 = s\<lparr>wbox := Some ?d, moving := True\<rparr>"
    using assms(1,3,4) by (auto simp: mousedown_def int_or_0_def split: if_splits)
  have "s2 = moved k (a + (x - x0)) (b + (y - y0)) s1"
    using drag_moves [of s1 ?d ms x y] assms(2) k by (simp add: s1)
  then show ?thesis using k by (simp add: s1 mouseup_def end_move_def moved_def clamp_style_px)
qed

theorem drag_box_witness:
  "boxes (mouseup (moved 0 (10 + 900) (10 - 50) (session_end\<lparr>wbox := Some \<lparr>d_x = 5, d_y = 5, d_xorig = 10, d_yorig = 10, d_elem = 0\<rparr>, moving := True\<rparr>)))
     = (boxes session_end)[0 := (boxes session_end ! 0)\<lparr>b_top := px 0, b_left := px 599\<rparr>]"
proof -
  let ?s1 = "session_end\<lparr>wbox := Some \<lparr>d_x = 5, d_y = 5, d_xorig = 10, d_yorig = 10, d_elem = 0\<rparr>, moving := True\<rparr>"
  have bx: "0 < length (boxes session_end)" "b_left (boxes session_end ! 0) = px 10" "b_top (boxes session_end ! 0) = px 10"
    using session_facts by (auto simp: list_all_length)
  then have d: "mousedown 0 5 5 session_end = Inr ?s1" by (simp add: mousedown_def int_or_0_def)
  have "js_foldM (\<lambda>s (x, y). mousemove x y s) ?s1 ([(7, 7)] @ [(905, -45)]) = Inr (moved 0 (10 + 900) (10 - 50) ?s1)"
    using drag_moves [of ?s1 "\<lparr>d_x = 5, d_y = 5, d_xorig = 10, d_yorig = 10, d_elem = 0\<rparr>" "[(7, 7)]" 905 "-45"] bx(1) by simp
  from drag_box [OF d this bx(2,3)] show ?thesis by simp
qed

section \<open>Saving and loading\<close>

lemma parse_tasks_keys:
  "has_own (wtasks (foldl (\<lambda>s t. parse_task t s) s ts)) k \<longleftrightarrow> has_own (wtasks s) k \<or> k \<in> (to_string \<circ> taskid) ` set ts"
  by (induction ts arbitrary: s) (auto simp: parse_task_def add_box_def Let_def has_own_def oget_oput)

lemma parse_tasks_frame:
  "wdata (foldl (\<lambda>s t. parse_task t s) s ts) = wdata s
   \<and> map box_id (boxes (foldl (\<lambda>s t. parse_task t s) s ts)) = map box_id (boxes s) @ map taskid ts
   \<and> winputs (foldl (\<lambda>s t. parse_task t s) s ts) = winputs s @ concat (map (\<lambda>t. map (\<lambda>v. input_entry v (to_string (taskid t))) (task_outputs t)) ts)"
  by (induction ts arbitrary: s) (auto simp: parse_task_def add_box_def make_box_def Let_def)

text \<open>C14: Loading a document that was built in the editor gives its tasks back: the same tasks, the same
  choice of dependencies, one box per task after the boxes already there, and in the input list the
  same entries for the outputs of tasks.\<close>

theorem load_saved:
  assumes "wf_step\<^sup>*\<^sup>* (display now) s" "length (tasks (wdata s)) \<le> 2 ^ 53"
  shows "tasks (wdata (parse_workflow now' (wdata s) s0)) = tasks (wdata s)
    \<and> (\<forall>k. has_own (wtasks (parse_workflow now' (wdata s) s0)) k \<longleftrightarrow> has_own (wtasks s) k)
    \<and> map box_id (boxes (parse_workflow now' (wdata s) s0)) = map box_id (boxes s0) @ map taskid (tasks (wdata s))
    \<and> (\<forall>t \<in> set (tasks (wdata s)). \<forall>v \<in> set (task_outputs t).
         input_entry v (to_string (taskid t)) \<in> set (map fst (task_input (parse_workflow now' (wdata s) s0))))"
proof -
  let ?ts = "tasks (wdata s)" and ?r = "parse_workflow now' (wdata s) s0"
  have ok: "task_ok ?ts i" if "i < length ?ts" for i
    using session_built [OF assms] that by (simp add: built_def consistent_editor_def)
  have keys: "has_own (wtasks s) k \<longleftrightarrow> (\<exists>j\<le>length ?ts. k = nat_to_string j)" for k
    using session_built [OF assms] by (simp add: built_def consistent_editor_def)
  have "taskid ` set ?ts = (\<lambda>i. num_id (Suc i)) ` {..<length ?ts}"
    using arg_cong [OF task_ids [OF ok], of set] by (simp add: atLeast0LessThan)
  then have "(to_string \<circ> taskid) ` set ?ts = (\<lambda>i. to_string (num_id (Suc i))) ` {..<length ?ts}"
    by (metis image_comp image_image)
  also have "\<dots> = (\<lambda>i. nat_to_string (Suc i)) ` {..<length ?ts}"
    using assms(2) by (intro image_cong) (auto simp: to_string_num_id)
  finally have "has_own (wtasks ?r) k \<longleftrightarrow> k = ''0'' \<or> k \<in> (\<lambda>i. nat_to_string (Suc i)) ` {..<length ?ts}" for k
    by (simp add: parse_workflow_def Let_def wf_update_def refresh_lists_def parse_tasks_keys)
       (simp add: has_own_def oget_def)
  moreover have "(\<exists>j\<le>length ?ts. k = nat_to_string j) \<longleftrightarrow> k \<in> nat_to_string ` {..<Suc (length ?ts)}" for k
    by (auto simp: image_iff less_Suc_eq_le)
  ultimately have same: "has_own (wtasks ?r) k \<longleftrightarrow> has_own (wtasks s) k" for k
    unfolding keys lessThan_Suc_eq_insert_0 by (simp add: image_image)
  have "tasks (wdata ?r) = ?ts" "map box_id (boxes ?r) = map box_id (boxes s0) @ map taskid ?ts"
    using parse_tasks_frame by (simp_all add: parse_workflow_def Let_def wf_update_def refresh_lists_def)
  moreover have "map fst (task_input ?r) = map (\<lambda>i. raw_name (i + 1)) [0..<length (okeys (raw_inputs (wdata s)))]
      @ concat (map (\<lambda>t. map (\<lambda>v. input_entry v (to_string (taskid t))) (task_outputs t)) ?ts)"
    using parse_tasks_frame by (simp add: parse_workflow_def Let_def wf_update_def refresh_lists_def)
  then have "input_entry v (to_string (taskid t)) \<in> set (map fst (task_input ?r))"
    if "t \<in> set ?ts" "v \<in> set (task_outputs t)" for t v
    using that by auto
  ultimately show ?thesis using same by blast
qed

theorem load_saved_witness:
  "tasks (wdata (parse_workflow today (wdata session_end) init_editor)) = tasks (wdata session_end)"
  using load_saved [OF session_reached, of today init_editor] by (simp add: session_length)

text \<open>After loading, the raw inputs stand in the input list without their bracketed task number. A
  task that selects one of them gets an input with empty name and empty task, and changing the
  number of input files does not remove these entries.\<close>

theorem loaded_raw_inputs_broken:
  assumes "i < length (okeys (raw_inputs d))"
  shows "raw_name (Suc i) \<in> set (winputs (parse_workflow now d s)) \<and> input_ref (raw_name (Suc i)) = ([], [])
    \<and> \<not> is_raw_entry (raw_name (Suc i))"
proof -
  have no: "CHR ''['' \<notin> set (raw_name k)" "CHR '']'' \<notin> set (raw_name k)" for k
    by (simp_all add: raw_name_def nat_to_string_brackets)
  then have "input_ref (raw_name (Suc i)) = ([], [])"
    by (simp add: input_ref_def lastIndexOf_def js_substring_def)
  moreover have "raw_name (Suc i) \<in> set (winputs (parse_workflow now d s))"
    using assms parse_tasks_frame by (simp add: parse_workflow_def Let_def wf_update_def refresh_lists_def)
  moreover have "dropWhile is_digit (drop 3 (raw_name (Suc i))) = []"
    using nat_to_string_digits [of "Suc i"] by (simp add: raw_name_def dropWhile_eq_Nil_conv)
  then have "\<not> is_raw_entry (raw_name (Suc i))" by (metis is_raw_entry_def list.distinct(1))
  ultimately show ?thesis by blast
qed

theorem loaded_raw_inputs_broken_witness:
  "raw_name 1 \<in> set (winputs (parse_workflow today init_data init_editor)) \<and> input_ref (raw_name 1) = ([], [])"
proof -
  have "0 < length (okeys (raw_inputs init_data))" by code_simp
  from loaded_raw_inputs_broken [OF this, of today init_editor] show ?thesis by simp
qed

section \<open>Where the editor fails\<close>

text \<open>The date written into a document has the number of the month from 0: its month field is one
  less than the calendar month, and 00 in January.\<close>

theorem datum_month:
  assumes "1000 \<le> fullYear now" "fullYear now \<le> 9999" "1 \<le> m" "m \<le> 12" "month0 now = m - 1"
  shows "parseInt (take 2 (drop 5 (datum now))) = Some (int m - 1)"
proof -
  have l: "length (int_to_string (fullYear now)) = 4"
  proof -
    define y where "y = nat (fullYear now)"
    then have y: "fullYear now = int y" "1000 \<le> y" "y \<le> 9999" using assms(1,2) by auto
    have d: "length (nat_to_string n) = (if n < 10 then 1 else Suc (length (nat_to_string (n div 10))))" for n
      by (simp add: nat_to_string.simps [of n])
    have "length (nat_to_string y) = 4"
    proof -
      have "\<not> y < 10" "\<not> y div 10 < 10" "\<not> y div 10 div 10 < 10" "y div 10 div 10 div 10 < 10"
        using y by (simp_all add: div_less_iff_less_mult)
      then show ?thesis
        using d [of y] d [of "y div 10"] d [of "y div 10 div 10"] d [of "y div 10 div 10 div 10"]
        by simp
    qed
    then show ?thesis by (simp add: y int_to_string_def)
  qed
  have p: "length (pad2 (m - 1)) = 2" "parseInt (pad2 (m - 1)) = Some (int m - 1)"
  proof -
    have "list_all (\<lambda>n. length (pad2 n) = 2 \<and> parseInt (pad2 n) = Some (int n)) [0..<12]" by code_simp
    moreover have "m - 1 \<in> set [0..<12]" using assms(4) by simp
    ultimately show "length (pad2 (m - 1)) = 2" "parseInt (pad2 (m - 1)) = Some (int m - 1)"
      using assms(3) by (auto simp: list_all_iff simp del: set_upt)
  qed
  have "take 2 (drop 5 (datum now)) = pad2 (m - 1)" using l p(1) assms(5) by (simp add: datum_def)
  with p show ?thesis by simp
qed

theorem datum_month_witness: "parseInt (take 2 (drop 5 (datum today))) = Some (int 1 - 1)"
  by (rule datum_month) (simp_all add: today_def)

text \<open>Once a box has been opened for editing there is no way back: no event gives the form its
  new-task mode again, so the add button only announces editing.\<close>

theorem edit_mode_stays:
  assumes "wf_step\<^sup>*\<^sup>* s s'" "task_legend s \<noteq> ''New Task''"
  shows "task_legend s' \<noteq> ''New Task'' \<and> wdata (add_task_click now s') = wdata s'"
proof -
  have new: "task_legend (new_task now s) = task_legend s" for now s
    by (simp add: new_task_def refresh_lists_def push_task_def add_box_def wf_update_def Let_def)
  have step: "task_legend s2 \<noteq> ''New Task''" if "handle now ev s1 = Inr s2" "task_legend s1 \<noteq> ''New Task''" for now ev s1 s2
    using that
  proof (cases ev)
    case (ChangeInfiles v)
    have "task_legend (change_infiles now v s1) = task_legend s1"
      by (simp add: change_infiles_def Let_def new wf_update_def split: option.split)
    with ChangeInfiles that show ?thesis by auto
  qed (auto simp: new wf_update_def change_info_def change_splits_def variable_add_def variable_remove_def
      output_add_def output_remove_def add_task_click_def box_click_def box_mouseover_def box_mouseout_def mousedown_def
      mousemove_def mouseup_def end_move_def jbind_Inr_iff Let_def split: if_splits option.splits)
  have "task_legend s' \<noteq> ''New Task''"
    using assms by (induction rule: rtranclp_induct) (auto elim!: wf_step.cases dest: step)
  then show ?thesis by (simp add: add_task_click_def)
qed

theorem edit_mode_stays_witness:
  "wdata (add_task_click today (session_end\<lparr>task_legend := ''Edit Task 1'', task_command := ''x''\<rparr>)) = wdata session_end"
  using edit_mode_stays [OF rtranclp.rtrancl_refl, of "session_end\<lparr>task_legend := ''Edit Task 1'', task_command := ''x''\<rparr>"] by simp

text \<open>C38: Opening a box for editing reads the dependency list at the positions of the input list: it
  throws as soon as there are more entries of inputs than tasks.\<close>

theorem box_click_throws:
  assumes "k < length (boxes s)" "edit_active s" "own_task (tasks (wdata s)) (box_id (boxes s ! k)) = Inr t"
    and "length (task_depends s) < length (task_input s)"
  shows "box_click k s = Inl TypeError"
proof -
  let ?dep = "reselect (\<lambda>v. v \<in> set (map to_string (dependsOn t)) \<or> v \<in> set object_proto) (task_depends s)"
  let ?f = "\<lambda>i. if i < length ?dep then ok (fst (task_input s ! i), has_own (task_inputs t) (fst (?dep ! i))) else throw TypeError"
  have "length ?dep = length (task_depends s)" by (simp add: reselect_def)
  then have "js_mapM ?f [0..<length (task_input s)] = Inl TypeError"
    using assms(4) by (intro js_mapM_throws [of "length (task_depends s)"]) auto
  then have "reselect_inputs (task_inputs t) ?dep (task_input s) = Inl TypeError"
    by (simp only: reselect_inputs_def)
  then show ?thesis
    using assms(1-3) by (simp add: box_click_def Let_def del: set_map list.set_map)
qed

theorem box_click_throws_witness:
  "box_click 0 (session_end\<lparr>edit_active := True, task_input := options_of [''#i_1 [0]'', ''a [1]'', ''b [1]'']\<rparr>) = Inl TypeError"
proof -
  have "length (task_depends session_end) = 2 \<and> \<not> isl (own_task (tasks (wdata session_end)) (box_id (boxes session_end ! 0)))"
    by code_simp
  then obtain t where "own_task (tasks (wdata session_end)) (box_id (boxes session_end ! 0)) = Inr t"
    "length (task_depends session_end) = 2"
    by (cases "own_task (tasks (wdata session_end)) (box_id (boxes session_end ! 0))") auto
  then show ?thesis
    using session_facts by (intro box_click_throws [where t = t]) (simp_all add: options_of_def)
qed

end
