(* ===== verification/Js_Double.thy ===== *)
theory Js_Double
  imports Js_Values
begin

text \<open>
  Quotients of integers as the interface computes them: the division rounds to a double, and
  \<^verbatim>\<open>parseInt\<close> of a number reads the text of the number. The lemmas say when the result is the
  integer quotient, and that a positive number below a millionth is read as a positive integer.
\<close>

definition int_quot :: "jsint \<Rightarrow> int \<Rightarrow> jsnum" where
  "int_quot a m = (case a of None \<Rightarrow> JNaN | Some n \<Rightarrow> double (of_int n / of_int m))"

definition parseInt_num :: "jsnum \<Rightarrow> jsint" where
  "parseInt_num x = parseInt (num_to_string x)"

section \<open>The rounding error of a double\<close>

lemma round_half_even_error: "\<bar>of_int (round_half_even q) - q\<bar> \<le> 1 / 2"
proof -
  have "of_int \<lfloor>q\<rfloor> \<le> q" "q < of_int \<lfloor>q\<rfloor> + 1" by linarith+
  then show ?thesis by (auto simp: round_half_even_def Let_def)
qed

lemma power_bitlen: "0 < n \<Longrightarrow> (2::int) ^ nat (bitlen n - 1) \<le> n"
  using bitlen_bounds [of n] by simp

lemma floor_log2_le:
  assumes "0 < q"
  shows "2 powi floor_log2 q \<le> q"
proof (cases "q \<ge> 1")
  case True
  then have f: "1 \<le> \<lfloor>q\<rfloor>" by simp
  have b: "0 \<le> bitlen \<lfloor>q\<rfloor> - 1"
    using f bitlen_bounds [of "\<lfloor>q\<rfloor>"] bitlen_nonneg [of "\<lfloor>q\<rfloor>"] by (cases "bitlen \<lfloor>q\<rfloor> = 0") auto
  then have "(2::rat) powi (bitlen \<lfloor>q\<rfloor> - 1) = of_int (2 ^ nat (bitlen \<lfloor>q\<rfloor> - 1))"
    by (simp add: power_int_def)
  also have "\<dots> \<le> of_int \<lfloor>q\<rfloor>"
    using power_bitlen [of "\<lfloor>q\<rfloor>"] f of_int_le_iff by (metis int_one_le_iff_zero_less)
  also have "\<dots> \<le> q" by simp
  finally show ?thesis using True by (simp add: floor_log2_def)
next
  case False
  define m where "m = \<lceil>1 / q\<rceil> - 1"
  have m: "0 < m" using False assms by (simp add: m_def less_ceiling_iff field_simps)
  have "1 / q \<le> of_int (m + 1)" by (simp add: m_def)
  also have "\<dots> \<le> (2::rat) ^ nat (bitlen m)"
    using bitlen_bounds [OF m] by (metis add.commute add1_zle_eq of_int_le_iff of_int_numeral of_int_power)
  finally have "1 / 2 ^ nat (bitlen m) \<le> q"
    using assms by (simp add: field_simps)
  moreover have "(2::rat) powi bitlen m = 2 ^ nat (bitlen m)"
    using bitlen_nonneg [of m] by (simp add: power_int_def)
  ultimately show ?thesis
    using False by (simp add: floor_log2_def m_def power_int_minus_divide)
qed

text \<open>Away from underflow and overflow the error is at most one part in \<open>2 ^ 53\<close>.\<close>

lemma double_error:
  assumes "0 < q" "q < 2 ^ 1000" "floor_log2 q \<ge> - 1022"
  shows "\<exists>v. double q = Fin v \<and> \<bar>v - q\<bar> \<le> q / 2 ^ 53 \<and> 0 < v"
proof -
  define u where "u = (2::rat) powi (floor_log2 q - 52)"
  define v where "v = of_int (round_half_even (q / u)) * u"
  have u: "0 < u" by (simp add: u_def)
  have uq: "u \<le> q / 2 ^ 52"
    using floor_log2_le [OF assms(1)] by (simp add: u_def power_int_diff field_simps)
  have err: "\<bar>v - q\<bar> \<le> u / 2"
  proof -
    have "v - q = (of_int (round_half_even (q / u)) - q / u) * u"
      using u by (simp add: v_def algebra_simps)
    then have "\<bar>v - q\<bar> = \<bar>of_int (round_half_even (q / u)) - q / u\<bar> * u"
      using u by (simp add: abs_mult)
    also have "\<dots> \<le> 1 / 2 * u"
      using round_half_even_error [of "q / u"] u by (intro mult_right_mono) auto
    finally show ?thesis by simp
  qed
  have e: "\<bar>v - q\<bar> \<le> q / 2 ^ 53" using err uq by simp
  have "q / 2 ^ 53 < q" using assms(1) by (simp add: field_simps)
  with e have v0: "0 < v" and "v \<le> 2 * q" by linarith+
  note this(2)
  also have "\<dots> < 2 * 2 ^ 1000" using assms(2) by simp
  also have "\<dots> = (2::rat) ^ 1001" by simp
  also have "\<dots> < 2 ^ 1024" by (rule power_strict_increasing) simp_all
  finally have "v < 2 ^ 1024" .
  then have "double q = Fin v"
    using assms(1,3) by (simp add: double_def Let_def v_def u_def max_def)
  with e v0 show ?thesis by blast
qed

lemma floor_log2_ge:
  assumes "0 < n" "0 < m" "m < 2 ^ 1022"
  shows "floor_log2 (of_int n / of_int m) \<ge> - 1022"
proof (cases "(of_int n / of_int m :: rat) \<ge> 1")
  case True
  then have "1 \<le> \<lfloor>of_int n / of_int m :: rat\<rfloor>" by (simp only: one_le_floor)
  then show ?thesis using True bitlen_nonneg [of "\<lfloor>of_int n / of_int m :: rat\<rfloor>"]
    by (simp add: floor_log2_def)
next
  case False
  have "1 \<le> n" using assms(1) by simp
  then have "m * 1 \<le> m * n" using assms(2) by (intro mult_left_mono) auto
  then have "1 / (of_int n / of_int m) \<le> (of_int m :: rat)"
    using assms by (simp add: field_simps flip: of_int_mult)
  then have "\<lceil>1 / (of_int n / of_int m) :: rat\<rceil> - 1 < 2 ^ 1022"
    using assms(3) by (simp add: ceiling_le_iff le_less_trans)
  from bitlen_le [OF this] show ?thesis using False by (simp add: floor_log2_def)
qed

text \<open>The integer part of a rounded quotient is the integer quotient.\<close>

lemma floor_double_quot:
  assumes "0 < n" "n < 2 ^ 53" "0 < m" "m < 2 ^ 1022"
  shows "\<exists>v. double (of_int n / of_int m) = Fin v \<and> \<lfloor>v\<rfloor> = n div m \<and> 0 < v
    \<and> \<bar>v - of_int n / of_int m\<bar> \<le> of_int n / of_int m / 2 ^ 53"
proof -
  define q :: rat where "q = of_int n / of_int m"
  have q: "0 < q" using assms by (simp add: q_def)
  have n53: "of_int n < (2::rat) ^ 53"
    using assms(2) by (metis of_int_less_iff of_int_numeral of_int_power)
  have "q \<le> of_int n" using assms by (simp add: q_def field_simps)
  also note n53
  also have "(2::rat) ^ 53 < 2 ^ 1000" by (rule power_strict_increasing) simp_all
  finally have big: "q < 2 ^ 1000" .
  obtain v where v: "double q = Fin v" "\<bar>v - q\<bar> \<le> q / 2 ^ 53" "0 < v"
    using double_error [OF q big] floor_log2_ge [OF assms(1,3,4)] by (auto simp: q_def)
  have "\<lfloor>v\<rfloor> = n div m"
  proof (cases "m dvd n")
    case True
    then obtain k where k: "n = m * k" by auto
    then have "q = of_int k" using assms by (simp add: q_def)
    moreover have "\<bar>k\<bar> \<le> 2 ^ 53"
    proof -
      have "0 < k" using k assms by (simp add: zero_less_mult_iff)
      then have "1 * k \<le> m * k" using assms(3) by (intro mult_right_mono) auto
      then have "k \<le> n" using k by linarith
      then show ?thesis using assms(2) \<open>0 < k\<close> by simp
    qed
    ultimately show ?thesis using v(1) double_of_int [of k] k assms(3) by auto
  next
    case False
    then have r: "1 \<le> n mod m" "n mod m \<le> m - 1"
      using pos_mod_bound [OF assms(3), of n] pos_mod_sign [OF assms(3), of n]
      unfolding dvd_eq_mod_eq_0 by linarith+
    have nq: "(of_int n :: rat) = of_int (n div m) * of_int m + of_int (n mod m)"
      by (metis div_mult_mod_eq of_int_add of_int_mult)
    have qe: "q = of_int (n div m) + of_int (n mod m) / of_int m"
      unfolding q_def nq using assms(3) by (simp add: add_divide_distrib)
    have "of_int n / 2 ^ 53 / of_int m < (1 / of_int m :: rat)"
      using n53 assms(3) by (intro divide_strict_right_mono) simp_all
    then have "q / 2 ^ 53 < 1 / of_int m" by (simp add: q_def mult.commute)
    with v(2) have dv: "\<bar>v - q\<bar> < 1 / of_int m" by linarith
    have "of_int 1 \<le> (of_int (n mod m) :: rat)" "of_int (n mod m) \<le> (of_int (m - 1) :: rat)"
      using r by (simp_all only: of_int_le_iff)
    then have "1 / of_int m \<le> (of_int (n mod m) / of_int m :: rat)"
      "of_int (n mod m) / of_int m \<le> (of_int (m - 1) / of_int m :: rat)"
      using assms(3) by (auto intro!: divide_right_mono)
    moreover have "of_int (m - 1) / of_int m = (1 - 1 / of_int m :: rat)"
      using assms(3) by (simp add: field_simps)
    ultimately have "of_int (n div m) < v" "v < of_int (n div m) + 1"
      using dv qe by linarith+
    then show ?thesis by linarith
  qed
  with v show ?thesis by (auto simp: q_def)
qed

section \<open>Reading the text of a number\<close>

lemma take_nat_to_string:
  "10 ^ j \<le> s \<Longrightarrow> take (length (nat_to_string s) - j) (nat_to_string s) = nat_to_string (s div 10 ^ j)"
proof (induction j arbitrary: s)
  case (Suc j)
  from Suc.prems have s: "10 \<le> s" and d: "10 ^ j \<le> s div 10"
    by (auto simp: less_eq_div_iff_mult_less_eq mult.commute intro: order_trans [OF _ Suc.prems])
  have e: "nat_to_string s = nat_to_string (s div 10) @ [digit_char (s mod 10)]"
    using s by (simp add: nat_to_string.simps [of s])
  from Suc.IH [OF d] show ?case
    by (simp add: e div_mult2_eq)
qed simp

lemma length_nat_to_string:
  "10 ^ (k - 1) \<le> s \<Longrightarrow> s < 10 ^ k \<Longrightarrow> 0 < k \<Longrightarrow> length (nat_to_string s) = k"
proof (induction k arbitrary: s)
  case (Suc k)
  show ?case
  proof (cases "k = 0")
    case True
    with Suc.prems show ?thesis by (simp add: nat_to_string.simps [of s])
  next
    case False
    then obtain k' where k': "k = Suc k'" by (cases k) auto
    with Suc.prems have s: "10 \<le> s" by (auto intro: order_trans [of _ "10 * 10 ^ k'"])
    have "length (nat_to_string (s div 10)) = k"
      using Suc.prems False k' by (intro Suc.IH) (auto simp: less_eq_div_iff_mult_less_eq less_mult_imp_div_less mult.commute)
    then show ?thesis using s by (simp add: nat_to_string.simps [of s])
  qed
qed simp

lemma nat_to_string_bounds:
  "s < 10 ^ length (nat_to_string s)" "0 < s \<Longrightarrow> 10 ^ (length (nat_to_string s) - 1) \<le> s"
proof (induction s rule: nat_to_string.induct)
  case (1 s)
  {
    case 1
    show ?case
    proof (cases "s < 10")
      case False
      then have "s div 10 < 10 ^ length (nat_to_string (s div 10))" using "1.IH" by simp
      then show ?thesis using False by (simp add: nat_to_string.simps [of s])
    qed (simp add: nat_to_string.simps [of s])
  next
    case 2
    show ?case
    proof (cases "s < 10")
      case False
      then have "10 ^ (length (nat_to_string (s div 10)) - 1) \<le> s div 10" using "1.IH" by simp
      moreover have "length (nat_to_string (s div 10)) \<noteq> 0" by simp
      ultimately have "10 ^ length (nat_to_string (s div 10)) \<le> s"
        by (cases "length (nat_to_string (s div 10))") (auto simp: less_eq_div_iff_mult_less_eq mult.commute)
      then show ?thesis using False by (simp add: nat_to_string.simps [of s])
    qed (use 2 in \<open>simp add: nat_to_string.simps [of s]\<close>)
  }
qed

lemma decimal_exponent_bounds:
  assumes "1 \<le> x"
  shows "0 < decimal_exponent x" "10 ^ (nat (decimal_exponent x) - 1) \<le> x" "x < 10 ^ nat (decimal_exponent x)"
proof -
  let ?f = "nat \<lfloor>x\<rfloor>" and ?N = "length (nat_to_string (nat \<lfloor>x\<rfloor>))"
  have f: "0 < ?f" "of_nat ?f \<le> x" "x < of_nat ?f + 1" using assms floor_correct [of x] by (auto simp: of_nat_nat)
  have n: "nat (decimal_exponent x) = ?N" using assms by (simp add: decimal_exponent_def)
  show "0 < decimal_exponent x" using assms by (simp add: decimal_exponent_def)
  have "(10::rat) ^ (?N - 1) \<le> of_nat ?f"
    using nat_to_string_bounds(2) [OF f(1)] by (metis of_nat_le_iff of_nat_numeral of_nat_power)
  from order_trans [OF this f(2)] show "10 ^ (nat (decimal_exponent x) - 1) \<le> x" by (simp only: n)
  have "?f + 1 \<le> 10 ^ ?N" using nat_to_string_bounds(1) [of ?f] by linarith
  then have "of_nat (?f + 1) \<le> (10::rat) ^ ?N" by (metis of_nat_le_iff of_nat_numeral of_nat_power)
  then show "x < 10 ^ nat (decimal_exponent x)" using f(3) unfolding n of_nat_add of_nat_1 by (rule less_le_trans [rotated])
qed

lemma nat_floor_div:
  fixes x :: rat
  assumes "of_int f * 10 ^ j \<le> x" "x < of_int (f + 1) * 10 ^ j" "0 \<le> f"
  shows "nat \<lfloor>x\<rfloor> div 10 ^ j = nat f"
proof -
  have "f * 10 ^ j \<le> \<lfloor>x\<rfloor>" "\<lfloor>x\<rfloor> < (f + 1) * 10 ^ j"
    using assms(1,2) by (simp_all add: le_floor_iff floor_less_iff)
  then have "\<lfloor>x\<rfloor> div 10 ^ j = f"
    by (intro int_div_pos_eq [of _ _ _ "\<lfloor>x\<rfloor> - 10 ^ j * f"]) (auto simp: algebra_simps)
  then have "nat (\<lfloor>x\<rfloor> div 10 ^ j) = nat f" by simp
  then show ?thesis by (simp add: nat_div_distrib' nat_power_eq)
qed

lemma decimal_exponent_15:
  assumes "1 \<le> x" "x < 10 ^ 15" "N = nat (decimal_exponent x)"
  shows "0 < N" "N \<le> 15"
proof -
  note db = decimal_exponent_bounds [OF assms(1)]
  show "0 < N" using db(1) assms(3) by simp
  have "(10::rat) ^ (N - 1) < 10 ^ 15" using le_less_trans [OF db(2) assms(2)] assms(3) by simp
  then show "N \<le> 15" by (simp add: power_strict_increasing_iff del: power_numeral)
qed

lemma digits_scale:
  assumes "1 \<le> x" "N = nat (decimal_exponent x)" "N < k"
  shows "(10::rat) powi (decimal_exponent x - int k) = 1 / 10 ^ (k - N)" "(10::rat) ^ (k - 1) \<le> x * 10 ^ (k - N)"
proof -
  note db = decimal_exponent_bounds [OF assms(1)]
  have k: "k = N + (k - N)" using assms(3) by simp
  have "decimal_exponent x - int k = - int (k - N)" using db(1) assms(2,3) by (simp add: of_nat_diff)
  then show "(10::rat) powi (decimal_exponent x - int k) = 1 / 10 ^ (k - N)" by (simp add: power_int_minus_divide)
  have "(10::rat) ^ (k - 1) = 10 ^ (N - 1) * 10 ^ (k - N)"
    using db(1) assms(2,3) by (simp flip: power_add)
  also have "\<dots> \<le> x * 10 ^ (k - N)" using db(2) assms(2) by (intro mult_right_mono) simp_all
  finally show "(10::rat) ^ (k - 1) \<le> x * 10 ^ (k - N)" .
qed

lemma truncated_digits:
  assumes "1 \<le> x" "N = nat (decimal_exponent x)" "N < k" and s: "s = nat \<lfloor>x / 10 powi (decimal_exponent x - int k)\<rfloor>"
  shows "s div 10 ^ (k - N) = nat \<lfloor>x\<rfloor> \<and> 10 ^ (k - 1) \<le> s"
proof -
  let ?y = "x * 10 ^ (k - N)"
  have lo: "of_int \<lfloor>x\<rfloor> * 10 ^ (k - N) \<le> ?y" and hi: "?y < of_int (\<lfloor>x\<rfloor> + 1) * 10 ^ (k - N)"
    using floor_correct [of x] by (simp_all add: mult_right_mono)
  have "(10::int) ^ (k - 1) \<le> \<lfloor>?y\<rfloor>" using digits_scale(2) [OF assms(1-3)] by (simp add: le_floor_iff)
  then have "10 ^ (k - 1) \<le> nat \<lfloor>?y\<rfloor>" by (metis nat_le_iff nat_mono nat_numeral nat_power_eq zero_le_numeral)
  with nat_floor_div [OF lo hi] assms(1) s digits_scale(1) [OF assms(1-3)] show ?thesis by simp
qed

text \<open>The shortest digits of a number that is no integer agree with it before the point: a candidate
  that is rounded up to the next integer would be that integer.\<close>

lemma shortest_candidate_floor:
  assumes x: "1 \<le> x" "x < 10 ^ 15" "of_int \<lfloor>x\<rfloor> \<noteq> x" and n: "N = nat (decimal_exponent x)"
    and c: "shortest_candidate x (decimal_exponent x) k = Some s"
  shows "N < k \<and> s div 10 ^ (k - N) = nat \<lfloor>x\<rfloor> \<and> 10 ^ (k - 1) \<le> s \<and> s < 10 ^ k"
proof -
  note db = decimal_exponent_bounds [OF x(1)]
  define u where "u = (10::rat) powi (decimal_exponent x - int k)"
  have fits: "s < 10 ^ k" "double (of_nat s * u) = Fin x" and
    lohi: "s = nat \<lfloor>x / u\<rfloor> \<or> s = nat \<lceil>x / u\<rceil>"
    using c by (auto simp: shortest_candidate_def Let_def u_def split: if_splits)
  have not_int: "of_nat s * u \<noteq> of_int i" if "\<bar>i\<bar> \<le> 2 ^ 53" for i
    using fits(2) double_of_int [OF that] x(3) by auto
  have f15: "\<lfloor>x\<rfloor> < 10 ^ 15" using x(2) by (simp add: floor_less_iff)
  note N = decimal_exponent_15 [OF x(1,2) n]
  have "N < k"
  proof (rule ccontr)
    assume "\<not> N < k"
    then have k: "k \<le> N" by simp
    then have u: "u = of_nat (10 ^ (N - k))" using db(1) n by (simp add: u_def power_int_def nat_diff_distrib)
    have "s * 10 ^ (N - k) < 10 ^ k * 10 ^ (N - k)" using fits(1) by simp
    also have "\<dots> = (10::nat) ^ N" using k by (simp flip: power_add)
    also have "\<dots> \<le> 10 ^ 15" using N(2) by (rule power_increasing) simp
    finally have a: "s * 10 ^ (N - k) < 10 ^ 15" .
    define a where "a = s * 10 ^ (N - k)"
    have "\<bar>int a\<bar> \<le> 2 ^ 53" using a by (simp add: a_def [symmetric])
    from not_int [OF this] show False by (simp add: u a_def)
  qed
  define j where "j = k - N"
  have u: "u = 1 / 10 ^ j" using digits_scale(1) [OF x(1) n \<open>N < k\<close>] by (simp add: u_def j_def)
  let ?y = "x * 10 ^ j"
  have lo: "of_int \<lfloor>x\<rfloor> * 10 ^ j \<le> ?y" and hi: "?y < of_int (\<lfloor>x\<rfloor> + 1) * 10 ^ j"
    using floor_correct [of x] by (simp_all add: mult_right_mono)
  have f0: "0 \<le> \<lfloor>x\<rfloor>" using x(1) by simp
  from lohi have "s div 10 ^ j = nat \<lfloor>x\<rfloor> \<and> 10 ^ (k - 1) \<le> s"
  proof
    assume "s = nat \<lfloor>x / u\<rfloor>"
    then show ?thesis using truncated_digits [OF x(1) n \<open>N < k\<close>] by (simp add: u_def j_def)
  next
    assume "s = nat \<lceil>x / u\<rceil>"
    then have s: "s = nat \<lceil>?y\<rceil>" by (simp add: u)
    have c: "\<lceil>?y\<rceil> \<le> (\<lfloor>x\<rfloor> + 1) * 10 ^ j" using hi by (simp add: ceiling_le_iff)
    have "\<lceil>?y\<rceil> \<noteq> (\<lfloor>x\<rfloor> + 1) * 10 ^ j"
    proof
      assume "\<lceil>?y\<rceil> = (\<lfloor>x\<rfloor> + 1) * 10 ^ j"
      then have "of_nat s * u = of_int (\<lfloor>x\<rfloor> + 1)" using f0 by (simp add: s u of_nat_nat)
      then show False using not_int [of "\<lfloor>x\<rfloor> + 1"] f15 f0 by simp
    qed
    with c have "of_int \<lceil>?y\<rceil> < (of_int ((\<lfloor>x\<rfloor> + 1) * 10 ^ j) :: rat)" by (simp only: of_int_less_iff)
    then have "nat \<lfloor>of_int \<lceil>?y\<rceil> :: rat\<rfloor> div 10 ^ j = nat \<lfloor>x\<rfloor>"
      using lo f0 by (intro nat_floor_div) (auto intro: order_trans [OF lo le_of_int_ceiling])
    moreover have "(10::int) ^ (k - 1) \<le> \<lceil>?y\<rceil>"
      using digits_scale(2) [OF x(1) n \<open>N < k\<close>] by (simp add: le_ceiling_iff j_def)
    then have "10 ^ (k - 1) \<le> s" unfolding s by (metis nat_mono nat_numeral nat_power_eq zero_le_numeral)
    ultimately show ?thesis by (simp add: s)
  qed
  with \<open>N < k\<close> fits(1) show ?thesis by (simp add: j_def)
qed

lemma shortest_digits_floor:
  assumes x: "1 \<le> x" "x < 10 ^ 15" "of_int \<lfloor>x\<rfloor> \<noteq> x" and n: "N = nat (decimal_exponent x)"
    and c: "shortest_digits x = (s, k)"
  shows "N < k \<and> s div 10 ^ (k - N) = nat \<lfloor>x\<rfloor> \<and> 10 ^ (k - 1) \<le> s \<and> s < 10 ^ k"
proof (cases "List.map_filter (\<lambda>k. map_option (\<lambda>s. (s, k)) (shortest_candidate x (decimal_exponent x) k)) [1..<18]")
  case Nil
  then have sk: "k = 17" "s = nat \<lfloor>x / 10 powi (decimal_exponent x - 17)\<rfloor>"
    using c by (auto simp: shortest_digits_def Let_def)
  have N: "N < 17" using decimal_exponent_15 [OF x(1,2) n] by simp
  have "x * 10 ^ (17 - N) < 10 ^ N * 10 ^ (17 - N)"
    using decimal_exponent_bounds(3) [OF x(1)] n by (intro mult_strict_right_mono) simp_all
  also have "\<dots> = (10::rat) ^ 17" using N by (simp flip: power_add)
  finally have "s < 10 ^ 17"
    using sk digits_scale(1) [OF x(1) n N] x(1) by (simp add: nat_less_iff floor_less_iff)
  then show ?thesis using truncated_digits [OF x(1) n N] sk N by simp
next
  case (Cons p ps)
  then have "(s, k) \<in> set (List.map_filter (\<lambda>k. map_option (\<lambda>s. (s, k)) (shortest_candidate x (decimal_exponent x) k)) [1..<18])"
    using c by (simp add: shortest_digits_def Let_def)
  then have "shortest_candidate x (decimal_exponent x) k = Some s"
    by (auto simp: List.map_filter_def)
  from shortest_candidate_floor [OF x n this] show ?thesis .
qed

lemma parseInt_positive:
  assumes x: "1 \<le> x" "x < 10 ^ 15" "of_int \<lfloor>x\<rfloor> \<noteq> x"
  shows "parseInt (positive_to_string x) = Some \<lfloor>x\<rfloor>"
proof -
  define N where n: "N = nat (decimal_exponent x)"
  obtain s k where sk: "shortest_digits x = (s, k)" by (cases "shortest_digits x")
  note f = shortest_digits_floor [OF x n sk] and N = decimal_exponent_15 [OF x(1,2) n]
  have len: "length (nat_to_string s) = k" using f by (intro length_nat_to_string) auto
  have "(10::nat) ^ (k - N) \<le> 10 ^ (k - 1)" using N by (intro power_increasing) auto
  then have "10 ^ (k - N) \<le> s" using f by (meson order_trans)
  then have "take N (nat_to_string s) = nat_to_string (nat \<lfloor>x\<rfloor>)"
    using take_nat_to_string [of "k - N" s] f len by simp
  moreover have "positive_to_string x = take N (nat_to_string s) @ ''.'' @ drop N (nat_to_string s)"
  proof -
    have "decimal_exponent x = int N" using N n by simp
    then show ?thesis using f N by (simp add: positive_to_string_def sk Let_def)
  qed
  moreover have "0 \<le> \<lfloor>x\<rfloor>" using x(1) by simp
  ultimately show ?thesis by (simp add: parseInt_digits_append is_digit_def)
qed

lemma shortest_digits_length:
  assumes "shortest_digits x = (s, k)"
  shows "0 < k \<and> (s = nat \<lfloor>x / 10 powi (decimal_exponent x - int k)\<rfloor> \<or> s = nat \<lceil>x / 10 powi (decimal_exponent x - int k)\<rceil>)"
proof (cases "List.map_filter (\<lambda>k. map_option (\<lambda>s. (s, k)) (shortest_candidate x (decimal_exponent x) k)) [1..<18]")
  case Nil
  then show ?thesis using assms by (auto simp: shortest_digits_def Let_def simp del: upt_rec_numeral)
next
  case (Cons p ps)
  then have "(s, k) \<in> set (List.map_filter (\<lambda>k. map_option (\<lambda>s. (s, k)) (shortest_candidate x (decimal_exponent x) k)) [1..<18])"
    using assms by (simp add: shortest_digits_def Let_def del: upt_rec_numeral)
  then have "0 < k" "shortest_candidate x (decimal_exponent x) k = Some s"
    by (auto simp: List.map_filter_def simp del: upt_rec_numeral)
  then show ?thesis by (auto simp: shortest_candidate_def Let_def split: if_splits)
qed

lemma decimal_exponent_small:
  assumes "0 < x" "x < 1"
  shows "decimal_exponent x \<le> 0" "10 powi (decimal_exponent x - 1) \<le> x"
    "1 / 10 ^ 6 \<le> x \<Longrightarrow> - 6 < decimal_exponent x" "x < 1 / 10 ^ 6 \<Longrightarrow> decimal_exponent x \<le> - 6"
proof -
  define m where "m = nat (\<lceil>1 / x\<rceil> - 1)"
  define l where "l = length (nat_to_string m)"
  have e: "decimal_exponent x = 1 - int l" using assms by (simp add: decimal_exponent_def m_def l_def)
  have inv: "1 < 1 / x" using assms by (simp add: field_simps)
  then have "of_int 1 < 1 / x" by (simp only: of_int_1)
  then have "1 < \<lceil>1 / x\<rceil>" by (simp only: less_ceiling_iff)
  then have m: "0 < m" and mi: "int m = \<lceil>1 / x\<rceil> - 1" unfolding m_def by linarith+
  have "0 < l" by (simp add: l_def)
  then show "decimal_exponent x \<le> 0" using e by simp
  have "m + 1 \<le> 10 ^ l" using nat_to_string_bounds(1) [of m] by (simp add: l_def)
  then have "int (m + 1) \<le> int (10 ^ l)" by (simp only: of_nat_le_iff)
  then have "int m + 1 \<le> 10 ^ l" by simp
  then have "1 / x \<le> 10 ^ l" using mi by (simp add: ceiling_le_iff)
  then show "10 powi (decimal_exponent x - 1) \<le> x"
    using assms by (simp add: e power_int_minus_divide field_simps)
  have lm: "10 ^ (l - 1) \<le> m" using nat_to_string_bounds(2) [OF m] by (simp add: l_def)
  show "- 6 < decimal_exponent x" if "1 / 10 ^ 6 \<le> x"
  proof -
    have "1 / x \<le> 10 ^ 6" using that assms by (simp add: field_simps)
    then have "int m \<le> 10 ^ 6 - 1" using mi by (simp add: ceiling_le_iff)
    then have "10 ^ (l - 1) < (10::nat) ^ 6" using lm by simp
    then have "l - 1 < 6" by (simp only: power_strict_increasing_iff)
    then show ?thesis using e by simp
  qed
  show "decimal_exponent x \<le> - 6" if "x < 1 / 10 ^ 6"
  proof -
    have "10 ^ 6 < 1 / x" using that assms by (simp add: field_simps)
    then have "10 ^ 6 < \<lceil>1 / x\<rceil>" by (simp add: less_ceiling_iff)
    then have "10 ^ 6 \<le> int m" using mi by linarith
    then have "10 ^ 6 \<le> m" by simp
    then have "(10::nat) ^ 6 < 10 ^ l" using nat_to_string_bounds(1) [of m] by (simp add: l_def)
    then have "6 < l" by (simp only: power_strict_increasing_iff)
    then show ?thesis using e by simp
  qed
qed

lemma zero_text: "nat_to_string 0 = ''0''"
  by code_simp

lemma parseInt_small:
  assumes "1 / 10 ^ 6 \<le> x" "x < 1"
  shows "parseInt (positive_to_string x) = Some 0"
proof -
  have x: "0 < x" using assms(1) by (rule less_le_trans [rotated]) simp
  obtain s k where sk: "shortest_digits x = (s, k)" by (cases "shortest_digits x")
  note d = decimal_exponent_small [OF x assms(2)]
  have "positive_to_string x = nat_to_string 0 @ ''.'' @ replicate (nat (- decimal_exponent x)) CHR ''0'' @ nat_to_string s"
    using shortest_digits_length [OF sk] d(1) d(3) [OF assms(1)]
    by (simp add: positive_to_string_def sk Let_def zero_text)
  then show ?thesis using parseInt_digits_append [of "''.'' @ _" 0] by (simp add: is_digit_def)
qed

lemma parseInt_tiny:
  assumes "0 < x" "x < 1 / 10 ^ 6"
  shows "\<exists>m>0. parseInt (positive_to_string x) = Some m"
proof -
  have x1: "x < 1" using assms(2) by (rule less_trans) simp
  obtain s k where sk: "shortest_digits x = (s, k)" by (cases "shortest_digits x")
  note l = shortest_digits_length [OF sk] and d = decimal_exponent_small [OF assms(1) x1]
  have "(10::rat) powi (decimal_exponent x - int k) \<le> 10 powi (decimal_exponent x - 1)"
    using l by (intro power_int_increasing) auto
  also note d(2)
  finally have "1 \<le> x / 10 powi (decimal_exponent x - int k)" by (simp add: field_simps)
  then have "1 \<le> \<lfloor>x / 10 powi (decimal_exponent x - int k)\<rfloor>" "1 \<le> \<lceil>x / 10 powi (decimal_exponent x - int k)\<rceil>"
    by (simp_all only: le_floor_iff le_ceiling_iff of_int_1)
  then have "s \<noteq> 0" using l by linarith
  define c where "c = hd (nat_to_string s)"
  have c: "is_digit c" "c \<noteq> CHR ''0''"
    using hd_nat_to_string_digit [of s] nat_to_string_no_leading_zero [of s] \<open>s \<noteq> 0\<close> by (auto simp: c_def)
  then have v: "0 < digit_val c"
    using of_char_eq_iff [of c "CHR ''0''", where 'a = nat] by (simp add: is_digit_def digit_val_def)
  define r where "r = (if k > 1 then ''.'' @ drop 1 (nat_to_string s) else []) @ ''e''
    @ (if decimal_exponent x - 1 < 0 then ''-'' else ''+'') @ nat_to_string (nat \<bar>decimal_exponent x - 1\<bar>)"
  have "take 1 (nat_to_string s) = [c]" by (cases "nat_to_string s") (auto simp: c_def)
  then have t: "positive_to_string x = [c] @ r"
    using l d(4) [OF assms(2)] by (simp add: positive_to_string_def sk Let_def r_def)
  have "\<not> is_digit (hd r) \<and> hd r \<noteq> CHR ''x'' \<and> hd r \<noteq> CHR ''X''" by (simp add: r_def is_digit_def)
  then have "parse_nat_prefix ([c] @ r) = Some (digit_val c)"
    using parse_nat_prefix_digits [of "[c]" r] c by simp
  then have "parseInt ([c] @ r) = Some (int (digit_val c))"
    using c by (simp add: parseInt_def digit_not_space strip_sign_digit)
  with v t show ?thesis by auto
qed

text \<open>Reading a non-negative double: its integer part, unless it is positive and below a millionth.\<close>

lemma parseInt_num_floor:
  assumes "0 \<le> v" "v < 10 ^ 15" "v = 0 \<or> 1 / 10 ^ 6 \<le> v"
  shows "parseInt_num (Fin v) = Some \<lfloor>v\<rfloor>"
proof (cases "of_int \<lfloor>v\<rfloor> = v")
  case True
  have "\<lfloor>v\<rfloor> < 10 ^ 15" "0 \<le> \<lfloor>v\<rfloor>" using assms by (simp_all add: floor_less_iff)
  with True show ?thesis by (simp add: parseInt_num_def)
next
  case False
  then have v: "v \<noteq> 0" by auto
  have "parseInt (positive_to_string v) = Some \<lfloor>v\<rfloor>"
  proof (cases "1 \<le> v")
    case True
    with parseInt_positive [OF True assms(2) False] show ?thesis by simp
  next
    case f: False
    then have "\<lfloor>v\<rfloor> = 0" using assms(1) by (simp add: floor_eq_iff)
    with f parseInt_small [of v] assms(3) v show ?thesis by simp
  qed
  with False assms(1) show ?thesis by (simp add: parseInt_num_def)
qed

lemma parseInt_num_tiny:
  assumes "0 < v" "v < 1 / 10 ^ 6"
  shows "\<exists>m>0. parseInt_num (Fin v) = Some m"
proof -
  have "v < 1" using assms(2) by (rule less_trans) simp
  then have "\<lfloor>v\<rfloor> = 0" using assms(1) by (simp add: floor_eq_iff)
  then show ?thesis using parseInt_tiny [OF assms] assms(1) by (simp add: parseInt_num_def)
qed

lemma int_quot_floor:
  assumes "0 \<le> n" "n < 10 ^ 15" "0 < m" "m < 2 ^ 1022" "n = 0 \<or> m < 10 ^ 6 * n - n"
  shows "parseInt_num (int_quot (Some n) m) = Some (n div m)"
proof (cases "n = 0")
  case True
  then show ?thesis using parseInt_num_floor [of 0] by (simp add: int_quot_def double_def)
next
  case False
  then have n: "0 < n" "n < 2 ^ 53" using assms(1,2) by simp_all
  obtain v where v: "double (of_int n / of_int m) = Fin v" "\<lfloor>v\<rfloor> = n div m" "0 < v"
    "\<bar>v - of_int n / of_int m\<bar> \<le> of_int n / of_int m / 2 ^ 53"
    using floor_double_quot [OF n assms(3,4)] by blast
  have "n div m \<le> n div 1" using n assms(3) by (intro zdiv_mono2) auto
  then have "n div m \<le> n" by simp
  then have "v < 10 ^ 15"
    using v(2) assms(2) floor_less_iff [of v "10 ^ 15"] by simp
  moreover have "1 / 10 ^ 6 \<le> v"
  proof -
    define q :: rat where "q = of_int n / of_int m"
    have "m < 10 ^ 6 * n - n" using assms(5) False by blast
    then have "of_int m < (of_int (10 ^ 6 * n - n) :: rat)" by (simp only: of_int_less_iff)
    then have "1 < (10 ^ 6 - 1) * q" using assms(3) by (simp add: q_def field_simps)
    then have "1 / (10 ^ 6 - 1) < q" by (simp add: field_simps)
    moreover have "q - q / 2 ^ 53 \<le> v" using v(4) unfolding q_def by linarith
    ultimately show ?thesis by simp
  qed
  ultimately show ?thesis using parseInt_num_floor [of v] v by (simp add: int_quot_def)
qed

lemma int_quot_tiny:
  assumes "0 < n" "10 ^ 6 * n + n < m" "m < 2 ^ 53"
  shows "\<exists>k>0. parseInt_num (int_quot (Some n) m) = Some k"
proof -
  have n: "n < 2 ^ 53" and m: "0 < m" using assms by simp_all
  have "(2::int) ^ 53 < 2 ^ 1022" by (rule power_strict_increasing) simp_all
  with assms(3) have m2: "m < 2 ^ 1022" by linarith
  define q :: rat where "q = of_int n / of_int m"
  obtain v where v: "double q = Fin v" "0 < v" "\<bar>v - q\<bar> \<le> q / 2 ^ 53"
    using floor_double_quot [OF assms(1) n m m2] by (auto simp: q_def)
  have "(of_int (10 ^ 6 * n + n) :: rat) < of_int m" using assms(2) by (simp only: of_int_less_iff)
  then have "(10 ^ 6 + 1) * q < 1" using m by (simp add: q_def field_simps)
  then have "q < 1 / (10 ^ 6 + 1)" by (simp add: field_simps)
  moreover have "v \<le> q + q / 2 ^ 53" using v(3) by linarith
  ultimately have "v < 1 / 10 ^ 6" by simp
  with parseInt_num_tiny [OF v(2)] v(1) show ?thesis by (auto simp: int_quot_def q_def)
qed

end
