(* ===== verification/Monitor_Jobs.thy ===== *)
theory Monitor_Jobs
  imports Table_State Js_Double
begin

text \<open>
  The job side of the status monitor (widgets/widget.awe_monitor.js): the job and workunit documents
  of the server, the rows the monitor makes of them for its tables, the order of tasks, durations
  and dates, and the page with the stages of one job. What depends on the browser's locale or on
  the Retina library is a field of \<^verbatim>\<open>mhost\<close>: \<^verbatim>\<open>byteSize\<close> and \<^verbatim>\<open>Base64.encode\<close> of Retina,
  \<^verbatim>\<open>Date.parse\<close> (a number of milliseconds, None for NaN), \<^verbatim>\<open>toLocaleString\<close> and \<^verbatim>\<open>localeCompare\<close>.
\<close>

record mhost =
  byteSize :: "jsnum \<Rightarrow> string"
  base64 :: "string \<Rightarrow> string"
  date_parse :: "string \<Rightarrow> jsint"
  locale_string :: "jsint \<Rightarrow> string"
  locale_compare :: "string \<Rightarrow> string \<Rightarrow> int"

section \<open>Documents\<close>

record infile =
  if_nofile :: bool
  if_filename :: jsval
  if_size :: jsnum
  if_origin :: jsval

record outfile =
  of_type :: jsval
  of_filename :: jsval
  of_size :: jsnum
  of_delete :: bool

record jtask =
  jt_state :: string
  jt_desc :: jsval
  createddate :: string
  starteddate :: string
  completeddate :: string
  jt_inputs :: "infile props"
  jt_outputs :: "outfile props"

record job =
  job_id :: string
  job_state :: string
  job_name :: jsval
  submittime :: string
  pipeline :: jsval
  remaintasks :: jsval
  job_notes :: jsval
  lastfailed :: jsval
  job_tasks :: "jtask list"

record workunit =
  wuid :: string
  wu_client :: jsval
  checkout_time :: jsval
  wu_cmd_name :: jsval
  wu_cmd_args :: jsval
  rank :: jsval
  totalwork :: jsval
  wu_state :: jsval
  wu_failed :: jsval
  wu_submittime :: jsval
  wu_priority :: jsval

section \<open>Status of a job\<close>

definition dot_span :: "string \<Rightarrow> string \<Rightarrow> jsval \<Rightarrow> string" where
  \<open>dot_span color label desc =
     ''<span style="color: '' @ color @ '';font-size: 19px; cursor: default;" title="'' @ label @ '': '' @ to_string desc
     @ ''">&#9679;</span>''\<close>

definition dot :: "jtask \<Rightarrow> string" where
  "dot t =
     (if jt_state t = ''completed'' then dot_span ''green'' ''completed'' (jt_desc t)
      else if jt_state t = ''in-progress'' then dot_span ''blue'' ''in-progress'' (jt_desc t)
      else if jt_state t = ''queued'' then dot_span ''orange'' ''queued'' (jt_desc t)
      else if jt_state t = ''error'' \<or> jt_state t = ''suspend'' then dot_span ''red'' ''error'' (jt_desc t)
      else if jt_state t = ''init'' \<or> jt_state t = ''pending'' then dot_span ''gray'' ''init'' (jt_desc t)
      else [])"

definition dots :: "jtask list \<Rightarrow> string" where
  "dots stages = foldl (\<lambda>acc t. acc @ dot t) ''<span>'' stages @ ''</span>''"

fun current_task_from :: "nat \<Rightarrow> jtask list \<Rightarrow> jsval" where
  "current_task_from i [] = Num (Fin 0)"
| "current_task_from i (t # ts) =
     (if jt_state t \<noteq> ''completed''
      then (if truthy (jt_desc t) then jt_desc t else Num (Fin (of_nat (i + 1))))
      else current_task_from (i + 1) ts)"

definition currentTask :: "jtask list \<Rightarrow> jsval" where
  "currentTask ts = current_task_from 0 ts"

text \<open>The order of jobs: by state where both states are known, then by time of submission. A
  comparison with an unknown state is one with undefined, and false.\<close>

definition state_order :: "string \<Rightarrow> nat option" where
  "state_order st =
     (if st = ''suspend'' then Some 0 else if st = ''submitted'' then Some 1
      else if st = ''in-progress'' then Some 2 else None)"

definition tasksort :: "mhost \<Rightarrow> job \<Rightarrow> job \<Rightarrow> int" where
  "tasksort h a b =
     (let lc = locale_compare h (submittime a) (submittime b)
      in case (state_order (job_state a), state_order (job_state b)) of
           (Some x, Some y) \<Rightarrow> if x > y then - 1 else if x < y then 1 else lc
         | _ \<Rightarrow> lc)"

section \<open>Rows of the tables\<close>

definition job_link :: "string \<Rightarrow> jsval \<Rightarrow> string" where
  \<open>job_link jid name =
     ''<a style='cursor: pointer;' onclick='Retina.WidgetInstances.awe_monitor[1].jobTooltip(jQuery(this), "'' @ jid
     @ ''")'>'' @ to_string name @ ''</a>''\<close>

definition resume_button :: "string \<Rightarrow> string" where
  \<open>resume_button jid =
     ''<button class='btn btn-mini btn-success' style='margin-left: 5px;' onclick='Retina.WidgetInstances.awe_monitor[1].resumeJobs(["''
     @ jid @ ''"]);'>resume</button>''\<close>

definition job_row :: "job \<Rightarrow> row" where
  "job_row j =
     [(''submission'', Str (submittime j)), (''job name'', Str (job_link (job_id j) (job_name j))), (''job id'', Str (job_id j)),
      (''status'', Str (dots (job_tasks j))), (''pipeline'', pipeline j),
      (''current state'', Str (job_state j @ (if job_state j = ''suspend'' then resume_button (job_id j) else []))),
      (''todo'', remaintasks j), (''AWE ID'', Str (job_id j))]"

definition no_job_row :: row where
  "no_job_row = map (\<lambda>k. (k, Str ''-'')) [''submission'', ''job name'', ''job id'', ''status'', ''pipeline'', ''current state'', ''AWE ID'']"

text \<open>\<^verbatim>\<open>stm.DataStore.job\<close> keeps the documents for the details page.\<close>

definition dataManipulationJobs :: "job list \<Rightarrow> job props \<Rightarrow> row list \<times> job props" where
  "dataManipulationJobs ds store =
     (let rows = map job_row ds
      in (if rows = [] then [no_job_row] else rows, foldl (\<lambda>m j. oput m (job_id j) j) store ds))"

definition json_link :: "string \<Rightarrow> string \<Rightarrow> string" where
  \<open>json_link url txt =
     ''<a onclick='Retina.WidgetInstances.awe_monitor[1].authenticatedJSON("'' @ url @ ''");' style='cursor: pointer;'>'' @ txt @ ''</a>''\<close>

definition work_row :: "mhost \<Rightarrow> string \<Rightarrow> workunit \<Rightarrow> row" where
  "work_row h awe_ip w =
     [(''id'', Str (json_link (awe_ip @ ''/work/base64:'' @ base64 h (wuid w)) (wuid w))),
      (''client'', Str (json_link (awe_ip @ ''/client/'' @ to_string (wu_client w)) (to_string (wu_client w)))),
      (''checkout time'', checkout_time w), (''cmd name'', wu_cmd_name w), (''cmd args'', wu_cmd_args w), (''rank'', rank w),
      (''tot'', totalwork w), (''state'', wu_state w), (''failed'', wu_failed w), (''submission time'', wu_submittime w),
      (''priority'', wu_priority w)]"

definition no_work_row :: row where
  "no_work_row = map (\<lambda>k. (k, Str ''-'')) [''id'', ''client'', ''checkout time'', ''cmd name'', ''cmd args'', ''rank'', ''tot'', ''state'', ''failed'']"

definition dataManipulationWorkunits :: "mhost \<Rightarrow> string \<Rightarrow> workunit list \<Rightarrow> row list" where
  "dataManipulationWorkunits h awe_ip ds =
     (let rows = map (work_row h awe_ip) ds in if rows = [] then [no_work_row] else rows)"

section \<open>Dates and durations\<close>

definition prettyAWEdate :: "mhost \<Rightarrow> string \<Rightarrow> string" where
  "prettyAWEdate h d = (if d = ''0001-01-01T00:00:00Z'' then ''-'' else locale_string h (date_parse h d))"

definition i_scale :: "int \<Rightarrow> jsint \<Rightarrow> jsint" where
  "i_scale m a = map_option (\<lambda>n. m * n) a"

definition time_text :: "jsint \<Rightarrow> jsint \<Rightarrow> jsint \<Rightarrow> string" where
  "time_text day hour minute =
     (if i_less (Some 0) day then jsint_to_string day @ '' days '' else [])
     @ (if i_less (Some 0) hour then jsint_to_string hour @ '' hours '' else [])
     @ jsint_to_string minute @ '' minutes''"

definition timePassed :: "jsint \<Rightarrow> jsint \<Rightarrow> string" where
  "timePassed start end' =
     (let t0 = i_sub end' start; day = parseInt_num (int_quot t0 86400000);
          t1 = i_sub t0 (i_scale 86400000 day); hour = parseInt_num (int_quot t1 3600000);
          t2 = i_sub t1 (i_scale 3600000 hour); minute = parseInt_num (int_quot t2 60000)
      in time_text day hour minute)"

section \<open>The stages of a job\<close>

text \<open>\<^verbatim>\<open>tasks[origin]\<close>: an index into the task list, written as a text or a number.\<close>

definition task_at :: "jtask list \<Rightarrow> jsval \<Rightarrow> jtask js" where
  "task_at ts v =
     (let k = to_string v
      in if is_index k \<and> digits_val k < length ts then ok (ts ! digits_val k) else throw TypeError)"

definition origin_cell :: "jtask list \<Rightarrow> jsval \<Rightarrow> string js" where
  "origin_cell ts v =
     (if truthy v
      then jbind (task_at ts v) (\<lambda>t.
             ok (''<td>'' @ (if truthy (jt_desc t) then to_string (jt_desc t)
                            else jsint_to_string (i_add (parseInt (to_string v)) (Some 1))) @ ''</td></tr>''))
      else ok ''<td>-</td></tr>'')"

definition listed_inputs :: "infile props \<Rightarrow> (string \<times> infile) list" where
  "listed_inputs files =
     filter (\<lambda>(k, f). \<not> if_nofile f \<and> k \<noteq> ''mysql.tar'' \<and> k \<noteq> ''postgresql.tar'')
       (List.map_filter (\<lambda>k. map_option (Pair k) (oget files k)) (okeys files))"

definition input_row :: "mhost \<Rightarrow> jtask list \<Rightarrow> infile \<Rightarrow> string js" where
  "input_row h ts f =
     jbind (origin_cell ts (if_origin f)) (\<lambda>c.
       ok (''<tr><td>'' @ to_string (if_filename f) @ ''</td><td>'' @ byteSize h (if_size f) @ ''</td>'' @ c))"

definition input_rows :: "mhost \<Rightarrow> jtask list \<Rightarrow> infile props \<Rightarrow> string list js" where
  "input_rows h ts files = js_mapM (\<lambda>p. input_row h ts (snd p)) (listed_inputs files)"

definition output_texts :: "mhost \<Rightarrow> outfile props \<Rightarrow> string list" where
  "output_texts h outs =
     map (\<lambda>f. to_string (of_filename f) @ '' ('' @ byteSize h (of_size f) @ '')'' @ (if of_delete f then '' <i>temporary</i>'' else []))
       (filter (\<lambda>f. of_type f \<noteq> Str ''update'') (List.map_filter (oget outs) (okeys outs)))"

definition stageDetails :: "mhost \<Rightarrow> jtask list \<Rightarrow> nat \<Rightarrow> string js" where
  \<open>stageDetails h ts i =
     (if i < length ts
      then let t = ts ! i
           in jbind (input_rows h ts (jt_inputs t)) (\<lambda>rows.
                ok (''<table class='table table-condensed'>''
                    @ ''<tr><td><b>started</b></td><td>'' @ prettyAWEdate h (createddate t) @ ''</td></tr>''
                    @ ''<tr><td><b>completed</b></td><td>'' @ prettyAWEdate h (completeddate t) @ ''</td></tr>''
                    @ (if prettyAWEdate h (completeddate t) = ''-''
                       then ''<tr><td><b>duration</b></td><td>-</td></tr>''
                       else ''<tr><td><b>duration</b></td><td>''
                            @ timePassed (date_parse h (createddate t)) (date_parse h (completeddate t)) @ ''</td></tr>'')
                    @ ''<tr><td><b>inputs</b></td><td>''
                    @ ''<table class='table table-condensed table-striped table-hover'><thead><tr><td>filename</td><td>size</td><td>origin</td></tr></thead><tbody>''
                    @ concat rows @ ''</tbody></table>'' @ ''</td></tr>''
                    @ ''<tr><td><b>outputs</b></td><td>'' @ js_join ''<br>'' (output_texts h (jt_outputs t)) @ ''</td></tr>''
                    @ ''</table>''))
      else throw TypeError)\<close>

text \<open>The page of a job: no tasks, or the custom buttons whose condition holds, for a suspended job
  the delete button (the job it deletes), the notes and the frame of the failed workunit, and one
  line per stage: its colour class, icon and texts, and for a stage that can be opened the recompute
  button (the job and the stage it recomputes) and the details. Requests are pairs of method and
  address. When a stage throws, no page is shown and the result is the error (the requests for the
  failed workunit have been sent by then; their answers find no element to write to).\<close>

type_synonym request = "string \<times> string"

record pill =
  pl_class :: string
  pl_icon :: string
  pl_desc :: jsval
  pl_right :: string
  pl_details :: "((string \<times> nat) option \<times> string) option"

record jobpage =
  jp_none :: bool
  jp_custom :: "string list"
  jp_delete :: "string option"
  jp_notes :: "jsval option"
  jp_failed :: "string option"
  jp_pills :: "pill list"

definition recomputeButton :: "job \<Rightarrow> nat \<Rightarrow> (string \<times> nat) option" where
  "recomputeButton j i = (if job_state j \<noteq> ''suspend'' then None else Some (job_id j, i))"

text \<open>The failed workunit of a suspended job: four requests, and the frame their answers fill.\<close>

definition resolveError :: "string \<Rightarrow> job \<Rightarrow> request list \<times> string" where
  \<open>resolveError awe_ip j =
     (let work = awe_ip @ ''/work/'' @ to_string (lastfailed j)
      in (map (\<lambda>r. (''GET'', work @ r)) ['''', ''?report=stdout'', ''?report=stderr'', ''?report=worknotes''],
          ''<b>Workunit</b><div id='workunit'><pre>-</pre></div><div id='errorJob'' @ job_id j @ '''></div>''))\<close>

definition open_pill :: "mhost \<Rightarrow> job \<Rightarrow> nat \<Rightarrow> string \<Rightarrow> string \<Rightarrow> string \<Rightarrow> pill option js" where
  "open_pill h j i cls icon d =
     jbind (stageDetails h (job_tasks j) i) (\<lambda>s.
       ok (Some \<lparr>pl_class = cls, pl_icon = icon, pl_desc = jt_desc (job_tasks j ! i), pl_right = prettyAWEdate h d,
                 pl_details = Some (recomputeButton j i, s)\<rparr>))"

definition closed_pill :: "jtask \<Rightarrow> string \<Rightarrow> string \<Rightarrow> string \<Rightarrow> pill option js" where
  "closed_pill t cls icon txt =
     ok (Some \<lparr>pl_class = cls, pl_icon = icon, pl_desc = jt_desc t, pl_right = txt, pl_details = None\<rparr>)"

definition stage_pill :: "mhost \<Rightarrow> job \<Rightarrow> nat \<Rightarrow> pill option js" where
  "stage_pill h j i =
     (let t = job_tasks j ! i; st = jt_state t
      in if st = ''completed'' then open_pill h j i ''donepill'' ''ok.png'' (completeddate t)
         else if st = ''in-progress'' then closed_pill t ''runningpill'' ''settings3.png'' (prettyAWEdate h (starteddate t))
         else if st = ''queued'' then closed_pill t ''queuedpill'' ''clock.png'' ''(in queue)''
         else if st = ''error'' then open_pill h j i ''errorpill'' ''remove.png'' (createddate t)
         else if st = ''pending'' then closed_pill t ''pendingpill'' ''clock.png'' ''(not started)''
         else if st = ''suspend'' then open_pill h j i ''errorpill'' ''remove.png'' (createddate t)
         else ok None)"

text \<open>A custom button: its title and, if it has one, the condition, asked of
  \<^verbatim>\<open>stm.DataStore.job[job.id]\<close>.\<close>

type_synonym custom_button = "string \<times> (job option \<Rightarrow> bool) option"

definition shown_buttons :: "custom_button list \<Rightarrow> job option \<Rightarrow> string list" where
  "shown_buttons btns j = map fst (filter (\<lambda>(_, c). case c of None \<Rightarrow> True | Some f \<Rightarrow> f j) btns)"

definition stagePills :: "mhost \<Rightarrow> string \<Rightarrow> custom_button list \<Rightarrow> job props \<Rightarrow> job \<Rightarrow> (request list \<times> jobpage) js" where
  "stagePills h awe_ip btns store j =
     (if job_tasks j = []
      then ok ([], \<lparr>jp_none = True, jp_custom = [], jp_delete = None, jp_notes = None, jp_failed = None, jp_pills = []\<rparr>)
      else let suspended = (job_state j = ''suspend''); (reqs, frame) = resolveError awe_ip j
           in jbind (js_mapM (stage_pill h j) [0..<length (job_tasks j)]) (\<lambda>ps.
                ok (if suspended then reqs else [],
                    \<lparr>jp_none = False, jp_custom = shown_buttons btns (oget store (job_id j)),
                     jp_delete = (if suspended then Some (job_id j) else None),
                     jp_notes = (if suspended then Some (job_notes j) else None),
                     jp_failed = (if suspended then Some frame else None),
                     jp_pills = List.map_filter (\<lambda>p. p) ps\<rparr>)))"

text \<open>\<^verbatim>\<open>jobDetails\<close> of a job that is not in the store reads \<^verbatim>\<open>tasks\<close> of undefined. (Its second
  form opens a window with the document as text.)\<close>

definition jobDetails :: "mhost \<Rightarrow> string \<Rightarrow> custom_button list \<Rightarrow> job props \<Rightarrow> string \<Rightarrow> (request list \<times> jobpage) js" where
  "jobDetails h awe_ip btns store jobid =
     (case oget store jobid of None \<Rightarrow> throw TypeError | Some j \<Rightarrow> stagePills h awe_ip btns store j)"

end
