(* ===== verification/Monitor_Tables.thy ===== *)
theory Monitor_Tables
  imports Monitor_Jobs Table_Nav
begin

text \<open>
  The tables of the monitor (\<^verbatim>\<open>display\<close> and \<^verbatim>\<open>update_data\<close> of widgets/widget.awe_monitor.js), drawn by
  the table renderer: instance 0 is the prototype, 1 the jobs, 2 the workunits, 3 the clients.
  Creating a renderer appends an instance with the given settings. The choices of a select filter are
  not part of the state of a table, nor are the request headers. The overview is a list of sections
  with their total and their lines.
\<close>

section \<open>The overview\<close>

definition overview :: "(string \<Rightarrow> string \<Rightarrow> jsval) \<Rightarrow> (string \<times> jsval \<times> (string \<times> jsval) list) list" where
  "overview d =
     map (\<lambda>(sec, ks). (sec, d sec ''total'', map (\<lambda>k. (k, d sec k)) ks))
       [(''clients'', [''busy'', ''idle'', ''suspended'']), (''jobs'', [''active'', ''suspended'']),
        (''tasks'', [''completed'', ''failed'', ''in-progress'', ''pending'', ''queuing'', ''suspended'']),
        (''workunits'', [''checkout'', ''queuing'', ''suspended''])]"

section \<open>Settings of the jobs and workunits tables\<close>

definition filter_of :: "string \<Rightarrow> string option \<Rightarrow> tfilter" where
  "filter_of ty w = \<lparr>ftype = ty, searchword = w, case_sensitive = False, operator = None, active_operator = None, re = None, minmax = None\<rparr>"

definition nth_int :: "int list \<Rightarrow> nat \<Rightarrow> int option" where
  "nth_int xs i = (if i < length xs then Some (xs ! i) else None)"

definition jobs_header :: "string list" where
  "jobs_header = [''submission'', ''job name'', ''job id'', ''status'', ''pipeline'', ''current state'', ''todo'', ''AWE ID'']"

definition jobs_settings :: "string \<Rightarrow> string option \<Rightarrow> table \<Rightarrow> table" where
  "jobs_settings awe_ip cgi t =
     t\<lparr>synchronous := False, query_type := ''prefix'', navigation_url := Some (awe_ip @ ''/job?query''),
       rows_per_page := Some 20, minwidths := nth_int [1, 150, 150, 1, 95, 125, 65],
       invisible_columns := (\<lambda>i. i = 7), disable_sort := (\<lambda>i. i = 3),
       tfilters := [(1, filter_of ''text'' None), (2, filter_of ''text'' None), (4, filter_of ''premade-select'' cgi),
                    (5, filter_of ''premade-select'' None), (6, filter_of ''text'' None)],
       tquery := (case cgi of None \<Rightarrow> tquery t
                  | Some w \<Rightarrow> [(''4'', \<lparr>q_searchword = w, q_field = Str ''info.pipeline'', q_comparison = None\<rparr>)]),
       asynch_column_mapping := Some [(''submission'', ''info.submittime''), (''job name'', ''info.name''), (''job id'', ''id''),
         (''pipeline'', ''info.pipeline''), (''current state'', ''state''), (''todo'', ''remaintasks'')],
       filter_autodetect := False, sort_autodetect := False, data := DataObj (Some jobs_header) (Some [])\<rparr>"

definition work_header :: "string list" where
  "work_header = [''id'', ''submission time'', ''cmd name'', ''cmd args'', ''rank'', ''tot'', ''state'', ''failed'', ''priority'']"

definition work_settings :: "string \<Rightarrow> table \<Rightarrow> table" where
  "work_settings awe_ip t =
     t\<lparr>synchronous := False, query_type := ''prefix'', navigation_url := Some (awe_ip @ ''/work?query''),
       rows_per_page := Some 10, minwidths := nth_int [1, 1, 1, 1, 65, 78, 75, 75, 83],
       asynch_column_mapping := Some [(''id'', ''id''), (''submission time'', ''info.submittime''), (''cmd name'', ''cmd.name''),
         (''cmd args'', ''cmd.args''), (''rank'', ''rank''), (''tot'', ''totalwork''), (''state'', ''state''),
         (''failed'', ''failed''), (''priority'', ''info.priority'')],
       tfilters := map (\<lambda>i. (i, if i = 6 then filter_of ''premade-select'' (Some []) else filter_of ''text'' None)) [0..<9],
       disable_sort := (\<lambda>_. False), filter_autodetect := False, sort_autodetect := False,
       data := DataObj (Some work_header) (Some [])\<rparr>"

section \<open>The clients table\<close>

record client_doc =
  cd_id :: string
  cd_name :: jsval
  cd_group :: jsval
  host_ip :: string
  hostname :: jsval
  cd_cores :: jsval
  apps :: "string list"
  regtime :: jsval
  serve_time :: jsval
  cd_Status :: jsval
  total_checkout :: jsval
  total_completed :: jsval
  total_failed :: jsval
  skip_work :: "string list"
  cd_version :: jsval
  cd_work :: "string list"

definition or_zero :: "jsval \<Rightarrow> jsval" where
  "or_zero v = (if truthy v then v else Str ''0'')"

definition skip_link :: "string \<Rightarrow> nat \<Rightarrow> string" where
  \<open>skip_link w j =
     ''<a style='cursor: pointer;' onclick='Retina.WidgetInstances.awe_monitor[1].workunitTooltip(jQuery(this), "'' @ w
     @ ''")'>'' @ nat_to_string (j + 1) @ ''</a>''\<close>

definition client_link :: "string \<Rightarrow> jsval \<Rightarrow> string" where
  \<open>client_link cid name =
     ''<a style='cursor: pointer;' onclick='Retina.WidgetInstances.awe_monitor[1].clientTooltip(jQuery(this), "'' @ cid
     @ ''")'>'' @ to_string name @ ''</a>''\<close>

text \<open>\<^verbatim>\<open>Retina.keys\<close> is a function of the Retina library: the parameter \<^verbatim>\<open>rkeys\<close>.\<close>

definition client_cells :: "(string list \<Rightarrow> string list) \<Rightarrow> client_doc \<Rightarrow> jsval list" where
  "client_cells rkeys c =
     [Str (client_link (cd_id c) (cd_name c)), cd_group c, if host_ip c = [] then hostname c else Str (host_ip c),
      or_zero (cd_cores c), Str (js_join '', '' (apps c)), regtime c, serve_time c, cd_Status c,
      or_zero (total_checkout c), or_zero (total_completed c), or_zero (total_failed c),
      Str (js_join '', '' (map (\<lambda>j. skip_link (skip_work c ! j) j) [0..<length (skip_work c)])), cd_version c,
      Str (if rkeys (cd_work c) = [] then ''- none -'' else hd (rkeys (cd_work c)))]"

definition client_rows :: "(string list \<Rightarrow> string list) \<Rightarrow> client_doc list option \<Rightarrow> jsval list list" where
  "client_rows rkeys d = (case d of None \<Rightarrow> [replicate 17 (Str ''-'')] | Some cs \<Rightarrow> map (client_cells rkeys) cs)"

definition clients_header :: "string list" where
  "clients_header = [''name'', ''group'', ''host'', ''cores'', ''apps'', ''register time'', ''up-time'', ''status'', ''c/o'', ''done'',
     ''failed'', ''errors'', ''version'', ''workunit'']"

definition clients_filter :: "nat \<Rightarrow> tfilter" where
  "clients_filter i =
     (if i = 1 \<or> i = 7 then filter_of ''select'' None
      else if i = 3 then (filter_of ''text'' None)\<lparr>operator := Some [''='', ''>'', ''<''], active_operator := Some 0\<rparr>
      else filter_of ''text'' None)"

definition clients_settings :: "jsval list list \<Rightarrow> table \<Rightarrow> table" where
  "clients_settings rows t =
     t\<lparr>rows_per_page := Some 15, invisible_columns := (\<lambda>i. i = 4 \<or> i = 5), filter_autodetect := False,
       tfilters := map (\<lambda>i. (i, clients_filter i)) [0..<14],
       minwidths := nth_int [110, 73, 70, 73, 75, 115, 90, 105, 85, 60, 70, 75, 90, 85, 110],
       data := DataObj (Some clients_header) (Some rows)\<rparr>"

definition clients_success :: "host \<Rightarrow> (string list \<Rightarrow> string list) \<Rightarrow> client_doc list option \<Rightarrow> tpage \<Rightarrow> tpage js" where
  "clients_success h rkeys d p =
     jbind (tbl_at p 3) (\<lambda>t. render h 3 (set_tbl p 3 (clients_settings (client_rows rkeys d) t)))"

section \<open>display and update_data\<close>

definition new_table :: table where
  "new_table = default_table\<lparr>filter_autodetect := True, sort_autodetect := True\<rparr>"

definition create_table :: "tpage \<Rightarrow> tpage" where
  "create_table p = p\<lparr>tables := tables p @ [new_table], views := views p @ [None]\<rparr>"

definition update_jobs :: "host \<Rightarrow> string \<Rightarrow> string option \<Rightarrow> tpage \<Rightarrow> tpage js" where
  "update_jobs h awe_ip cgi p =
     jbind (tbl_at p 1) (\<lambda>t. jbind (render h 1 (set_tbl p 1 (jobs_settings awe_ip cgi t))) (update (NavObj no_params) 1))"

definition update_workunits :: "host \<Rightarrow> string \<Rightarrow> tpage \<Rightarrow> tpage js" where
  "update_workunits h awe_ip p =
     jbind (tbl_at p 2) (\<lambda>t. jbind (render h 2 (set_tbl p 2 (work_settings awe_ip t))) (update (NavObj no_params) 2))"

text \<open>The second component are the requests the widget sends itself.\<close>

definition update_data :: "host \<Rightarrow> string \<Rightarrow> string option \<Rightarrow> string \<Rightarrow> tpage \<Rightarrow> (tpage \<times> request list) js" where
  "update_data h awe_ip cgi which p =
     (if which = ''overview'' then ok (p, [(''GET'', awe_ip @ ''/queue?json'')])
      else if which = ''jobs'' then jbind (update_jobs h awe_ip cgi p) (\<lambda>p. ok (p, []))
      else if which = ''workunits'' then jbind (update_workunits h awe_ip p) (\<lambda>p. ok (p, []))
      else if which = ''clients'' then ok (p, [(''GET'', awe_ip @ ''/client'')])
      else ok (p, []))"

definition show_view :: "host \<Rightarrow> string \<Rightarrow> string option \<Rightarrow> tpage \<times> request list \<Rightarrow> string \<Rightarrow> (tpage \<times> request list) js" where
  "show_view h awe_ip cgi s which =
     (case s of (p, rs) \<Rightarrow>
        jbind (update_data h awe_ip cgi which (if which \<noteq> ''overview'' then create_table p else p)) (\<lambda>(p', rs').
          ok (p', rs @ rs')))"

text \<open>Without the list of pipelines \<^verbatim>\<open>display\<close> only asks for it, and is called again by the answer.
  An empty \<^verbatim>\<open>pipeline\<close> or \<^verbatim>\<open>jobdetail\<close> parameter counts as absent.\<close>

definition monitor_display :: "host \<Rightarrow> string \<Rightarrow> bool \<Rightarrow> string option \<Rightarrow> string option \<Rightarrow> tpage \<Rightarrow> (tpage \<times> request list) js" where
  "monitor_display h awe_ip have_pipelines cgi jobdetail p =
     (if \<not> have_pipelines then ok (p, [(''GET'', awe_ip @ ''/job?distinct=pipeline'')])
      else let p1 = p\<lparr>tables := take 1 (tables p), views := take 1 (views p)\<rparr>
           in jbind (js_foldM (show_view h awe_ip cgi) (p1, [(''GET'', awe_ip)]) [''overview'', ''jobs'', ''workunits'', ''clients'']) (\<lambda>(p2, rs).
                ok (p2, rs @ (case jobdetail of None \<Rightarrow> [] | Some j \<Rightarrow> [(''GET'', awe_ip @ ''/job/'' @ j)]))))"

text \<open>The answers to the requests of the two tables, after their data manipulation.\<close>

definition jobs_success :: "host \<Rightarrow> job list \<Rightarrow> jsint \<Rightarrow> job props \<Rightarrow> tpage \<Rightarrow> (tpage \<times> job props) js" where
  "jobs_success h ds tot store p =
     (let (rows, store') = dataManipulationJobs ds store
      in jbind (update_success h 1 rows tot p) (\<lambda>p'. ok (p', store')))"

definition work_success :: "host \<Rightarrow> mhost \<Rightarrow> string \<Rightarrow> workunit list \<Rightarrow> jsint \<Rightarrow> tpage \<Rightarrow> tpage js" where
  "work_success h mh awe_ip ds tot p = update_success h 2 (dataManipulationWorkunits mh awe_ip ds) tot p"

end
