(* ===== verification/Monitor_Correct.thy ===== *)
theory Monitor_Correct
  imports Monitor_Jobs
begin

text \<open>
  Lemmas on the job side of the monitor: durations, the order of jobs, the rows of the jobs table
  and the page of one job.
\<close>

section \<open>Durations\<close>

lemma timePassed_text:
  assumes "0 \<le> n" "n < 10 ^ 15" "n \<notin> {1..86}" "n mod 86400000 \<notin> {1..3}"
  shows "timePassed (Some s) (Some (s + n))
    = time_text (Some (n div 86400000)) (Some (n mod 86400000 div 3600000)) (Some (n mod 3600000 div 60000))"
proof -
  let ?r = "n mod 86400000"
  have r: "0 \<le> ?r" "?r < 86400000" by simp_all
  have day: "parseInt_num (int_quot (Some n) 86400000) = Some (n div 86400000)"
    using assms by (intro int_quot_floor) auto
  have hour: "parseInt_num (int_quot (Some ?r) 3600000) = Some (?r div 3600000)"
    using assms(4) r by (intro int_quot_floor) auto
  have "?r mod 3600000 = n mod 3600000" by (rule mod_mod_cancel) simp
  moreover have "parseInt_num (int_quot (Some (?r mod 3600000)) 60000) = Some (?r mod 3600000 div 60000)"
    using pos_mod_bound [of 3600000 ?r] pos_mod_sign [of 3600000 ?r] by (intro int_quot_floor) auto
  ultimately show ?thesis
    by (simp add: timePassed_def Let_def i_scale_def day hour minus_mult_div_eq_mod)
qed

lemma timePassed_short:
  assumes "1 \<le> n" "n \<le> 86"
  shows "\<exists>d>0. \<exists>rest. timePassed (Some s) (Some (s + n)) = int_to_string d @ '' days '' @ rest"
proof -
  obtain d where "d > 0" "parseInt_num (int_quot (Some n) 86400000) = Some d"
    using int_quot_tiny [of n 86400000] assms by auto
  then show ?thesis by (auto simp: timePassed_def Let_def time_text_def jsint_to_string_def)
qed

lemma timePassed_NaN: "timePassed a None = ''NaN minutes''" "timePassed None b = ''NaN minutes''"
  by (simp_all add: timePassed_def Let_def int_quot_def parseInt_num_def i_scale_def time_text_def jsint_to_string_def)
    (simp_all add: parseInt_def parse_nat_prefix_def strip_sign_def is_space_def is_digit_def)

section \<open>The current task and the order of jobs\<close>

lemma current_task_from_eq:
  "current_task_from n ts =
     (let i = length (takeWhile (\<lambda>t. jt_state t = ''completed'') ts)
      in if i = length ts then Num (Fin 0)
         else if truthy (jt_desc (ts ! i)) then jt_desc (ts ! i) else Num (Fin (of_nat (n + i + 1))))"
  by (induction ts arbitrary: n) (simp_all add: Let_def)

lemma consistent_tasksort:
  assumes "consistent (\<lambda>a b. locale_compare h (submittime a) (submittime b)) S"
    and "\<And>j. j \<in> S \<Longrightarrow> state_order (job_state j) \<noteq> None"
  shows "consistent (tasksort h) S"
proof -
  have known: "\<exists>x. state_order (job_state j) = Some x" if "j \<in> S" for j using assms(2) [OF that] by simp
  note lc = consistentD [OF assms(1)]
  show ?thesis
    unfolding consistent_def
  proof (intro conjI ballI impI)
    fix a assume "a \<in> S"
    with lc(1) show "tasksort h a a = 0" by (auto simp: tasksort_def Let_def split: option.splits)
  next
    fix a b assume ab: "a \<in> S" "b \<in> S"
    obtain x y where "state_order (job_state a) = Some x" "state_order (job_state b) = Some y"
      using known ab by blast
    then show "tasksort h a b < 0 \<longleftrightarrow> 0 < tasksort h b a"
      using lc(2) [OF ab] by (auto simp: tasksort_def Let_def)
  next
    fix a b c assume abc: "a \<in> S" "b \<in> S" "c \<in> S" and le: "tasksort h a b \<le> 0" "tasksort h b c \<le> 0"
    obtain x y z where "state_order (job_state a) = Some x" "state_order (job_state b) = Some y"
      "state_order (job_state c) = Some z" using known [OF abc(1)] known [OF abc(2)] known [OF abc(3)] by auto
    then have "tasksort h a b \<le> 0 \<longleftrightarrow> x > y \<or> (x = y \<and> locale_compare h (submittime a) (submittime b) \<le> 0)"
      "tasksort h b c \<le> 0 \<longleftrightarrow> y > z \<or> (y = z \<and> locale_compare h (submittime b) (submittime c) \<le> 0)"
      "tasksort h a c \<le> 0 \<longleftrightarrow> x > z \<or> (x = z \<and> locale_compare h (submittime a) (submittime c) \<le> 0)"
      by (simp_all add: tasksort_def Let_def)
    then show "tasksort h a c \<le> 0" using le lc(3) [OF abc] by fastforce
  qed
qed

section \<open>Rows of the jobs table\<close>

lemma job_row_cells:
  "map (row_cell (job_row j)) [''submission'', ''job name'', ''job id'', ''status'', ''pipeline'', ''current state'', ''todo'', ''AWE ID'']
     = [Str (submittime j), Str (job_link (job_id j) (job_name j)), Str (job_id j), Str (dots (job_tasks j)), pipeline j,
        Str (job_state j @ (if job_state j = ''suspend'' then resume_button (job_id j) else [])), remaintasks j, Str (job_id j)]"
  by (simp add: job_row_def row_cell_def oget_def)

lemma jobs_stored:
  assumes "distinct (map job_id ds)" "j \<in> set ds"
  shows "oget (snd (dataManipulationJobs ds store)) (job_id j) = Some j"
  using obj.get_put_all_distinct [OF assms, of "\<lambda>x. x" store] by (simp add: dataManipulationJobs_def Let_def)

section \<open>The page of a job\<close>

definition origin_ok :: "jtask list \<Rightarrow> infile \<Rightarrow> bool" where
  "origin_ok ts f \<longleftrightarrow>
     \<not> truthy (if_origin f) \<or> (is_index (to_string (if_origin f)) \<and> digits_val (to_string (if_origin f)) < length ts)"

lemma input_row_cases:
  "origin_ok ts f \<Longrightarrow> \<exists>r. input_row h ts f = Inr r" "\<not> origin_ok ts f \<Longrightarrow> input_row h ts f = Inl TypeError"
  by (auto simp: input_row_def origin_ok_def origin_cell_def task_at_def Let_def)

lemma listed_inputs_iff:
  "(k, f) \<in> set (listed_inputs files) \<longleftrightarrow>
     oget files k = Some f \<and> \<not> if_nofile f \<and> k \<noteq> ''mysql.tar'' \<and> k \<noteq> ''postgresql.tar''"
  by (force simp: listed_inputs_def List.map_filter_def set_okeys)

lemma stageDetails_returns:
  assumes "i < length ts" "\<forall>(k, f) \<in> set (listed_inputs (jt_inputs (ts ! i))). origin_ok ts f"
  shows "\<exists>s. stageDetails h ts i = Inr s"
proof -
  have "\<exists>rows. input_rows h ts (jt_inputs (ts ! i)) = Inr rows"
    unfolding input_rows_def using assms(2) by (intro js_mapM_ex) (auto intro!: input_row_cases(1))
  with assms(1) show ?thesis by (auto simp: stageDetails_def Let_def)
qed

lemma stageDetails_throws:
  assumes "(k, f) \<in> set (listed_inputs (jt_inputs (ts ! i)))" "\<not> origin_ok ts f"
  shows "stageDetails h ts i = Inl TypeError"
proof -
  have "input_rows h ts (jt_inputs (ts ! i)) = Inl TypeError"
    unfolding input_rows_def
  proof (rule js_mapM_throws [OF assms(1)])
    show "input_row h ts (snd (k, f)) = Inl TypeError" using input_row_cases(2) [OF assms(2)] by simp
    show "input_row h ts (snd p) = Inl TypeError \<or> (\<exists>z. input_row h ts (snd p) = Inr z)" for p
      using input_row_cases [of ts "snd p" h] by blast
  qed
  then show ?thesis by (simp add: stageDetails_def Let_def)
qed

text \<open>What the page is meant to show of a stage: its colour and whether it can be opened.\<close>

fun stage_style :: "string \<Rightarrow> (string \<times> bool) option" where
  "stage_style st =
     map_of [(''completed'', (''donepill'', True)), (''in-progress'', (''runningpill'', False)),
             (''queued'', (''queuedpill'', False)), (''error'', (''errorpill'', True)),
             (''pending'', (''pendingpill'', False)), (''suspend'', (''errorpill'', True))] st"

definition opened :: "jtask \<Rightarrow> bool" where
  "opened t \<longleftrightarrow> (case stage_style (jt_state t) of Some (_, b) \<Rightarrow> b | None \<Rightarrow> False)"

definition pill_of :: "pill \<Rightarrow> jsval \<times> string \<times> (string \<times> nat) option option" where
  "pill_of p = (pl_desc p, pl_class p, map_option fst (pl_details p))"

definition stage_line :: "job \<Rightarrow> nat \<Rightarrow> (jsval \<times> string \<times> (string \<times> nat) option option) option" where
  "stage_line j i =
     (let t = job_tasks j ! i
      in map_option (\<lambda>(cls, b). (jt_desc t, cls,
           if b then Some (if job_state j = ''suspend'' then Some (job_id j, i) else None) else None))
         (stage_style (jt_state t)))"

lemma stage_pill_line:
  assumes "i < length (job_tasks j)"
    and "opened (job_tasks j ! i) \<Longrightarrow> \<exists>s. stageDetails h (job_tasks j) i = Inr s"
  shows "\<exists>p. stage_pill h j i = Inr p \<and> map_option pill_of p = stage_line j i"
  using assms(2)
  by (auto simp: stage_pill_def open_pill_def closed_pill_def stage_line_def Let_def opened_def pill_of_def
      recomputeButton_def split: if_splits)

lemma stage_pill_total:
  "(\<exists>p. stage_pill h j i = Inr p) \<or> stage_pill h j i = Inl TypeError"
proof -
  have "(\<exists>s. stageDetails h ts i = Inr s) \<or> stageDetails h ts i = Inl TypeError" for ts
  proof (cases "i < length ts")
    case True
    then show ?thesis using stageDetails_returns [OF True] stageDetails_throws [of _ _ ts i h] by blast
  next
    case False
    then have "stageDetails h ts i = Inl TypeError" unfolding stageDetails_def by (rule if_not_P)
    then show ?thesis ..
  qed
  from this [of "job_tasks j"] show ?thesis
    by (auto simp: stage_pill_def open_pill_def closed_pill_def Let_def)
qed

lemma map_filter_lines:
  "js_mapM f xs = Inr ys \<Longrightarrow> (\<And>x. x \<in> set xs \<Longrightarrow> \<exists>p. f x = Inr p \<and> map_option g p = l x)
     \<Longrightarrow> map g (List.map_filter (\<lambda>p. p) ys) = List.map_filter l xs"
proof (induction xs arbitrary: ys)
  case Nil
  then show ?case by (simp add: List.map_filter_def)
next
  case (Cons x xs)
  then obtain p ys' where *: "f x = Inr p" "js_mapM f xs = Inr ys'" "ys = p # ys'" by (auto simp: jbind_Inr_iff)
  then have "map g (List.map_filter (\<lambda>p. p) ys') = List.map_filter l xs" using Cons by auto
  moreover have "l x = map_option g p" using Cons.prems(2) [of x] * by auto
  ultimately show ?case using * by (auto simp: List.map_filter_simps split: option.splits)
qed

lemma stagePills_lines:
  assumes "job_tasks j \<noteq> []"
    and "\<forall>t \<in> set (job_tasks j). opened t \<longrightarrow> (\<forall>(k, f) \<in> set (listed_inputs (jt_inputs t)). origin_ok (job_tasks j) f)"
  shows "\<exists>reqs p. stagePills h ip btns store j = Inr (reqs, p) \<and> \<not> jp_none p
    \<and> map pill_of (jp_pills p) = List.map_filter (stage_line j) [0..<length (job_tasks j)]
    \<and> jp_custom p = shown_buttons btns (oget store (job_id j))
    \<and> jp_delete p = (if job_state j = ''suspend'' then Some (job_id j) else None)
    \<and> reqs = (if job_state j = ''suspend'' then fst (resolveError ip j) else [])"
proof -
  let ?n = "length (job_tasks j)"
  have line: "\<exists>p. stage_pill h j i = Inr p \<and> map_option pill_of p = stage_line j i" if "i \<in> set [0..<?n]" for i
    using that assms(2) by (intro stage_pill_line) (auto intro!: stageDetails_returns)
  then have "\<exists>ps. js_mapM (stage_pill h j) [0..<?n] = Inr ps" by (intro js_mapM_ex) blast
  then obtain ps where ps: "js_mapM (stage_pill h j) [0..<?n] = Inr ps" by blast
  have "map pill_of (List.map_filter (\<lambda>p. p) ps) = List.map_filter (stage_line j) [0..<?n]"
    using map_filter_lines [OF ps line] by simp
  with ps assms(1) show ?thesis
    by (simp add: stagePills_def Let_def case_prod_beta)
qed

lemma stagePills_throws:
  assumes "i < length (job_tasks j)" "opened (job_tasks j ! i)"
    and "(k, f) \<in> set (listed_inputs (jt_inputs (job_tasks j ! i)))" "\<not> origin_ok (job_tasks j) f"
  shows "stagePills h ip btns store j = Inl TypeError"
proof -
  have bad: "stage_pill h j i = Inl TypeError"
    using stageDetails_throws [OF assms(3,4)] assms(2)
    by (auto simp: stage_pill_def open_pill_def opened_def Let_def split: if_splits)
  have "js_mapM (stage_pill h j) [0..<length (job_tasks j)] = Inl TypeError"
    using assms(1) bad stage_pill_total by (intro js_mapM_throws [where x = i]) auto
  then show ?thesis using assms(1) by (auto simp: stagePills_def Let_def case_prod_beta)
qed

end
