(* ===== verification/Monitor_View.thy ===== *)
theory Monitor_View
  imports Monitor_Tables Monitor_Correct Table_Nav_Correct Table_Url
begin

text \<open>
  The tables of the monitor as the table renderer draws them: the tables and requests of the first
  display, and what the jobs table shows of an answer.
\<close>

section \<open>The jobs table\<close>

lemma async_render:
  assumes "header t = Some hdr" "tdata t = Some td" "\<not> synchronous t" "is_sorted t" "\<not> sort_autodetect t"
    and "header_cells h hdr td (split_raw (init_callback t)) = Inr (t', cells)"
  shows "render_table h t = Inr (t', mk_view hdr td cells td t')"
proof -
  obtain fs where "t' = (split_raw (init_callback t))\<lparr>tfilters := fs\<rparr>"
    using header_cells_frame [OF assms(6)] by blast
  then show ?thesis
    using assms by (simp add: render_table_def init_header_def parse_data_def detect_sorttypes_def apply_filter_def
        sort_rows_def)
qed

definition jobs_ready :: "table \<Rightarrow> bool" where
  "jobs_ready t \<longleftrightarrow> header t = Some jobs_header \<and> \<not> synchronous t \<and> \<not> sort_autodetect t \<and> \<not> filter_autodetect t
     \<and> invisible_columns t = (\<lambda>i. i = 7)
     \<and> map (\<lambda>(i, f). (i, ftype f)) (tfilters t)
         = [(1, ''text''), (2, ''text''), (4, ''premade-select''), (5, ''premade-select''), (6, ''text'')]"

lemma jobs_header_cells:
  assumes t: "\<not> filter_autodetect t" "invisible_columns t = (\<lambda>i. i = 7)"
    and fs: "tfilters t = [(1, f1), (2, f2), (4, f4), (5, f5), (6, f6)]"
    and ty: "ftype f1 = ''text''" "ftype f2 = ''text''" "ftype f4 = ''premade-select''" "ftype f5 = ''premade-select''" "ftype f6 = ''text''"
  shows "\<exists>t' cells. header_cells h jobs_header td t = Inr (t', cells)
    \<and> map hc_col cells = [0, 1, 2, 3, 4, 5, 6]
    \<and> map (\<lambda>c. map_option felem_col (hc_filter c)) cells = [None, Some 1, None, None, None, Some 2, Some 6]
    \<and> map (\<lambda>(i, f). (i, ftype f)) (tfilters t') = map (\<lambda>(i, f). (i, ftype f)) (tfilters t)"
  using t ty
  by (simp add: header_cells_def jobs_header_def header_cell_def Let_def fget_def filter_element_def detect_filter_def
      base_cell_def take_elem_def upt_rec_numeral fs)

lemma jobs_ready_cells:
  assumes "jobs_ready t"
  shows "\<exists>t' cells. header_cells h jobs_header td t = Inr (t', cells)
    \<and> map hc_col cells = [0, 1, 2, 3, 4, 5, 6]
    \<and> map (\<lambda>c. map_option felem_col (hc_filter c)) cells = [None, Some 1, None, None, None, Some 2, Some 6]
    \<and> jobs_ready t'"
proof -
  obtain f1 f2 f4 f5 f6 where fs: "tfilters t = [(1, f1), (2, f2), (4, f4), (5, f5), (6, f6)]"
    "ftype f1 = ''text''" "ftype f2 = ''text''" "ftype f4 = ''premade-select''" "ftype f5 = ''premade-select''" "ftype f6 = ''text''"
    using assms by (auto simp: jobs_ready_def map_eq_Cons_conv)
  obtain t' cells where r: "header_cells h jobs_header td t = Inr (t', cells)" "map hc_col cells = [0, 1, 2, 3, 4, 5, 6]"
    "map (\<lambda>c. map_option felem_col (hc_filter c)) cells = [None, Some 1, None, None, None, Some 2, Some 6]"
    "map (\<lambda>(i, f). (i, ftype f)) (tfilters t') = map (\<lambda>(i, f). (i, ftype f)) (tfilters t)"
    using jobs_header_cells [OF _ _ fs, of h td] assms by (auto simp: jobs_ready_def)
  moreover obtain gs where "t' = t\<lparr>tfilters := gs\<rparr>" using header_cells_frame [OF r(1)] by blast
  with r(4) assms have "jobs_ready t'" by (simp add: jobs_ready_def)
  ultimately show ?thesis by (intro exI [of _ t'] exI [of _ cells]) simp
qed

lemma jobs_ready_init [simp]:
  "jobs_ready (split_raw (init_callback t)) = jobs_ready t"
  "filter_autodetect (split_raw (init_callback t)) = filter_autodetect t"
  by (simp_all add: jobs_ready_def split_raw_def init_callback_def split: option.split data_src.split list.split)

lemma visible_jobs: "invisible_columns t = (\<lambda>i. i = 7) \<Longrightarrow> visible_cols jobs_header t = [0..<7]"
proof -
  assume i: "invisible_columns t = (\<lambda>i. i = 7)"
  have "filter (\<lambda>i. i \<noteq> 7) [0..<length jobs_header] = [0..<7]" by code_simp
  then show ?thesis by (simp only: visible_cols_def i)
qed

lemma jobs_header_at: "map (header_at jobs_header) [0..<7] = take 7 jobs_header"
  by code_simp

text \<open>What the jobs table shows for the rows of an answer.\<close>

definition shown_rows :: "string list \<Rightarrow> row list \<Rightarrow> string list list" where
  "shown_rows cols rows = map (\<lambda>r. map (\<lambda>k. to_html (row_cell r k)) cols) rows"

lemma update_success_jobs:
  assumes "1 < length (tables p)" "1 < length (views p)" "jobs_ready (tables p ! 1)"
  shows "\<exists>p' v. update_success h 1 rows tot p = Inr p' \<and> views p' ! 1 = Some v \<and> jobs_ready (tables p' ! 1)
    \<and> v_body v = shown_rows (take 7 jobs_header) rows \<and> length (tables p') = length (tables p)
    \<and> map hc_col (v_header v) = [0, 1, 2, 3, 4, 5, 6]
    \<and> map (\<lambda>c. map_option felem_col (hc_filter c)) (v_header v) = [None, Some 1, None, None, None, Some 2, Some 6]"
proof -
  let ?t = "tables p ! 1"
  let ?n = "length (row_store ?t)"
  let ?td = "[?n..<?n + length rows]"
  let ?u = "?t\<lparr>row_store := row_store ?t @ rows, tdata := Some ?td, filter_changed := False, is_sorted := True, numrows := tot\<rparr>"
  have u: "jobs_ready ?u" using assms(3) by (simp add: jobs_ready_def)
  then obtain t' cells where c: "header_cells h jobs_header ?td (split_raw (init_callback ?u)) = Inr (t', cells)"
    "map hc_col cells = [0, 1, 2, 3, 4, 5, 6]" "jobs_ready t'"
    "map (\<lambda>c. map_option felem_col (hc_filter c)) cells = [None, Some 1, None, None, None, Some 2, Some 6]"
    using jobs_ready_cells [of "split_raw (init_callback ?u)" h ?td] by auto
  have r: "render_table h ?u = Inr (t', mk_view jobs_header ?td cells ?td t')"
    by (rule async_render) (use u c(1) in \<open>auto simp: jobs_ready_def\<close>)
  obtain gs where t': "t' = (split_raw (init_callback ?u))\<lparr>tfilters := gs\<rparr>" using header_cells_frame [OF c(1)] by blast
  have "cell t' (?n + i) k = row_cell (rows ! i) k" if "i < length rows" for i k
    using that by (simp add: t' cell_def nth_append)
  then have "map (\<lambda>r. map (\<lambda>k. to_html (cell t' r k)) ks) ?td = shown_rows ks rows" for ks
    by (intro nth_equalityI) (auto simp: shown_rows_def)
  from this [of "map (header_at jobs_header) [0..<7]"]
  have "map (\<lambda>r. map (\<lambda>i. to_html (cell t' r (header_at jobs_header i))) [0..<7]) ?td = shown_rows (take 7 jobs_header) rows"
    unfolding jobs_header_at by (simp only: map_map comp_def jobs_header_at [symmetric])
  moreover have "page_of ?td ?td t' = ?td" using c(3) by (simp add: page_of_def jobs_ready_def)
  moreover have "visible_cols jobs_header t' = [0..<7]" using c(3) by (intro visible_jobs) (simp add: jobs_ready_def)
  ultimately have "v_body (mk_view jobs_header ?td cells ?td t') = shown_rows (take 7 jobs_header) rows"
    by (simp add: mk_view_def Let_def)
  moreover have "v_header (mk_view jobs_header ?td cells ?td t') = cells" by (simp add: mk_view_def Let_def)
  ultimately show ?thesis
    using assms(1,2) c r by (simp add: update_success_def tbl_at_def render_def set_tbl_def Let_def)
qed

section \<open>The first display\<close>

text \<open>A new table without rows, before the first answer.\<close>

lemma first_render:
  assumes "header t = None" "tdata t = None" "data t = DataObj (Some hdr) (Some [])" "\<not> synchronous t"
    "\<not> sort_autodetect t" "\<not> is_sorted t"
    and "header_cells h hdr [] ((init_callback t)\<lparr>header := Some hdr, tdata := Some [], data := DataObj None None\<rparr>) = Inr (t5, cells)"
  shows "\<exists>fs v. render_table h t = Inr ((init_callback t)\<lparr>header := Some hdr, tdata := Some [], data := DataObj None None,
      tfilters := fs, is_sorted := True\<rparr>, v) \<and> fs = tfilters t5"
proof -
  let ?u = "(init_callback t)\<lparr>header := Some hdr, tdata := Some [], data := DataObj None None\<rparr>"
  have i: "split_raw (init_callback t) = init_callback t" "header (init_callback t) = None" "tdata (init_callback t) = None"
    "data (init_callback t) = DataObj (Some hdr) (Some [])" "\<not> synchronous (init_callback t)"
    "\<not> sort_autodetect (init_callback t)" "\<not> is_sorted (init_callback t)"
    using assms(1-6) by (simp_all add: init_callback_def split_raw_def split: option.split)
  obtain fs where fs: "t5 = ?u\<lparr>tfilters := fs\<rparr>" using header_cells_frame [OF assms(7)] by blast
  have s: "js_sortM c [] = Inr []" for c :: "nat \<Rightarrow> nat \<Rightarrow> int js" by (simp add: js_sortM_def)
  show ?thesis
    using assms(7) i by (simp add: render_table_def init_header_def parse_data_def detect_sorttypes_def apply_filter_def
        sort_rows_def uses_filter_def s fs)
qed

lemma render_new_jobs:
  "\<exists>t' v. render_table h (jobs_settings ip cgi new_table) = Inr (t', v) \<and> jobs_ready t'
    \<and> navigation_url t' = Some (ip @ ''/job?query'') \<and> offset t' = Some 0 \<and> rows_per_page t' = Some 20
    \<and> query_type t' = ''prefix'' \<and> tquery t' = tquery (jobs_settings ip cgi new_table)
    \<and> sort_field t' = None \<and> sort_direction t' = None"
proof -
  let ?t = "jobs_settings ip cgi new_table"
  let ?u = "(init_callback ?t)\<lparr>header := Some jobs_header, tdata := Some [], data := DataObj None None\<rparr>"
  have "jobs_ready ?u"
    by (simp add: jobs_ready_def jobs_settings_def new_table_def default_table_def init_callback_def filter_of_def)
  then obtain t5 cells where c: "header_cells h jobs_header [] ?u = Inr (t5, cells)" "jobs_ready t5"
    using jobs_ready_cells [of ?u h "[]"] by auto
  obtain v where "render_table h ?t = Inr ((init_callback ?t)\<lparr>header := Some jobs_header, tdata := Some [],
      data := DataObj None None, tfilters := tfilters t5, is_sorted := True\<rparr>, v)"
    using first_render [OF _ _ _ _ _ _ c(1)]
    by (auto simp: jobs_settings_def new_table_def default_table_def)
  then show ?thesis
    using c(2) by (auto simp: jobs_ready_def jobs_settings_def new_table_def default_table_def init_callback_def)
qed

lemma work_header_cells:
  assumes t: "\<not> filter_autodetect t" "invisible_columns t = (\<lambda>_. False)"
    and fs: "tfilters t = [(0, tx), (1, tx), (2, tx), (3, tx), (4, tx), (5, tx), (6, pm), (7, tx), (8, tx)]"
    and ty: "ftype tx = ''text''" "ftype pm = ''premade-select''"
  shows "\<exists>t' cells. header_cells h work_header [] t = Inr (t', cells)"
  using t ty
  by (simp add: header_cells_def work_header_def header_cell_def Let_def fget_def filter_element_def detect_filter_def
      base_cell_def take_elem_def upt_rec_numeral fs)

lemma work_filters:
  "tfilters (work_settings ip t) =
     [(0, filter_of ''text'' None), (1, filter_of ''text'' None), (2, filter_of ''text'' None), (3, filter_of ''text'' None),
      (4, filter_of ''text'' None), (5, filter_of ''text'' None), (6, filter_of ''premade-select'' (Some [])),
      (7, filter_of ''text'' None), (8, filter_of ''text'' None)]"
proof -
  have "[0..<9] = [0, 1, 2, 3, 4, 5, 6, 7, 8 :: nat]" by code_simp
  then show ?thesis by (simp add: work_settings_def)
qed

lemma render_new_work:
  "\<exists>t' v. render_table h (work_settings ip new_table) = Inr (t', v)
    \<and> navigation_url t' = Some (ip @ ''/work?query'') \<and> offset t' = Some 0 \<and> rows_per_page t' = Some 10
    \<and> query_type t' = ''prefix'' \<and> tquery t' = [] \<and> sort_field t' = None \<and> sort_direction t' = None"
proof -
  let ?t = "work_settings ip new_table"
  let ?u = "(init_callback ?t)\<lparr>header := Some work_header, tdata := Some [], data := DataObj None None\<rparr>"
  obtain t5 cells where c: "header_cells h work_header [] ?u = Inr (t5, cells)"
  proof -
    have "tfilters ?u = tfilters ?t" "\<not> filter_autodetect ?u" "invisible_columns ?u = (\<lambda>_. False)"
      by (simp_all add: work_settings_def new_table_def default_table_def init_callback_def)
    then show ?thesis
      using work_header_cells [of ?u "filter_of ''text'' None" "filter_of ''premade-select'' (Some [])" h] that
      by (auto simp: work_filters filter_of_def)
  qed
  obtain v where "render_table h ?t = Inr ((init_callback ?t)\<lparr>header := Some work_header, tdata := Some [],
      data := DataObj None None, tfilters := tfilters t5, is_sorted := True\<rparr>, v)"
    using first_render [OF _ _ _ _ _ _ c] by (auto simp: work_settings_def new_table_def default_table_def)
  then show ?thesis by (auto simp: work_settings_def new_table_def default_table_def init_callback_def)
qed

lemma no_params_update: "update_params (NavObj no_params) t = t"
  by (simp add: update_params_def no_params_def update_query_def update_sort_def)

definition jobs_query_part :: "string option \<Rightarrow> string" where
  "jobs_query_part cgi = (case cgi of None \<Rightarrow> [] | Some w \<Rightarrow> if w = [] then [] else ''info.pipeline='' @ w @ ''&'')"

lemma update_jobs_new:
  assumes "length (tables p) = 2" "length (views p) = 2" "tables p ! 1 = new_table"
  shows "\<exists>t v. update_jobs h ip cgi p = Inr (p\<lparr>tables := [tables p ! 0, t], views := [views p ! 0, Some v], cur := 1,
      log := log p @ [Ajax (ip @ ''/job?query&'' @ jobs_query_part cgi @ ''limit=20&offset=0'') 1]\<rparr>) \<and> jobs_ready t"
proof -
  obtain t v where r: "render_table h (jobs_settings ip cgi new_table) = Inr (t, v)" "jobs_ready t"
    "navigation_url t = Some (ip @ ''/job?query'')" "offset t = Some 0" "rows_per_page t = Some 20"
    "query_type t = ''prefix''" "tquery t = tquery (jobs_settings ip cgi new_table)" "sort_field t = None" "sort_direction t = None"
    using render_new_jobs by blast
  obtain t0 where t0: "tables p = [t0, new_table]"
    using assms by (cases "tables p"; cases "tl (tables p)") auto
  obtain v0 v1 where v0: "views p = [v0, v1]"
    using assms(2) by (auto simp: numeral_2_eq_2 length_Suc_conv)
  have q: "query_parts ''prefix'' (query_values (tquery t)) =
      (case cgi of None \<Rightarrow> [] | Some w \<Rightarrow> if w = [] then [] else [''info.pipeline='' @ w])"
    using r(7) by (auto simp: jobs_settings_def new_table_def default_table_def query_parts_def query_values_def okeys_def
        oget_def List.map_filter_def query_part_def is_index_def Let_def split: option.splits)
  have sep: "url_sep (ip @ ''/job?query'') = ''&''" by (simp add: url_sep_def has_qmark_def)
  have texts: "jsint_to_string (Some 20) = ''20''" "jsint_to_string (Some 0) = ''0''" by code_simp+
  have "url_params t = (case cgi of None \<Rightarrow> [] | Some w \<Rightarrow> if w = [] then [] else [''info.pipeline='' @ w]) @ [''limit=20'', ''offset=0'']"
    using r texts q by (simp add: url_params_def)
  then have "update_url t = Inr (ip @ ''/job?query&'' @ jobs_query_part cgi @ ''limit=20&offset=0'')"
    using update_url_join [OF r(3)] sep by (auto simp: jobs_query_part_def split: option.splits)
  then show ?thesis
    using r(1,2) by (intro exI [of _ t] exI [of _ v])
      (simp add: update_jobs_def tbl_at_def render_def set_tbl_def update_def no_params_update emit_def Let_def t0 v0)
qed

lemma update_work_new:
  assumes "length (tables p) = 3" "length (views p) = 3" "tables p ! 2 = new_table"
  shows "\<exists>t v. update_workunits h ip p = Inr (p\<lparr>tables := (tables p)[2 := t], views := (views p)[2 := Some v], cur := 2,
      log := log p @ [Ajax (ip @ ''/work?query&limit=10&offset=0'') 2]\<rparr>)"
proof -
  obtain t v where r: "render_table h (work_settings ip new_table) = Inr (t, v)"
    "navigation_url t = Some (ip @ ''/work?query'')" "offset t = Some 0" "rows_per_page t = Some 10"
    "query_type t = ''prefix''" "tquery t = []" "sort_field t = None" "sort_direction t = None"
    using render_new_work by blast
  have sep: "url_sep (ip @ ''/work?query'') = ''&''" by (simp add: url_sep_def has_qmark_def)
  have texts: "jsint_to_string (Some 10) = ''10''" "jsint_to_string (Some 0) = ''0''" by code_simp+
  have "url_params t = [''limit=10'', ''offset=0'']"
    using r texts by (simp add: url_params_def query_parts_def query_values_def okeys_def List.map_filter_def)
  then have "update_url t = Inr (ip @ ''/work?query&limit=10&offset=0'')"
    using update_url_join [OF r(2)] sep by simp
  then show ?thesis
    using r(1) assms by (intro exI [of _ t] exI [of _ v])
      (simp add: update_workunits_def tbl_at_def render_def set_tbl_def update_def no_params_update emit_def Let_def)
qed

lemma display_views:
  assumes "tables p \<noteq> []" "views p \<noteq> []"
  shows "\<exists>tj tw vj vw. js_foldM (show_view h ip cgi) (p\<lparr>tables := take 1 (tables p), views := take 1 (views p)\<rparr>, [(''GET'', ip)])
      [''overview'', ''jobs'', ''workunits'', ''clients'']
    = Inr (p\<lparr>tables := [hd (tables p), tj, tw, new_table], views := [hd (views p), Some vj, Some vw, None], cur := 2,
          log := log p @ [Ajax (ip @ ''/job?query&'' @ jobs_query_part cgi @ ''limit=20&offset=0'') 1,
                          Ajax (ip @ ''/work?query&limit=10&offset=0'') 2]\<rparr>,
        [(''GET'', ip), (''GET'', ip @ ''/queue?json''), (''GET'', ip @ ''/client'')])
    \<and> jobs_ready tj"
proof -
  obtain t0 ts where t0: "tables p = t0 # ts" using assms(1) by (cases "tables p") auto
  obtain v0 vs where v0: "views p = v0 # vs" using assms(2) by (cases "views p") auto
  let ?p1 = "p\<lparr>tables := [t0, new_table], views := [v0, None]\<rparr>"
  obtain tj vj where j: "update_jobs h ip cgi ?p1 = Inr (p\<lparr>tables := [t0, tj], views := [v0, Some vj], cur := 1,
      log := log p @ [Ajax (ip @ ''/job?query&'' @ jobs_query_part cgi @ ''limit=20&offset=0'') 1]\<rparr>)" "jobs_ready tj"
    using update_jobs_new [of ?p1 h ip cgi] by auto
  let ?p2 = "p\<lparr>tables := [t0, tj, new_table], views := [v0, Some vj, None], cur := 1,
      log := log p @ [Ajax (ip @ ''/job?query&'' @ jobs_query_part cgi @ ''limit=20&offset=0'') 1]\<rparr>"
  obtain tw vw where w: "update_workunits h ip ?p2 = Inr (p\<lparr>tables := [t0, tj, tw], views := [v0, Some vj, Some vw], cur := 2,
      log := log p @ [Ajax (ip @ ''/job?query&'' @ jobs_query_part cgi @ ''limit=20&offset=0'') 1,
                      Ajax (ip @ ''/work?query&limit=10&offset=0'') 2]\<rparr>)"
    using update_work_new [of ?p2 h ip] by (auto simp: numeral_2_eq_2)
  show ?thesis
    apply (rule exI [of _ tj], rule exI [of _ tw], rule exI [of _ vj], rule exI [of _ vw])
    using j w t0 v0 by (cases p) (simp add: show_view_def update_data_def create_table_def)
qed

end
