(* ===== verification/Monitor_Actions.thy ===== *)
theory Monitor_Actions
  imports Monitor_Jobs Table_Nav
begin

text \<open>
  The requests the monitor sends on behalf of the user (widgets/widget.awe_monitor.js): resuming,
  recomputing and deleting jobs, resuming clients, and reading documents. A request is answered
  later, or never, in any order; what its callbacks do is its handler. The state \<^verbatim>\<open>mon\<close> holds every
  request that was sent with the state of its answer, what was shown to the user, and for each call
  of \<^verbatim>\<open>resumeJobs\<close> the number of its promises that are not resolved (\<^verbatim>\<open>jQuery.when\<close> calls back
  once all of them are).
\<close>

datatype notice = Alert string | Redisplay | ReloadJobs | ShowJson | SaveFile string | JobsResumed nat

datatype handler = Notify "notice list" "notice list" | Json | Save string | Promise nat | WithStage jsval

datatype status = Open | Succeeded | Failed

record sreq =
  rq_method :: string
  rq_url :: string
  rq_handler :: handler
  rq_status :: status

record mon =
  sreqs :: "sreq list"
  notices :: "notice list"
  batches :: "nat list"

definition init_mon :: mon where
  "init_mon = \<lparr>sreqs = [], notices = [], batches = []\<rparr>"

definition send :: "string \<Rightarrow> string \<Rightarrow> handler \<Rightarrow> mon \<Rightarrow> mon" where
  "send meth url h m = m\<lparr>sreqs := sreqs m @ [\<lparr>rq_method = meth, rq_url = url, rq_handler = h, rq_status = Open\<rparr>]\<rparr>"

definition notify :: "notice list \<Rightarrow> mon \<Rightarrow> mon" where
  "notify ns m = m\<lparr>notices := notices m @ ns\<rparr>"

section \<open>Clients and jobs\<close>

definition resumeClient :: "string \<Rightarrow> string \<Rightarrow> mon \<Rightarrow> mon" where
  "resumeClient awe_ip clientid =
     send ''PUT'' (awe_ip @ ''/client/'' @ clientid @ ''?resume'')
       (Notify [Redisplay, Alert ''client resumed''] [Alert ''failed to resume client''])"

definition resumeAllClients :: "string \<Rightarrow> mon \<Rightarrow> mon" where
  "resumeAllClients awe_ip =
     send ''PUT'' (awe_ip @ ''/client?resumeall'')
       (Notify [Redisplay, Alert ''all clients resumed''] [Alert ''failed to resume all clients''])"

definition resumeJob :: "string \<Rightarrow> string \<Rightarrow> mon \<Rightarrow> mon" where
  "resumeJob awe_ip jobid =
     send ''PUT'' (awe_ip @ ''/job/'' @ jobid @ ''?resume'')
       (Notify [ReloadJobs, Alert ''job resumed''] [Alert ''failed to resume job''])"

definition deleteJob :: "string \<Rightarrow> string \<Rightarrow> mon \<Rightarrow> mon" where
  "deleteJob awe_ip jobid =
     send ''DELETE'' (awe_ip @ ''/job/'' @ jobid)
       (Notify [Redisplay, Alert ''job deleted''] [Alert ''failed to delete job''])"

definition resumeAllJobs :: "string \<Rightarrow> mon \<Rightarrow> mon" where
  "resumeAllJobs awe_ip =
     send ''PUT'' (awe_ip @ ''/job?resumeall'')
       (Notify [Redisplay, Alert ''all jobs resumed''] [Alert ''failed to resume all jobs''])"

text \<open>\<^verbatim>\<open>recomputeJob\<close> and \<^verbatim>\<open>resumeJobs\<close> index their argument: the elements of an array, the single
  characters of a text. \<^verbatim>\<open>recomputeJob\<close> wraps what is no object, \<^verbatim>\<open>resumeJobs\<close> does not.\<close>

datatype idarg = IdList "string list" | IdText string

definition recompute_ids :: "idarg \<Rightarrow> string list" where
  "recompute_ids a = (case a of IdList ids \<Rightarrow> ids | IdText jid \<Rightarrow> [jid])"

definition resume_ids :: "idarg \<Rightarrow> string list" where
  "resume_ids a = (case a of IdList ids \<Rightarrow> ids | IdText jid \<Rightarrow> map (\<lambda>c. [c]) jid)"

definition recompute_url :: "string \<Rightarrow> string \<Rightarrow> jsval \<Rightarrow> string" where
  "recompute_url awe_ip jid stage = awe_ip @ ''/job/'' @ jid @ ''?recompute='' @ to_string stage"

definition resume_url :: "string \<Rightarrow> string \<Rightarrow> string" where
  "resume_url awe_ip jid = awe_ip @ ''/job/'' @ jid @ ''?resume''"

definition recomputeJob :: "string \<Rightarrow> idarg \<Rightarrow> jsval \<Rightarrow> mon \<Rightarrow> mon" where
  "recomputeJob awe_ip a stage m =
     foldl (\<lambda>m jid. send ''PUT'' (recompute_url awe_ip jid stage) (Notify [] [Alert ''failed to start recomputation'']) m)
       m (recompute_ids a)"

text \<open>With no promise at all \<^verbatim>\<open>jQuery.when\<close> calls back at once.\<close>

definition resumeJobs :: "string \<Rightarrow> idarg \<Rightarrow> mon \<Rightarrow> mon" where
  "resumeJobs awe_ip a m =
     (let ids = resume_ids a; b = length (batches m);
          m1 = foldl (\<lambda>m jid. send ''PUT'' (resume_url awe_ip jid) (Promise b) m)
                 (m\<lparr>batches := batches m @ [length ids]\<rparr>) ids
      in if ids = [] then notify [JobsResumed b] m1 else m1)"

section \<open>Documents\<close>

definition authenticatedJSON :: "string \<Rightarrow> mon \<Rightarrow> mon" where
  "authenticatedJSON url = send ''GET'' url Json"

definition workunitDetails :: "string \<Rightarrow> string \<Rightarrow> string \<Rightarrow> mon \<Rightarrow> mon" where
  "workunitDetails awe_ip wid which m =
     (if which = ''stdout'' then authenticatedJSON (awe_ip @ ''/work/'' @ wid @ ''?report=stdout'') m
      else if which = ''stderr'' then authenticatedJSON (awe_ip @ ''/work/'' @ wid @ ''?report=stderr'') m
      else if which = ''worknotes'' then authenticatedJSON (awe_ip @ ''/work/'' @ wid @ ''?report=worknotes'') m
      else m)"

definition downloadHead :: "string \<Rightarrow> string \<Rightarrow> mon \<Rightarrow> mon" where
  "downloadHead url fn = send ''GET'' (url @ ''&index=size&part=1&chunksize=10240'') (Save fn)"

section \<open>The jobs of the current selection\<close>

text \<open>\<^verbatim>\<open>getCurrentIds\<close> asks for the suspended jobs under the query of the jobs table.\<close>

definition ids_query :: "table \<Rightarrow> query list" where
  "ids_query t = List.map_filter (oget (tquery t)) (filter (\<lambda>i. i \<noteq> ''state'') (okeys (tquery t)))"

definition ids_url :: "table \<Rightarrow> string js" where
  "ids_url t =
     (case navigation_url t of None \<Rightarrow> throw TypeError
      | Some base \<Rightarrow>
          (let url = join_url base (query_string (query_type t) (ids_query t))
           in ok (url @ (if has_qmark url then ''&'' else ''?'') @ ''limit=1000&offset=0&state=suspend'')))"

definition getCurrentIds :: "table \<Rightarrow> jsval \<Rightarrow> mon \<Rightarrow> mon js" where
  "getCurrentIds t stage m = jbind (ids_url t) (\<lambda>url. ok (send ''GET'' url (WithStage stage) m))"

text \<open>Its answer: \<^verbatim>\<open>this.stage !== null\<close> is true of every stage but null, also of undefined.\<close>

definition got_ids :: "string \<Rightarrow> jsval \<Rightarrow> string list \<Rightarrow> mon \<Rightarrow> mon" where
  "got_ids awe_ip stage ids m =
     (if stage \<noteq> Null then recomputeJob awe_ip (IdList ids) stage m else resumeJobs awe_ip (IdList ids) m)"

section \<open>Answers\<close>

text \<open>The answer to a request: the ids it lists (where it lists jobs), or the error text.\<close>

datatype answer = Success "string list" | Failure string

definition resolve :: "nat \<Rightarrow> mon \<Rightarrow> mon" where
  "resolve b m =
     (let m1 = m\<lparr>batches := (batches m)[b := batches m ! b - 1]\<rparr>
      in if batches m1 ! b = 0 then notify [JobsResumed b] m1 else m1)"

fun run_handler :: "string \<Rightarrow> handler \<Rightarrow> answer \<Rightarrow> mon \<Rightarrow> mon" where
  "run_handler awe_ip (Notify ns fs) (Success ids) m = notify ns m"
| "run_handler awe_ip (Notify ns fs) (Failure e) m = notify fs m"
| "run_handler awe_ip Json (Success ids) m = notify [ShowJson] m"
| "run_handler awe_ip Json (Failure e) m = notify [Alert e] m"
| "run_handler awe_ip (Save fn) (Success ids) m = notify [SaveFile fn] m"
| "run_handler awe_ip (Save fn) (Failure e) m = notify [Alert ''could not get head of file''] m"
| "run_handler awe_ip (Promise b) (Success ids) m = resolve b m"
| "run_handler awe_ip (Promise b) (Failure e) m = m"
| "run_handler awe_ip (WithStage stage) (Success ids) m = got_ids awe_ip stage ids m"
| "run_handler awe_ip (WithStage stage) (Failure e) m = m"

definition status_of :: "answer \<Rightarrow> status" where
  "status_of a = (case a of Success _ \<Rightarrow> Succeeded | Failure _ \<Rightarrow> Failed)"

definition set_status :: "nat \<Rightarrow> status \<Rightarrow> mon \<Rightarrow> mon" where
  "set_status i st m = m\<lparr>sreqs := (sreqs m)[i := (sreqs m ! i)\<lparr>rq_status := st\<rparr>]\<rparr>"

definition is_open :: "mon \<Rightarrow> nat \<Rightarrow> bool" where
  "is_open m i \<longleftrightarrow> i < length (sreqs m) \<and> rq_status (sreqs m ! i) = Open"

definition answered :: "string \<Rightarrow> nat \<Rightarrow> answer \<Rightarrow> mon \<Rightarrow> mon" where
  "answered awe_ip i a m = run_handler awe_ip (rq_handler (sreqs m ! i)) a (set_status i (status_of a) m)"

section \<open>Sessions\<close>

datatype action = ResumeClient string | ResumeAllClients | ResumeJob string | DeleteJob string | ResumeAllJobs
  | RecomputeJob idarg jsval | ResumeJobs idarg | ReadDoc string | WorkDetails string string | DownloadHead string string
  | CurrentIds table jsval

fun act :: "string \<Rightarrow> action \<Rightarrow> mon \<Rightarrow> mon js" where
  "act ip (ResumeClient c) m = ok (resumeClient ip c m)"
| "act ip ResumeAllClients m = ok (resumeAllClients ip m)"
| "act ip (ResumeJob j) m = ok (resumeJob ip j m)"
| "act ip (DeleteJob j) m = ok (deleteJob ip j m)"
| "act ip ResumeAllJobs m = ok (resumeAllJobs ip m)"
| "act ip (RecomputeJob a s) m = ok (recomputeJob ip a s m)"
| "act ip (ResumeJobs a) m = ok (resumeJobs ip a m)"
| "act ip (ReadDoc u) m = ok (authenticatedJSON u m)"
| "act ip (WorkDetails w r) m = ok (workunitDetails ip w r m)"
| "act ip (DownloadHead u f) m = ok (downloadHead u f m)"
| "act ip (CurrentIds t s) m = getCurrentIds t s m"

inductive mon_step :: "string \<Rightarrow> mon \<Rightarrow> mon \<Rightarrow> bool" for ip where
  user: "act ip a m = Inr m' \<Longrightarrow> mon_step ip m m'"
| server: "is_open m i \<Longrightarrow> mon_step ip m (answered ip i a m)"

inductive_cases mon_stepE: "mon_step ip m m'"

section \<open>Promises\<close>

definition awaiting :: "nat \<Rightarrow> sreq \<Rightarrow> bool" where
  "awaiting b r \<longleftrightarrow> rq_handler r = Promise b \<and> rq_status r \<noteq> Succeeded"

definition handler_ok :: "nat \<Rightarrow> handler \<Rightarrow> bool" where
  "handler_ok n h =
     (case h of Promise b \<Rightarrow> b < n | Notify ns fs \<Rightarrow> list_all (\<lambda>x. \<not> (\<exists>b. x = JobsResumed b)) (ns @ fs) | _ \<Rightarrow> True)"

definition mon_inv :: "mon \<Rightarrow> bool" where
  "mon_inv m \<longleftrightarrow>
     list_all (handler_ok (length (batches m))) (map rq_handler (sreqs m))
     \<and> (\<forall>b < length (batches m). batches m ! b = length (filter (awaiting b) (sreqs m)))
     \<and> (\<forall>b. count_list (notices m) (JobsResumed b) = (if b < length (batches m) \<and> batches m ! b = 0 then 1 else 0))"

end
