(* ===== verification/Monitor_Session.thy ===== *)
theory Monitor_Session
  imports Monitor_Actions Table_Url
begin

text \<open>
  Lemmas on sessions of the monitor: the invariant of the promises of \<^verbatim>\<open>resumeJobs\<close>, kept by every
  user action and every answer, and the address \<^verbatim>\<open>getCurrentIds\<close> asks.
\<close>

section \<open>Requests\<close>

lemma foldl_send:
  "foldl (\<lambda>m jid. send meth (u jid) h m) m ids
     = m\<lparr>sreqs := sreqs m @ map (\<lambda>jid. \<lparr>rq_method = meth, rq_url = u jid, rq_handler = h, rq_status = Open\<rparr>) ids\<rparr>"
  by (induction ids arbitrary: m) (simp_all add: send_def)

lemma length_filter_update:
  assumes "i < length xs"
  shows "length (filter P (xs[i := y])) + (if P (xs ! i) then 1 else 0) = length (filter P xs) + (if P y then 1 else 0)"
proof -
  have "filter P (xs[i := y]) = filter P (take i xs) @ (if P y then [y] else []) @ filter P (drop (Suc i) xs)"
    using assms by (simp add: upd_conv_take_nth_drop)
  moreover have "filter P xs = filter P (take i xs) @ (if P (xs ! i) then [xs ! i] else []) @ filter P (drop (Suc i) xs)"
    using assms by (subst id_take_nth_drop [OF assms]) simp
  ultimately show ?thesis by simp
qed

lemma mon_invD:
  assumes "mon_inv m"
  shows "r \<in> set (sreqs m) \<Longrightarrow> handler_ok (length (batches m)) (rq_handler r)"
    and "b < length (batches m) \<Longrightarrow> batches m ! b = length (filter (awaiting b) (sreqs m))"
    and "count_list (notices m) (JobsResumed b) = (if b < length (batches m) \<and> batches m ! b = 0 then 1 else 0)"
  using assms by (auto simp: mon_inv_def list_all_iff)

definition plain :: "handler \<Rightarrow> bool" where
  "plain h \<longleftrightarrow> handler_ok 0 h"

lemma handler_ok_mono: "handler_ok n h \<Longrightarrow> n \<le> n' \<Longrightarrow> handler_ok n' h"
  by (auto simp: handler_ok_def split: handler.splits)

lemma plain_awaiting: "plain (rq_handler r) \<Longrightarrow> \<not> awaiting b r"
  by (auto simp: plain_def handler_ok_def awaiting_def)

lemma mon_inv_init [js_inv]: "mon_inv init_mon"
  by (simp add: mon_inv_def init_mon_def)

lemma count_list_append [simp]: "count_list (xs @ ys) x = count_list xs x + count_list ys x"
  by (induction xs) auto

lemma mon_inv_send [js_inv]: "mon_inv m \<Longrightarrow> plain h \<Longrightarrow> mon_inv (send meth url h m)"
  using handler_ok_mono [of 0 h "length (batches m)"] plain_awaiting
  by (auto simp: mon_inv_def send_def plain_def)

lemma mon_inv_sends:
  "mon_inv m \<Longrightarrow> plain h \<Longrightarrow> mon_inv (foldl (\<lambda>m jid. send meth (u jid) h m) m ids)"
  by (induction ids arbitrary: m) (simp_all add: mon_inv_send)

lemma mon_inv_notify [js_inv]: "mon_inv m \<Longrightarrow> (\<And>b. JobsResumed b \<notin> set ns) \<Longrightarrow> mon_inv (notify ns m)"
  by (simp add: mon_inv_def notify_def count_notin)

lemma mon_inv_resumeJobs [js_inv]:
  assumes "mon_inv m"
  shows "mon_inv (resumeJobs ip a m)"
proof -
  let ?b = "length (batches m)" and ?ids = "resume_ids a"
  let ?new = "map (\<lambda>jid. \<lparr>rq_method = ''PUT'', rq_url = resume_url ip jid, rq_handler = Promise ?b, rq_status = Open\<rparr>) ?ids"
  have none: "filter (awaiting ?b) (sreqs m) = []"
    using mon_invD(1) [OF assms] by (fastforce simp: handler_ok_def awaiting_def filter_empty_conv)
  have other: "filter (awaiting b) ?new = (if b = ?b then ?new else [])" for b
    by (auto simp: awaiting_def filter_empty_conv filter_id_conv)
  have "resumeJobs ip a m = m\<lparr>sreqs := sreqs m @ ?new, batches := batches m @ [length ?ids],
      notices := notices m @ (if ?ids = [] then [JobsResumed ?b] else [])\<rparr>"
    by (simp add: resumeJobs_def Let_def foldl_send notify_def)
  moreover have "list_all (handler_ok (Suc ?b)) (map rq_handler (sreqs m @ ?new))"
    using handler_ok_mono [OF mon_invD(1) [OF assms], of _ "Suc ?b"]
    by (auto simp: list_all_iff handler_ok_def [of _ "Promise ?b"])
  ultimately show ?thesis
    using mon_invD(2,3) [OF assms] none other by (auto simp: mon_inv_def nth_append less_Suc_eq)
qed

lemma mon_inv_recomputeJob [js_inv]: "mon_inv m \<Longrightarrow> mon_inv (recomputeJob ip a stage m)"
  unfolding recomputeJob_def by (rule mon_inv_sends) (simp_all add: plain_def handler_ok_def)

lemma act_inv:
  assumes "mon_inv m" "act ip a m = Inr m'"
  shows "mon_inv m'"
  using assms
  by (cases a) (auto simp: jbind_Inr_iff resumeClient_def resumeAllClients_def resumeJob_def deleteJob_def
      resumeAllJobs_def authenticatedJSON_def workunitDetails_def downloadHead_def getCurrentIds_def plain_def handler_ok_def
      intro!: js_inv split: if_splits)

text \<open>Recording an answer changes no count unless it resolves a promise.\<close>

lemma set_status_inv:
  assumes "mon_inv m" "is_open m i" "\<And>b. rq_handler (sreqs m ! i) = Promise b \<Longrightarrow> st \<noteq> Succeeded"
  shows "mon_inv (set_status i st m)"
proof -
  let ?xs = "sreqs m" and ?y = "(sreqs m ! i)\<lparr>rq_status := st\<rparr>"
  have i: "i < length ?xs" "rq_status (?xs ! i) = Open" using assms(2) by (auto simp: is_open_def)
  have "length (filter (awaiting b) (?xs[i := ?y])) = length (filter (awaiting b) ?xs)" for b
    using length_filter_update [OF i(1), of "awaiting b" ?y] assms(3) i(2) by (auto simp: awaiting_def split: if_splits)
  moreover have "map rq_handler (?xs[i := ?y]) = map rq_handler ?xs" by (rule map_same_update) simp
  ultimately show ?thesis using assms(1) by (simp add: mon_inv_def set_status_def)
qed

lemma resolve_inv:
  assumes "mon_inv m" "is_open m i" "rq_handler (sreqs m ! i) = Promise b"
  shows "mon_inv (resolve b (set_status i Succeeded m))"
proof -
  let ?xs = "sreqs m" and ?y = "(sreqs m ! i)\<lparr>rq_status := Succeeded\<rparr>"
  have i: "i < length ?xs" "rq_status (?xs ! i) = Open" using assms(2) by (auto simp: is_open_def)
  have b: "b < length (batches m)" using mon_invD(1) [OF assms(1) nth_mem [OF i(1)]] assms(3) by (simp add: handler_ok_def)
  have aw: "awaiting b (?xs ! i)" "\<not> awaiting c ?y" for c using assms(3) i(2) by (auto simp: awaiting_def)
  have cnt: "length (filter (awaiting c) (?xs[i := ?y])) = length (filter (awaiting c) ?xs) - (if c = b then 1 else 0)" for c
    using length_filter_update [OF i(1), of "awaiting c" ?y] aw assms(3) by (auto simp: awaiting_def split: if_splits)
  have "sreqs m ! i \<in> set (filter (awaiting b) ?xs)" using aw(1) i(1) by simp
  then have pos: "0 < batches m ! b"
    unfolding mon_invD(2) [OF assms(1) b] by (rule length_pos_if_in_set)
  have hand: "map rq_handler (?xs[i := ?y]) = map rq_handler ?xs" by (rule map_same_update) simp
  have "resolve b (set_status i Succeeded m) = m\<lparr>sreqs := ?xs[i := ?y], batches := (batches m)[b := batches m ! b - 1],
      notices := notices m @ (if batches m ! b = 1 then [JobsResumed b] else [])\<rparr>"
    using b pos by (auto simp: resolve_def set_status_def notify_def Let_def)
  moreover have "(batches m)[b := batches m ! b - 1] ! c = length (filter (awaiting c) (?xs[i := ?y]))" if "c < length (batches m)" for c
    using that cnt [of c] mon_invD(2) [OF assms(1) that] by (auto simp: nth_list_update)
  moreover have "count_list (notices m @ (if batches m ! b = 1 then [JobsResumed b] else [])) (JobsResumed c)
      = (if c < length (batches m) \<and> (batches m)[b := batches m ! b - 1] ! c = 0 then 1 else 0)" for c
    using mon_invD(3) [OF assms(1), of c] b pos by (auto simp: nth_list_update)
  ultimately show ?thesis using assms(1) hand by (simp add: mon_inv_def)
qed

lemma run_handler_inv:
  assumes "mon_inv m" "is_open m i"
  shows "mon_inv (answered ip i a m)"
proof -
  let ?h = "rq_handler (sreqs m ! i)"
  have ok: "handler_ok (length (batches m)) ?h"
    using mon_invD(1) [OF assms(1)] assms(2) by (simp add: is_open_def)
  show ?thesis
  proof (cases "\<exists>b ids. ?h = Promise b \<and> a = Success ids")
    case True
    then show ?thesis using resolve_inv [OF assms] by (auto simp: answered_def status_of_def)
  next
    case False
    then have m1: "mon_inv (set_status i (status_of a) m)"
      by (intro set_status_inv [OF assms]) (auto simp: status_of_def split: answer.splits)
    then show ?thesis
      using False ok
      by (cases ?h; cases a) (auto simp: answered_def got_ids_def handler_ok_def list_all_iff intro!: js_inv)
  qed
qed

lemma mon_step_inv: "mon_step ip m m' \<Longrightarrow> mon_inv m \<Longrightarrow> mon_inv m'"
  by (elim mon_stepE) (auto intro: act_inv run_handler_inv)

lemma mon_session_inv: "(mon_step ip)\<^sup>*\<^sup>* init_mon m \<Longrightarrow> mon_inv m"
  by (induction rule: rtranclp_induct) (auto intro: mon_inv_init mon_step_inv)

section \<open>The selection of jobs\<close>

lemma state_no_index: "nat_to_string n \<noteq> ''state''"
  using hd_nat_to_string_digit [of n] by (auto simp: is_digit_def)

lemma array_props_no_state: "''state'' \<notin> set (okeys (array_props xs))"
  by (auto simp: okeys_def Let_def array_props_def state_no_index [THEN not_sym])

lemma array_props_get: "i < length xs \<Longrightarrow> oget (array_props xs) (nat_to_string i) = Some (xs ! i)"
  by (auto simp: oget_def array_props_def map_of_eq_Some_iff distinct_map inj_on_def)

lemma array_props_values: "x \<in> set xs \<Longrightarrow> x \<in> set (query_values (array_props xs))"
proof -
  assume "x \<in> set xs"
  then obtain i where i: "i < length xs" "x = xs ! i" by (auto simp: in_set_conv_nth)
  then have g: "oget (array_props xs) (nat_to_string i) = Some x" by (simp add: array_props_get)
  then have "nat_to_string i \<in> set (okeys (array_props xs))" by (simp add: set_okeys)
  with g show ?thesis unfolding query_values_def List.map_filter_def by force
qed

lemma ids_query_all: "''state'' \<notin> set (okeys (tquery t)) \<Longrightarrow> ids_query t = query_values (tquery t)"
  unfolding ids_query_def query_values_def by (subst filter_True) auto

lemma ids_url_join:
  assumes "navigation_url t = Some base"
  shows "ids_url t = Inr (base @ url_sep base @ js_join ''&''
    (query_parts (query_type t) (ids_query t) @ [''limit=1000'', ''offset=0'', ''state=suspend'']))"
proof -
  let ?q = "query_parts (query_type t) (ids_query t)" and ?r = "[''limit=1000'', ''offset=0'', ''state=suspend'']"
  let ?u = "join_url base (query_string (query_type t) (ids_query t))"
  have "?u @ (if has_qmark ?u then ''&'' else ''?'') = base @ url_sep base @ (if ?q = [] then [] else js_join ''&'' ?q @ ''&'')"
    unfolding has_qmark_join_url by (simp add: join_url_params url_sep_def)
  moreover have "js_join ''&'' ?r = ''limit=1000&offset=0&state=suspend''" by simp
  ultimately have "ids_url t = Inr (base @ url_sep base @ (if ?q = [] then [] else js_join ''&'' ?q @ ''&'') @ js_join ''&'' ?r)"
    using assms unfolding ids_url_def Let_def by (simp only: option.case append.assoc [symmetric])
  also have "(if ?q = [] then [] else js_join ''&'' ?q @ ''&'') @ js_join ''&'' ?r = js_join ''&'' (?q @ ?r)"
    by (simp add: js_join_append)
  finally show ?thesis .
qed

lemma got_ids_stage:
  assumes "stage \<noteq> Null"
  shows "sreqs (got_ids ip stage ids m) = sreqs m @ map (\<lambda>jid. \<lparr>rq_method = ''PUT'', rq_url = recompute_url ip jid stage,
      rq_handler = Notify [] [Alert ''failed to start recomputation''], rq_status = Open\<rparr>) ids"
  using assms by (simp add: got_ids_def recomputeJob_def recompute_ids_def foldl_send)

end
