(* ===== verification/Monitor_Export.thy ===== *)
theory Monitor_Export
  imports Js_Values Js_Objects
begin

text \<open>
  The export of a job's statistics as a workbook (\<^verbatim>\<open>xlsExport\<close> of widgets/widget.awe_monitor.js): the
  calls \<^verbatim>\<open>wb.setCell(sheet, column, row, value)\<close> in their order. A cell holds the value written
  last. Sheet 0 is \<^verbatim>\<open>main\<close>, 1 \<^verbatim>\<open>task\<close> and 2 \<^verbatim>\<open>work\<close>.
\<close>

record task_stat =
  ts_queued :: jsval
  ts_start :: jsval
  ts_end :: jsval
  ts_resp :: jsval
  size_infile :: "jsval list"
  size_outfile :: "jsval list"

record work_stat =
  ws_queued :: jsval
  ws_done :: jsval
  ws_resp :: jsval
  ws_checkout :: jsval
  ws_deliver :: jsval
  clientresp :: jsval
  time_data_in :: jsval
  time_data_out :: jsval
  runtime :: jsval
  max_mem_usage :: jsval
  client_id :: jsval
  size_predata :: jsval
  ws_size_infile :: jsval
  ws_size_outfile :: jsval

record job_stat =
  js_id :: jsval
  js_queued :: jsval
  js_start :: jsval
  js_end :: jsval
  js_resp :: jsval
  task_stats :: "task_stat props"
  work_stats :: "work_stat props"

type_synonym cell_pos = "nat \<times> nat \<times> nat"
type_synonym cell_write = "cell_pos \<times> jsval"

definition own_values :: "'v props \<Rightarrow> 'v list" where
  "own_values m = List.map_filter (oget m) (okeys m)"

text \<open>Consecutive cells of one row, from a column on.\<close>

definition row_cells :: "nat \<Rightarrow> nat \<Rightarrow> nat \<Rightarrow> jsval list \<Rightarrow> cell_write list" where
  "row_cells sheet col row vs = map (\<lambda>h. ((sheet, col + h, row), vs ! h)) [0..<length vs]"

definition main_sheet :: "job_stat \<Rightarrow> cell_write list" where
  "main_sheet j =
     row_cells 0 0 0 (map Str [''id'', ''queued'', ''start'', ''end'', ''resp''])
     @ row_cells 0 0 1 [js_id j, js_queued j, js_start j, js_end j, js_resp j]"

definition max_length :: "('a \<Rightarrow> 'b list) \<Rightarrow> 'a list \<Rightarrow> nat" where
  "max_length f ts = foldl (\<lambda>m t. if length (f t) > m then length (f t) else m) 0 ts"

definition numbered :: "string \<Rightarrow> nat \<Rightarrow> jsval list" where
  "numbered txt n = map (\<lambda>i. Str (txt @ nat_to_string i)) [0..<n]"

definition task_header :: "nat \<Rightarrow> nat \<Rightarrow> cell_write list" where
  "task_header maxInfile maxOutfile =
     row_cells 1 0 0 (map Str [''queued'', ''start'', ''end'', ''resp''])
     @ row_cells 1 4 0 (numbered ''size infile '' maxInfile)
     @ row_cells 1 (4 + maxInfile) 0 (numbered ''size outfile '' maxOutfile)"

definition task_row :: "nat \<Rightarrow> nat \<Rightarrow> task_stat \<Rightarrow> cell_write list" where
  "task_row maxInfile currRow t =
     row_cells 1 0 currRow [ts_queued t, ts_start t, ts_end t, ts_resp t]
     @ row_cells 1 4 currRow (size_infile t)
     @ row_cells 1 (4 + maxInfile) currRow (size_outfile t)"

definition data_rows :: "(nat \<Rightarrow> 'a \<Rightarrow> cell_write list) \<Rightarrow> 'a list \<Rightarrow> cell_write list" where
  "data_rows f xs = concat (map (\<lambda>i. f (i + 1) (xs ! i)) [0..<length xs])"

definition work_header_cells :: "cell_write list" where
  "work_header_cells =
     row_cells 2 0 0 (map Str [''queued'', ''done'', ''resp'', ''checkout'', ''deliver'', ''clientresp'', ''time data in'', ''time data out'',
       ''runtime'', ''max mem usage'', ''client id'', ''size predata'', ''size infile'', ''size outfile''])"

definition work_stat_row :: "nat \<Rightarrow> work_stat \<Rightarrow> cell_write list" where
  "work_stat_row currRow w =
     row_cells 2 0 currRow [ws_queued w, ws_done w, ws_resp w, ws_checkout w, ws_deliver w, clientresp w, time_data_in w, time_data_out w,
       runtime w, max_mem_usage w, client_id w, size_predata w, ws_size_infile w, ws_size_outfile w]"

definition xlsExport :: "job_stat \<Rightarrow> cell_write list" where
  "xlsExport j =
     (let ts = own_values (task_stats j); maxInfile = max_length size_infile ts; maxOutfile = max_length size_outfile ts
      in main_sheet j @ task_header maxInfile maxOutfile @ data_rows (task_row maxInfile) ts
         @ work_header_cells @ data_rows work_stat_row (own_values (work_stats j)))"

definition cell_value :: "cell_write list \<Rightarrow> cell_pos \<Rightarrow> jsval option" where
  "cell_value ws pos = map_of (rev ws) pos"

section \<open>Cells\<close>

lemma in_row_cells:
  "((s, c, r), v) \<in> set (row_cells sheet col row vs) \<longleftrightarrow> s = sheet \<and> r = row \<and> (\<exists>h < length vs. c = col + h \<and> v = vs ! h)"
  by (auto simp: row_cells_def)

lemma fst_row_cells: "fst ` set (row_cells sheet col row vs) = (\<lambda>h. (sheet, col + h, row)) ` {..<length vs}"
  by (auto simp: row_cells_def image_image)

lemma distinct_row_cells [simp]: "distinct (map fst (row_cells sheet col row vs))"
  by (simp add: row_cells_def distinct_map inj_on_def)

lemma cell_value_unique:
  assumes "distinct (map fst ws)"
  shows "cell_value ws pos = Some v \<longleftrightarrow> (pos, v) \<in> set ws"
proof -
  have "distinct (map fst (rev ws))" using assms by (simp add: rev_map [symmetric])
  from map_of_eq_Some_iff [OF this] show ?thesis by (simp add: cell_value_def)
qed

lemma max_length_ge: "t \<in> set ts \<Longrightarrow> length (f t) \<le> max_length f ts"
proof -
  have mono: "m \<le> foldl (\<lambda>m t. if length (f t) > m then length (f t) else m) m ts" for m ts
    by (induction ts arbitrary: m) (auto intro: order_trans less_imp_le)
  have "t \<in> set ts \<Longrightarrow> length (f t) \<le> foldl (\<lambda>m t. if length (f t) > m then length (f t) else m) m ts" for m
  proof (induction ts arbitrary: m)
    case (Cons x xs)
    then show ?case using mono [of m xs] mono [of "length (f x)" xs] by (auto simp: not_less intro: order_trans)
  qed simp
  then show "t \<in> set ts \<Longrightarrow> length (f t) \<le> max_length f ts" by (simp add: max_length_def)
qed

lemma in_data_rows: "w \<in> set (data_rows f xs) \<longleftrightarrow> (\<exists>i < length xs. w \<in> set (f (i + 1) (xs ! i)))"
  by (auto simp: data_rows_def)

lemma disjoint_by:
  fixes g :: "'a \<Rightarrow> nat"
  shows "(\<And>x. x \<in> A \<Longrightarrow> g x \<le> n) \<Longrightarrow> (\<And>x. x \<in> B \<Longrightarrow> g x = n + 1) \<Longrightarrow> A \<inter> B = {}"
  by fastforce

text \<open>Rows that each fill their own row of a sheet without writing a cell twice.\<close>

lemma distinct_data_rows:
  assumes "\<And>i. i < length xs \<Longrightarrow> distinct (map fst (f (i + 1) (xs ! i)))"
    and "\<And>i s c r v. i < length xs \<Longrightarrow> ((s, c, r), v) \<in> set (f (i + 1) (xs ! i)) \<Longrightarrow> r = i + 1"
  shows "distinct (map fst (data_rows f xs))"
proof -
  have "map fst (data_rows f xs) = concat (map (\<lambda>i. map fst (f (i + 1) (xs ! i))) [0..<length xs])"
    by (simp add: data_rows_def map_concat comp_def)
  moreover have row: "snd (snd x) = i + 1" if "i < length xs" "x \<in> set (map fst (f (i + 1) (xs ! i)))" for i x
    using assms(2) [OF that(1)] that(2) by (cases x) auto
  have "distinct (concat (map (\<lambda>i. map fst (f (i + 1) (xs ! i))) [0..<n]))" if "n \<le> length xs" for n
    using that
  proof (induction n)
    case (Suc n)
    have "snd (snd x) \<le> n" if x: "x \<in> set (concat (map (\<lambda>i. map fst (f (i + 1) (xs ! i))) [0..<n]))" for x
    proof -
      obtain i where "i < n" "x \<in> set (map fst (f (i + 1) (xs ! i)))" using x by (auto simp del: map_map set_map simp: set_map [of _ "upt _ _"])
      with row [of i x] Suc.prems show ?thesis by simp
    qed
    moreover have "snd (snd x) = n + 1" if "x \<in> set (map fst (f (n + 1) (xs ! n)))" for x
      using row [OF _ that] Suc.prems by simp
    ultimately have "set (concat (map (\<lambda>i. map fst (f (i + 1) (xs ! i))) [0..<n])) \<inter> set (map fst (f (n + 1) (xs ! n))) = {}"
      by (rule disjoint_by)
    then show ?case using Suc assms(1) [of n] by (simp del: set_map set_concat)
  qed simp
  ultimately show ?thesis by simp
qed

lemma distinct_task_row:
  assumes "length (size_infile t) \<le> m"
  shows "distinct (map fst (task_row m r t))"
  using assms by (auto simp: task_row_def fst_row_cells)

lemma distinct_task_header: "distinct (map fst (task_header m n))"
  by (auto simp: task_header_def fst_row_cells numbered_def)

lemma task_row_row: "((s, c, r'), v) \<in> set (task_row m r t) \<Longrightarrow> s = 1 \<and> r' = r"
  by (auto simp: task_row_def in_row_cells)

lemma work_row_row: "((s, c, r'), v) \<in> set (work_stat_row r w) \<Longrightarrow> s = 2 \<and> r' = r"
  by (auto simp: work_stat_row_def in_row_cells)

lemma distinct_task_rows: "distinct (map fst (data_rows (task_row (max_length size_infile ts)) ts))"
proof (rule distinct_data_rows)
  show "distinct (map fst (task_row (max_length size_infile ts) (i + 1) (ts ! i)))" if "i < length ts" for i
    using max_length_ge [OF nth_mem [OF that], of size_infile] by (rule distinct_task_row)
qed (use task_row_row in blast)

lemma distinct_work_rows: "distinct (map fst (data_rows work_stat_row ws))"
proof (rule distinct_data_rows)
  show "distinct (map fst (work_stat_row (i + 1) (ws ! i)))" for i by (simp add: work_stat_row_def)
qed (use work_row_row in blast)

lemma distinct_export: "distinct (map fst (xlsExport j))"
proof -
  let ?ts = "own_values (task_stats j)" and ?ws = "own_values (work_stats j)"
  let ?h = "task_header (max_length size_infile ?ts) (max_length size_outfile ?ts)"
  let ?t = "data_rows (task_row (max_length size_infile ?ts)) ?ts" and ?w = "data_rows work_stat_row ?ws"
  have m: "\<forall>p \<in> fst ` set (main_sheet j). fst p = 0" "distinct (map fst (main_sheet j))"
    by (auto simp: main_sheet_def in_row_cells fst_row_cells [unfolded image_def])
  have h: "\<forall>p \<in> fst ` set ?h. fst p = 1 \<and> snd (snd p) = 0" by (auto simp: task_header_def in_row_cells)
  have t: "\<forall>p \<in> fst ` set ?t. fst p = 1 \<and> snd (snd p) > 0" using task_row_row by (force simp: in_data_rows)
  have w: "\<forall>p \<in> fst ` set work_header_cells. fst p = 2 \<and> snd (snd p) = 0" "distinct (map fst work_header_cells)"
    by (auto simp: work_header_cells_def in_row_cells)
  have d: "\<forall>p \<in> fst ` set ?w. fst p = 2 \<and> snd (snd p) > 0" using work_row_row by (force simp: in_data_rows)
  show ?thesis
    unfolding xlsExport_def Let_def map_append distinct_append set_append set_map
    using m h t w d distinct_task_header distinct_task_rows distinct_work_rows by fastforce
qed

end
