(* ===== verification/Monitor_Props.thy ===== *)
theory Monitor_Props
  imports Monitor_View Monitor_Session Monitor_Export
begin

text \<open>
  The properties of the status monitor.
\<close>

section \<open>Requests and promises\<close>




text \<open>C17: \<^verbatim>\<open>getCurrentIds\<close> selects among the jobs of the table: it asks the address of the table with the
  parameters of the table's own query, followed by a limit of 1000 and the state \<^verbatim>\<open>suspend\<close>.\<close>

theorem ids_url_selects:
  assumes "navigation_url t = Some base" "tquery t = array_props qs"
  shows "\<exists>ps rest. update_url t = Inr (base @ url_sep base @ js_join ''&'' (ps @ (''limit='' @ jsint_to_string (rows_per_page t)) # rest))
    \<and> ids_url t = Inr (base @ url_sep base @ js_join ''&'' (ps @ [''limit=1000'', ''offset=0'', ''state=suspend'']))
    \<and> ps = query_parts (query_type t) (query_values (tquery t))"
  using ids_url_join [OF assms(1)] update_url_join [OF assms(1)] ids_query_all [of t] array_props_no_state [of qs] assms(2)
  by (simp add: url_params_def) blast

definition state_table :: table where
  "state_table = (jobs_settings ''http://awe'' None new_table)
     \<lparr>tquery := array_props [\<lparr>q_searchword = ''completed'', q_field = Str ''state'', q_comparison = None\<rparr>]\<rparr>"

theorem ids_url_selects_witness:
  "\<exists>ps. ids_url state_table = Inr (''http://awe/job?query&'' @ js_join ''&'' (ps @ [''limit=1000'', ''offset=0'', ''state=suspend'']))"
proof -
  have "navigation_url state_table = Some ''http://awe/job?query''" by (simp add: state_table_def jobs_settings_def)
  from ids_url_selects [OF this, of "[\<lparr>q_searchword = ''completed'', q_field = Str ''state'', q_comparison = None\<rparr>]"]
  show ?thesis by (auto simp: state_table_def url_sep_def has_qmark_def)
qed

text \<open>A filter on the state of the jobs is not left out of the selection: the address then asks for
  two states at once.\<close>

theorem ids_two_states:
  assumes "navigation_url t = Some base" "tquery t = array_props qs" "query_type t = ''prefix''"
    and "q \<in> set qs" "q_field q = Str ''state''" "q_searchword q \<noteq> []"
  shows "\<exists>ps. ids_url t = Inr (base @ url_sep base @ js_join ''&'' ps)
    \<and> ''state='' @ q_searchword q \<in> set ps \<and> ''state=suspend'' \<in> set ps"
proof -
  have "q \<in> set (ids_query t)"
    using array_props_values [OF assms(4)] ids_query_all [of t] array_props_no_state [of qs] assms(2) by simp
  then have "''state='' @ q_searchword q \<in> set (query_parts (query_type t) (ids_query t))"
    using assms(3,5,6) by (force simp: query_parts_def query_part_def)
  then show ?thesis using ids_url_join [OF assms(1)] by auto
qed

theorem ids_two_states_witness:
  "\<exists>ps. ids_url state_table = Inr (''http://awe/job?query&'' @ js_join ''&'' ps) \<and> ''state=completed'' \<in> set ps \<and> ''state=suspend'' \<in> set ps"
proof -
  let ?q = "\<lparr>q_searchword = ''completed'', q_field = Str ''state'', q_comparison = None\<rparr>"
  have "navigation_url state_table = Some ''http://awe/job?query''" "tquery state_table = array_props [?q]"
    "query_type state_table = ''prefix''" by (simp_all add: state_table_def jobs_settings_def)
  from ids_two_states [OF this, of ?q] show ?thesis by (simp add: url_sep_def has_qmark_def)
qed

text \<open>C34: The button that resumes the selected jobs passes no stage: the answer starts a recomputation of
  every selected job at the stage \<^verbatim>\<open>undefined\<close> and resumes none.\<close>

theorem resume_selected_recomputes:
  assumes "getCurrentIds t Undef m = Inr m1"
  shows "map (\<lambda>r. (rq_method r, rq_url r)) (drop (length (sreqs m1)) (sreqs (answered ip (length (sreqs m)) (Success ids) m1)))
    = map (\<lambda>jid. (''PUT'', ip @ ''/job/'' @ jid @ ''?recompute=undefined'')) ids"
proof -
  obtain url where m1: "m1 = send ''GET'' url (WithStage Undef) m" using assms by (auto simp: getCurrentIds_def jbind_Inr_iff)
  have "sreqs (set_status (length (sreqs m)) Succeeded m1) = sreqs m @ [(sreqs m1 ! length (sreqs m))\<lparr>rq_status := Succeeded\<rparr>]"
    by (simp add: m1 send_def set_status_def)
  then show ?thesis
    by (simp add: m1 answered_def status_of_def got_ids_stage send_def set_status_def recompute_url_def)
qed

theorem resume_selected_recomputes_witness:
  "map (\<lambda>r. (rq_method r, rq_url r)) (drop 1 (sreqs (answered ''http://awe'' 0 (Success [''j1'']) (send ''GET'' ''u'' (WithStage Undef) init_mon))))
    = [(''PUT'', ''http://awe/job/j1?recompute=undefined'')]"
proof -
  let ?t = "state_table\<lparr>navigation_url := Some ''v''\<rparr>"
  obtain u where "ids_url ?t = Inr u" by (auto simp: ids_url_def Let_def)
  then have "getCurrentIds ?t Undef init_mon = Inr (send ''GET'' u (WithStage Undef) init_mon)" by (simp add: getCurrentIds_def)
  from resume_selected_recomputes [OF this, of "''http://awe''" "[''j1'']"] show ?thesis
    by (simp add: send_def init_mon_def answered_def status_of_def set_status_def got_ids_stage)
qed

text \<open>\<^verbatim>\<open>resumeJobs\<close> takes a text apart: called with the id of one job it asks to resume a job for every
  character of the id.\<close>

theorem resume_text_per_char:
  "map (\<lambda>r. (rq_method r, rq_url r)) (drop (length (sreqs m)) (sreqs (resumeJobs ip (IdText jid) m)))
    = map (\<lambda>c. (''PUT'', ip @ ''/job/'' @ [c] @ ''?resume'')) jid"
  by (simp add: resumeJobs_def resume_ids_def Let_def foldl_send notify_def resume_url_def)

section \<open>Tables\<close>

text \<open>C12: Once the pipelines are known, displaying the monitor makes three tables beside the prototype, asks the
  server for its title, the overview and the clients, and each of the jobs and workunits tables asks
  for its first page (restricted to the pipeline the page address names).\<close>

theorem display_asks:
  assumes "tables p \<noteq> []" "views p \<noteq> []"
  shows "\<exists>p'. monitor_display h ip True cgi None p = Inr (p', [(''GET'', ip), (''GET'', ip @ ''/queue?json''), (''GET'', ip @ ''/client'')])
    \<and> log p' = log p @ [Ajax (ip @ ''/job?query&'' @ jobs_query_part cgi @ ''limit=20&offset=0'') 1,
                        Ajax (ip @ ''/work?query&limit=10&offset=0'') 2]
    \<and> length (tables p') = 4 \<and> length (views p') = 4 \<and> jobs_ready (tables p' ! 1)"
proof -
  obtain tj tw vj vw where "js_foldM (show_view h ip cgi) (p\<lparr>tables := take 1 (tables p), views := take 1 (views p)\<rparr>, [(''GET'', ip)])
      [''overview'', ''jobs'', ''workunits'', ''clients'']
    = Inr (p\<lparr>tables := [hd (tables p), tj, tw, new_table], views := [hd (views p), Some vj, Some vw, None], cur := 2,
          log := log p @ [Ajax (ip @ ''/job?query&'' @ jobs_query_part cgi @ ''limit=20&offset=0'') 1,
                          Ajax (ip @ ''/work?query&limit=10&offset=0'') 2]\<rparr>,
        [(''GET'', ip), (''GET'', ip @ ''/queue?json''), (''GET'', ip @ ''/client'')])" "jobs_ready tj"
    using display_views [OF assms] by blast
  then show ?thesis unfolding monitor_display_def Let_def by simp
qed

definition first_page :: tpage where
  "first_page = \<lparr>tables = [default_table], views = [None], cur = 0, log = []\<rparr>"

theorem display_asks_witness:
  "\<exists>p'. monitor_display literal_host ''ip'' True (Some ''qc'') None first_page
      = Inr (p', [(''GET'', ''ip''), (''GET'', ''ip/queue?json''), (''GET'', ''ip/client'')])
    \<and> log p' = [Ajax ''ip/job?query&info.pipeline=qc&limit=20&offset=0'' 1, Ajax ''ip/work?query&limit=10&offset=0'' 2]"
  using display_asks [of first_page literal_host "''ip''" "Some ''qc''"] by (auto simp: first_page_def jobs_query_part_def)

text \<open>C11: The answer with the documents of some jobs makes the jobs table show one line for each of them, in the
  order of the server, with its columns in the order of the header, the button to resume it exactly for
  suspended jobs; and if the ids differ, the link of each line opens the page of its job.\<close>

theorem jobs_shown:
  assumes "1 < length (tables p)" "1 < length (views p)" "jobs_ready (tables p ! 1)" "ds \<noteq> []" "distinct (map job_id ds)"
  shows "\<exists>p' store' v. jobs_success h ds tot store p = Inr (p', store') \<and> views p' ! 1 = Some v \<and> jobs_ready (tables p' ! 1)
    \<and> v_body v = map (\<lambda>j. [submittime j, job_link (job_id j) (job_name j), job_id j, dots (job_tasks j), to_html (pipeline j),
         job_state j @ (if job_state j = ''suspend'' then resume_button (job_id j) else []), to_html (remaintasks j)]) ds
    \<and> (\<forall>j \<in> set ds. jobDetails mh ip btns store' (job_id j) = stagePills mh ip btns store' j)"
proof -
  let ?rows = "fst (dataManipulationJobs ds store)" and ?store = "snd (dataManipulationJobs ds store)"
  obtain p' v where u: "update_success h 1 ?rows tot p = Inr p'" "views p' ! 1 = Some v" "jobs_ready (tables p' ! 1)"
    "v_body v = shown_rows (take 7 jobs_header) ?rows"
    using update_success_jobs [OF assms(1-3)] by blast
  have "?rows = map job_row ds" using assms(4) by (simp add: dataManipulationJobs_def Let_def)
  then have "v_body v = map (\<lambda>j. [submittime j, job_link (job_id j) (job_name j), job_id j, dots (job_tasks j), to_html (pipeline j),
         job_state j @ (if job_state j = ''suspend'' then resume_button (job_id j) else []), to_html (remaintasks j)]) ds"
    using u(4) by (simp add: shown_rows_def jobs_header_def job_row_def row_cell_def oget_def to_html_def)
  moreover have "jobDetails mh ip btns ?store (job_id j) = stagePills mh ip btns ?store j" if "j \<in> set ds" for j
    using jobs_stored [OF assms(5) that, of store] by (simp add: jobDetails_def)
  ultimately show ?thesis
    using u by (intro exI [of _ p'] exI [of _ ?store] exI [of _ v]) (simp add: jobs_success_def case_prod_beta)
qed

lemma first_page_ready:
  "\<exists>p rs. monitor_display literal_host ''ip'' True None None first_page = Inr (p, rs)
    \<and> 1 < length (tables p) \<and> 1 < length (views p) \<and> jobs_ready (tables p ! 1)"
  using display_views [of first_page literal_host "''ip''" None]
  by (auto simp: first_page_def monitor_display_def Let_def)

definition task1 :: jtask where
  "task1 = \<lparr>jt_state = ''completed'', jt_desc = Str ''qc'', createddate = ''d0'', starteddate = ''d1'', completeddate = ''d2'',
     jt_inputs = [(''in.fa'', \<lparr>if_nofile = False, if_filename = Str ''in.fa'', if_size = Fin 7, if_origin = Str ''0''\<rparr>)], jt_outputs = []\<rparr>"

definition job1 :: job where
  "job1 = \<lparr>job_id = ''j1'', job_state = ''suspend'', job_name = Str ''run'', submittime = ''t0'', pipeline = Str ''mg'', remaintasks = Num (Fin 3),
     job_notes = Str ''n'', lastfailed = Str ''j1_0_0'', job_tasks = [task1]\<rparr>"

definition simple_mhost :: mhost where
  "simple_mhost = \<lparr>byteSize = num_to_string, base64 = (\<lambda>s. s), date_parse = (\<lambda>s. Some (int (length s))),
     locale_string = jsint_to_string, locale_compare = (\<lambda>a b. int (length a) - int (length b))\<rparr>"

theorem jobs_shown_witness:
  "\<exists>p rs p' store' v. monitor_display literal_host ''ip'' True None None first_page = Inr (p, rs)
    \<and> jobs_success literal_host [job1] (Some 1) [] p = Inr (p', store') \<and> views p' ! 1 = Some v
    \<and> v_body v = [[''t0'', job_link ''j1'' (Str ''run''), ''j1'', dots [task1], ''mg'', ''suspend'' @ resume_button ''j1'', to_html (Num (Fin 3))]]"
proof -
  obtain p rs where p: "monitor_display literal_host ''ip'' True None None first_page = Inr (p, rs)"
    "1 < length (tables p)" "1 < length (views p)" "jobs_ready (tables p ! 1)"
    using first_page_ready by blast
  from jobs_shown [OF this(2-4), of "[job1]" literal_host "Some 1" "[]" simple_mhost "''ip''" "[]"]
  obtain p' store' v where q: "jobs_success literal_host [job1] (Some 1) [] p = Inr (p', store')" "views p' ! 1 = Some v"
    "v_body v = [[''t0'', job_link ''j1'' (Str ''run''), ''j1'', dots [task1], ''mg'', ''suspend'' @ resume_button ''j1'', to_html (Num (Fin 3))]]"
    by (auto simp: job1_def to_html_def)
  with p(1) show ?thesis by (intro exI conjI)
qed

text \<open>With no jobs to show, the placeholder line has no value for the column of open tasks, and the table shows
  the text \<^verbatim>\<open>undefined\<close> there.\<close>

theorem no_jobs_shown:
  assumes "1 < length (tables p)" "1 < length (views p)" "jobs_ready (tables p ! 1)"
  shows "\<exists>p' store' v. jobs_success h [] tot store p = Inr (p', store') \<and> views p' ! 1 = Some v
    \<and> v_body v = [[''-'', ''-'', ''-'', ''-'', ''-'', ''-'', ''undefined'']]"
proof -
  obtain p' v where u: "update_success h 1 [no_job_row] tot p = Inr p'" "views p' ! 1 = Some v"
    "v_body v = shown_rows (take 7 jobs_header) [no_job_row]"
    using update_success_jobs [OF assms] by blast
  have "v_body v = [[''-'', ''-'', ''-'', ''-'', ''-'', ''-'', ''undefined'']]"
    using u(3) by (simp add: shown_rows_def jobs_header_def no_job_row_def row_cell_def oget_def to_html_def)
  with u(1,2) show ?thesis by (simp add: jobs_success_def dataManipulationJobs_def Let_def)
qed

theorem no_jobs_shown_witness:
  "\<exists>p rs p' store' v. monitor_display literal_host ''ip'' True None None first_page = Inr (p, rs)
    \<and> jobs_success literal_host [] (Some 0) [] p = Inr (p', store') \<and> views p' ! 1 = Some v \<and> hd (v_body v) ! 6 = ''undefined''"
proof -
  obtain p rs where p: "monitor_display literal_host ''ip'' True None None first_page = Inr (p, rs)"
    "1 < length (tables p)" "1 < length (views p)" "jobs_ready (tables p ! 1)"
    using first_page_ready by blast
  from no_jobs_shown [OF this(2-4), of literal_host "Some 0" "[]"]
  obtain p' store' v where "jobs_success literal_host [] (Some 0) [] p = Inr (p', store')" "views p' ! 1 = Some v"
    "hd (v_body v) ! 6 = ''undefined''" by auto
  with p(1) show ?thesis by (intro exI conjI)
qed

text \<open>The select filters the monitor asks for are of a type the table renderer does not know: drawing the
  header moves the search field of the job id to the column of the state, and the columns of job id
  and pipeline have none.\<close>

theorem premade_filter_moves:
  assumes "1 < length (tables p)" "1 < length (views p)" "jobs_ready (tables p ! 1)"
  shows "\<exists>p' v. update_success h 1 rows tot p = Inr p' \<and> views p' ! 1 = Some v
    \<and> map hc_col (v_header v) = [0, 1, 2, 3, 4, 5, 6]
    \<and> map (\<lambda>c. map_option felem_col (hc_filter c)) (v_header v) = [None, Some 1, None, None, None, Some 2, Some 6]"
  using update_success_jobs [OF assms, of h rows tot] by (elim exE conjE) (intro exI conjI)

theorem premade_filter_moves_witness:
  "\<exists>p rs p' v. monitor_display literal_host ''ip'' True None None first_page = Inr (p, rs)
    \<and> update_success literal_host 1 [] None p = Inr p' \<and> views p' ! 1 = Some v
    \<and> map (\<lambda>c. map_option felem_col (hc_filter c)) (v_header v) = [None, Some 1, None, None, None, Some 2, Some 6]"
proof -
  obtain p rs where p: "monitor_display literal_host ''ip'' True None None first_page = Inr (p, rs)"
    "1 < length (tables p)" "1 < length (views p)" "jobs_ready (tables p ! 1)"
    using first_page_ready by blast
  from premade_filter_moves [OF this(2-4), of literal_host "[]" None] p(1) show ?thesis
    by (elim exE conjE) (intro exI conjI)
qed

section \<open>The page of a job\<close>

text \<open>C18: If every input of a stage that can be opened names an existing stage as its origin, the page of a job is
  drawn: one line for each stage whose state it knows, in order, with the colour of the state; completed,
  failed and suspended stages can be opened, and offer recomputation from that stage exactly if the
  job is suspended; only then are the failed workunit's documents asked for and is deletion offered.\<close>

theorem stage_page:
  assumes "job_tasks j \<noteq> []"
    and "\<forall>t \<in> set (job_tasks j). opened t \<longrightarrow> (\<forall>(k, f) \<in> set (listed_inputs (jt_inputs t)). origin_ok (job_tasks j) f)"
  shows "\<exists>reqs p. stagePills h ip btns store j = Inr (reqs, p) \<and> \<not> jp_none p
    \<and> map pill_of (jp_pills p) = List.map_filter (stage_line j) [0..<length (job_tasks j)]
    \<and> jp_custom p = shown_buttons btns (oget store (job_id j))
    \<and> jp_delete p = (if job_state j = ''suspend'' then Some (job_id j) else None)
    \<and> reqs = (if job_state j = ''suspend'' then fst (resolveError ip j) else [])"
  using assms by (rule stagePills_lines)

theorem stage_page_witness:
  "\<exists>reqs p. stagePills simple_mhost ''ip'' [] [] job1 = Inr (reqs, p) \<and> map pill_of (jp_pills p) = [(Str ''qc'', ''donepill'', Some (Some (''j1'', 0)))]
    \<and> jp_delete p = Some ''j1'' \<and> length reqs = 4"
proof -
  have "\<forall>t \<in> set (job_tasks job1). opened t \<longrightarrow> (\<forall>(k, f) \<in> set (listed_inputs (jt_inputs t)). origin_ok (job_tasks job1) f)"
    unfolding Ball_set by code_simp
  from stage_page [OF _ this, of simple_mhost "''ip''" "[]" "[]"] show ?thesis
    by (auto simp: job1_def task1_def stage_line_def resolveError_def Let_def List.map_filter_simps)
qed




section \<open>Durations\<close>

text \<open>C20: The duration of a stage is the number of days, hours and minutes between its dates, except for durations
  of up to 86 milliseconds and those that end within 3 milliseconds of a full day.\<close>

theorem duration_text:
  assumes "0 \<le> n" "n < 10 ^ 15" "n \<notin> {1..86}" "n mod 86400000 \<notin> {1..3}"
  shows "timePassed (Some s) (Some (s + n))
    = time_text (Some (n div 86400000)) (Some (n mod 86400000 div 3600000)) (Some (n mod 3600000 div 60000))"
  using assms by (rule timePassed_text)

theorem duration_text_witness: "timePassed (Some 1000) (Some (1000 + 93784000)) = ''1 days 2 hours 3 minutes''"
proof -
  have "time_text (Some 1) (Some 2) (Some 3) = ''1 days 2 hours 3 minutes''" by code_simp
  then show ?thesis using duration_text [of 93784000 1000] by simp
qed

text \<open>C35: A duration of 1 to 86 milliseconds is shown with a positive number of days: the quotient is printed with
  an exponent, and \<^verbatim>\<open>parseInt\<close> reads its first digit.\<close>

theorem duration_short:
  assumes "1 \<le> n" "n \<le> 86"
  shows "\<exists>d>0. \<exists>rest. timePassed (Some s) (Some (s + n)) = int_to_string d @ '' days '' @ rest"
  using assms by (rule timePassed_short)

theorem duration_short_witness: "\<exists>d>0. \<exists>rest. timePassed (Some 0) (Some (0 + 50)) = int_to_string d @ '' days '' @ rest"
  using duration_short [of 50 0] by simp

section \<open>The workbook\<close>

text \<open>C21: The export writes no cell twice, and the sizes of the input and output files of every task stand in its row under
  the header of their number.\<close>

theorem export_cells:
  assumes "k < length (own_values (task_stats j))"
  defines "ws \<equiv> xlsExport j" and "t \<equiv> own_values (task_stats j) ! k" and "m \<equiv> max_length size_infile (own_values (task_stats j))"
  shows "distinct (map fst ws)
    \<and> (\<forall>h < length (size_infile t). cell_value ws (1, 4 + h, 0) = Some (Str (''size infile '' @ nat_to_string h))
        \<and> cell_value ws (1, 4 + h, k + 1) = Some (size_infile t ! h))
    \<and> (\<forall>h < length (size_outfile t). cell_value ws (1, 4 + m + h, 0) = Some (Str (''size outfile '' @ nat_to_string h))
        \<and> cell_value ws (1, 4 + m + h, k + 1) = Some (size_outfile t ! h))"
proof -
  let ?ts = "own_values (task_stats j)"
  have t: "t \<in> set ?ts" using assms(1) by (simp add: t_def)
  note le = max_length_ge [OF t]
  have cv: "cell_value ws pos = Some v \<longleftrightarrow> (pos, v) \<in> set ws" for pos v
    using cell_value_unique [OF distinct_export] by (simp add: ws_def)
  have hdr: "w \<in> set ws" if "w \<in> set (task_header m (max_length size_outfile ?ts))" for w
    using that by (simp add: ws_def xlsExport_def Let_def m_def)
  have row: "w \<in> set ws" if "w \<in> set (task_row m (k + 1) t)" for w
    using that assms(1) unfolding ws_def xlsExport_def Let_def m_def t_def by (auto simp: in_data_rows)
  have "((1, 4 + h, 0), Str (''size infile '' @ nat_to_string h)) \<in> set ws" if "h < length (size_infile t)" for h
    by (rule hdr) (use that le [of size_infile] in \<open>auto simp: m_def [symmetric] task_header_def in_row_cells numbered_def\<close>)
  moreover have "((1, 4 + h, k + 1), size_infile t ! h) \<in> set ws" if "h < length (size_infile t)" for h
    by (rule row) (use that in \<open>auto simp: task_row_def in_row_cells\<close>)
  moreover have "((1, 4 + m + h, 0), Str (''size outfile '' @ nat_to_string h)) \<in> set ws" if "h < length (size_outfile t)" for h
    by (rule hdr) (use that le [of size_outfile] in \<open>auto simp: task_header_def in_row_cells numbered_def\<close>)
  moreover have "((1, 4 + m + h, k + 1), size_outfile t ! h) \<in> set ws" if "h < length (size_outfile t)" for h
    by (rule row) (use that in \<open>auto simp: task_row_def in_row_cells\<close>)
  ultimately show ?thesis unfolding cv using distinct_export [of j] by (simp add: ws_def)
qed

definition stat1 :: job_stat where
  "stat1 = \<lparr>js_id = Str ''j1'', js_queued = Null, js_start = Null, js_end = Null, js_resp = Null,
     task_stats = [(''t0'', \<lparr>ts_queued = Null, ts_start = Null, ts_end = Null, ts_resp = Null, size_infile = [Str ''5''], size_outfile = [Str ''8'']\<rparr>)],
     work_stats = []\<rparr>"

theorem export_cells_witness: "cell_value (xlsExport stat1) (1, 4, 1) = Some (Str ''5'')"
proof -
  have "own_values (task_stats stat1)
      = [\<lparr>ts_queued = Null, ts_start = Null, ts_end = Null, ts_resp = Null, size_infile = [Str ''5''], size_outfile = [Str ''8'']\<rparr>]" by code_simp
  with export_cells [of 0 stat1] show ?thesis by simp
qed

end
