(* ===== verification/Panel.thy ===== *)
theory Panel
  imports Js_Values Js_Objects Js_Sort
begin

text \<open>
  The panel of clients (widgets/widget.awe_panel.js): the clients grouped by an attribute and drawn as
  coloured boxes, and the running applications and pipelines. The documents are shared objects: the
  groups hold positions of the client list, so what the loop over the workunits writes into a client is
  seen by its box. \<^verbatim>\<open>Retina.propSort\<close>, \<^verbatim>\<open>Retina.Numsort\<close> and \<^verbatim>\<open>Retina.keys\<close> are functions of the
  Retina library, fields of \<^verbatim>\<open>phost\<close> (the last one on the names of the own properties).
\<close>

record pclient =
  pc_id :: string
  pc_attr :: "string \<Rightarrow> jsval"
  online :: bool
  busy :: bool
  suspended :: bool
  pc_work :: "string list"
  highlight :: bool

record pwork =
  pw_id :: string
  pw_name :: string
  pw_pipeline :: string
  pw_client :: "string option"

record phost =
  sort_id :: "pclient \<Rightarrow> pclient \<Rightarrow> int"
  numsort :: "jsval \<Rightarrow> jsval \<Rightarrow> int"
  rkeys :: "string list \<Rightarrow> string list"

record panel =
  aweClientData :: "pclient list"
  aweWorkData :: "pwork list"
  currentApp :: "string option"
  grouping :: "string option"

section \<open>Groups\<close>

definition add_group :: "(nat \<Rightarrow> jsval) \<Rightarrow> nat list props \<times> jsval list \<Rightarrow> nat \<Rightarrow> nat list props \<times> jsval list" where
  "add_group attr s i =
     (case s of (groups, order) \<Rightarrow>
        let k = to_string (attr i)
        in case oget groups k of
             None \<Rightarrow> (oput groups k [i], order @ [attr i])
           | Some xs \<Rightarrow> (oput groups k (xs @ [i]), order))"

definition make_groups :: "(nat \<Rightarrow> jsval) \<Rightarrow> nat \<Rightarrow> nat list props \<times> jsval list" where
  "make_groups attr n = foldl (add_group attr) ([], []) [0..<n]"

text \<open>Sorting puts undefined last without asking the comparison; without a comparison it compares the
  texts.\<close>

definition undef_last :: "(jsval \<Rightarrow> jsval \<Rightarrow> int) \<Rightarrow> jsval \<Rightarrow> jsval \<Rightarrow> int" where
  "undef_last c a b = (if a = Undef then (if b = Undef then 0 else 1) else if b = Undef then - 1 else c a b)"

definition text_order :: "jsval \<Rightarrow> jsval \<Rightarrow> int" where
  "text_order a b = (if to_string a = to_string b then 0 else if to_string a < to_string b then - 1 else 1)"

definition sort_groups :: "phost \<Rightarrow> jsval list \<Rightarrow> jsval list js" where
  "sort_groups ph order =
     (case order of [] \<Rightarrow> ok []
      | v # _ \<Rightarrow>
          if nullish v then throw TypeError
          else if (case v of Str _ \<Rightarrow> True | _ \<Rightarrow> False) then ok (js_sort (undef_last text_order) order)
          else ok (js_sort (undef_last (numsort ph)) order))"

section \<open>Workunits\<close>

text \<open>\<^verbatim>\<open>client.replace(/^<[^>]+>([^<]+)<\/.+$/, '$1')\<close>\<close>

definition line_end :: "char \<Rightarrow> bool" where
  "line_end c \<longleftrightarrow> c = CHR 0x0A \<or> c = CHR 0x0D"

definition unspan :: "string \<Rightarrow> string" where
  "unspan s =
     (let a = takeWhile (\<lambda>c. c \<noteq> CHR ''>'') (drop 1 s); b = drop 1 (dropWhile (\<lambda>c. c \<noteq> CHR ''>'') (drop 1 s));
          g = takeWhile (\<lambda>c. c \<noteq> CHR ''<'') b; r = dropWhile (\<lambda>c. c \<noteq> CHR ''<'') b
      in if take 1 s = ''<'' \<and> a \<noteq> [] \<and> g \<noteq> [] \<and> take 2 r = ''</'' \<and> drop 2 r \<noteq> [] \<and> list_all (\<lambda>c. \<not> line_end c) (drop 2 r)
         then g else s)"

definition client_span :: "nat \<Rightarrow> string \<Rightarrow> string" where
  \<open>client_span i cid =
     ''<span class='href' onclick='Retina.WidgetInstances.awe_panel[1].aweNodeDetail('' @ nat_to_string i @ '');'>'' @ cid @ ''</span>''\<close>

definition work_span :: "nat \<Rightarrow> string \<Rightarrow> string" where
  \<open>work_span i name =
     ''<span class='href' onclick='Retina.WidgetInstances.awe_panel[1].aweWorkunitDetail('' @ nat_to_string i @ '');'>'' @ name @ ''</span>''\<close>

definition client_index :: "pclient list \<Rightarrow> nat props" where
  "client_index cs = foldl (\<lambda>m i. oput m (pc_id (cs ! i)) i) [] [0..<length cs]"

definition push :: "'a list props \<Rightarrow> string \<Rightarrow> 'a \<Rightarrow> 'a list props" where
  "push m k x = oput m k ((case oget m k of None \<Rightarrow> [] | Some xs \<Rightarrow> xs) @ [x])"

definition clean_client :: "string option \<Rightarrow> string option" where
  "clean_client c = (case c of None \<Rightarrow> None | Some s \<Rightarrow> if s = [] then None else Some (unspan s))"

text \<open>\<^verbatim>\<open>clientIndex[client]\<close> as a condition: position 0 counts as absent.\<close>

definition linked :: "nat props \<Rightarrow> string option \<Rightarrow> nat option" where
  "linked ix c =
     (case c of None \<Rightarrow> None
      | Some s \<Rightarrow> if s = [] then None else (case oget ix s of None \<Rightarrow> None | Some i \<Rightarrow> if i = 0 then None else Some i))"

definition is_current :: "string option \<Rightarrow> pwork \<Rightarrow> bool" where
  "is_current app w = (case app of None \<Rightarrow> False | Some a \<Rightarrow> a \<noteq> [] \<and> (a = pw_name w \<or> a = pw_pipeline w))"

record wstate =
  w_clients :: "pclient list"
  w_work :: "pwork list"
  w_apps :: "string option list props"
  w_pipes :: "string option list props"

definition work_step :: "nat props \<Rightarrow> string option \<Rightarrow> wstate \<Rightarrow> nat \<Rightarrow> wstate" where
  "work_step ix app s i =
     (let w = w_work s ! i; c = clean_client (pw_client w);
          s1 = s\<lparr>w_apps := push (w_apps s) (pw_name w) c, w_pipes := push (w_pipes s) (pw_pipeline w) c,
                 w_work := (w_work s)[i := w\<lparr>pw_client := c\<rparr>]\<rparr>
      in case (c, linked ix c) of
           (Some cid, Some k) \<Rightarrow>
             s1\<lparr>w_clients := (w_clients s)[k := (w_clients s ! k)
                   \<lparr>pc_work := map (\<lambda>u. if u = pw_id w then work_span i (pw_name w) else u) (pc_work (w_clients s ! k)),
                    highlight := is_current app w\<rparr>],
                w_work := (w_work s)[i := w\<lparr>pw_client := Some (client_span k cid)\<rparr>]\<rparr>
         | _ \<Rightarrow> s1)"

definition work_loop :: "nat props \<Rightarrow> string option \<Rightarrow> pclient list \<Rightarrow> pwork list \<Rightarrow> wstate" where
  "work_loop ix app cs ws =
     foldl (work_step ix app) \<lparr>w_clients = cs, w_work = ws, w_apps = [], w_pipes = []\<rparr> [0..<length ws]"

section \<open>Boxes and counts\<close>

definition box_status :: "pclient \<Rightarrow> string option" where
  "box_status c =
     (if online c \<and> \<not> suspended c \<and> \<not> busy c then Some ''info''
      else if busy c then Some ''success''
      else if suspended c then Some ''danger''
      else if \<not> online c then Some ''warning'' else None)"

record pbox =
  bx_status :: string
  bx_index :: nat
  bx_highlight :: bool
  bx_work :: nat

definition aweNode :: "phost \<Rightarrow> string \<Rightarrow> pclient list \<Rightarrow> nat \<Rightarrow> pbox" where
  "aweNode ph st cs i =
     \<lparr>bx_status = st, bx_index = i, bx_highlight = highlight (cs ! i),
      bx_work = length (rkeys ph (map nat_to_string [0..<length (pc_work (cs ! i))]))\<rparr>"

definition boxes_of :: "phost \<Rightarrow> pclient list \<Rightarrow> nat list \<Rightarrow> pbox list" where
  "boxes_of ph cs ids = List.map_filter (\<lambda>i. map_option (\<lambda>st. aweNode ph st cs i) (box_status (cs ! i))) ids"

definition count_status :: "string \<Rightarrow> (string \<times> pbox list) list \<Rightarrow> nat" where
  "count_status st gs = length (filter (\<lambda>b. bx_status b = st) (concat (map snd gs)))"

record pview =
  pv_total :: nat
  numIdle :: nat
  numBusy :: nat
  numOffline :: nat
  numError :: nat
  pv_groups :: "(string \<times> pbox list) list"
  pv_apps :: "(string \<times> bool \<times> nat) list"
  pv_pipes :: "(string \<times> bool \<times> nat) list"

definition name_rows :: "phost \<Rightarrow> string option \<Rightarrow> string option list props \<Rightarrow> (string \<times> bool \<times> nat) list" where
  "name_rows ph app m =
     map (\<lambda>k. (k, (case app of None \<Rightarrow> False | Some a \<Rightarrow> a \<noteq> [] \<and> a = k), (case oget m k of None \<Rightarrow> 0 | Some xs \<Rightarrow> length xs)))
       (js_sort (\<lambda>a b. text_order (Str a) (Str b)) (rkeys ph (okeys m)))"

definition showAWEDetails :: "phost \<Rightarrow> panel \<Rightarrow> (panel \<times> pview) js" where
  "showAWEDetails ph p =
     (let gr = (case grouping p of None \<Rightarrow> ''cores'' | Some g \<Rightarrow> if g = [] then ''cores'' else g);
          cs = js_sort (sort_id ph) (aweClientData p);
          (groups, order) = make_groups (\<lambda>i. pc_attr (cs ! i) gr) (length cs)
      in jbind (sort_groups ph order) (\<lambda>order'.
           let s = work_loop (client_index cs) (currentApp p) cs (aweWorkData p);
               gs = map (\<lambda>v. (gr @ '': '' @ to_string v,
                      boxes_of ph (w_clients s) (case oget groups (to_string v) of None \<Rightarrow> [] | Some xs \<Rightarrow> xs))) order'
           in ok (p\<lparr>aweClientData := w_clients s, aweWorkData := w_work s\<rparr>,
                  \<lparr>pv_total = length cs, numIdle = count_status ''info'' gs, numBusy = count_status ''success'' gs,
                   numOffline = count_status ''warning'' gs, numError = count_status ''danger'' gs, pv_groups = gs,
                   pv_apps = name_rows ph (currentApp p) (w_apps s), pv_pipes = name_rows ph (currentApp p) (w_pipes s)\<rparr>)))"

section \<open>Refreshing\<close>

text \<open>\<^verbatim>\<open>getAWEDetails\<close>: the delay of the next call. The condition compares a truth value with 0. The
  argument is \<^verbatim>\<open>RetinaConfig.alertPanelRefresh\<close>, None when the configuration has no such entry.\<close>

definition refresh_delay :: "jsval option \<Rightarrow> jsval option" where
  "refresh_delay cfg =
     (let has = (cfg \<noteq> None)
      in if \<not> (has \<and> loose_eq (Bool has) (Num (Fin 0)))
         then Some (case cfg of None \<Rightarrow> Num (Fin 60000) | Some v \<Rightarrow> if truthy v then v else Num (Fin 60000))
         else None)"

definition getAWEDetails :: "string \<Rightarrow> string \<times> string" where
  "getAWEDetails awe_ip = (''GET'', awe_ip @ ''/client'')"

text \<open>The answer with the clients is stored and sends the request for the workunits; the answer to that is stored and
  displayed. A display that fails has already sorted the client list.\<close>

definition got_clients :: "string \<Rightarrow> pclient list \<Rightarrow> panel \<Rightarrow> panel \<times> (string \<times> string)" where
  "got_clients awe_ip cs p = (p\<lparr>aweClientData := cs\<rparr>, (''GET'', awe_ip @ ''/work?query&state=checkout&limit=1000''))"

definition got_work :: "phost \<Rightarrow> pwork list \<Rightarrow> panel \<Rightarrow> panel \<times> pview js" where
  "got_work ph ws p =
     (let p1 = p\<lparr>aweWorkData := ws\<rparr>
      in case showAWEDetails ph p1 of
           Inr (p2, v) \<Rightarrow> (p2, ok v)
         | Inl e \<Rightarrow> (p1\<lparr>aweClientData := js_sort (sort_id ph) (aweClientData p1)\<rparr>, throw e))"

text \<open>\<^verbatim>\<open>display\<close>: the requests it sends, and whether it shows the panel or the demand for a login.\<close>

definition display :: "string \<Rightarrow> bool \<Rightarrow> bool \<Rightarrow> (string \<times> string) list \<times> bool" where
  "display awe_ip authentication loggedIn =
     (if \<not> authentication \<or> loggedIn then ([(''GET'', awe_ip), getAWEDetails awe_ip], True) else ([(''GET'', awe_ip)], False))"

definition set_grouping :: "phost \<Rightarrow> string \<Rightarrow> panel \<Rightarrow> (panel \<times> pview) js" where
  "set_grouping ph g p = showAWEDetails ph (p\<lparr>grouping := Some g\<rparr>)"

definition set_currentApp :: "phost \<Rightarrow> string option \<Rightarrow> panel \<Rightarrow> (panel \<times> pview) js" where
  "set_currentApp ph a p = showAWEDetails ph (p\<lparr>currentApp := a\<rparr>)"

section \<open>Resuming\<close>

text \<open>The callbacks of \<^verbatim>\<open>resumeAllJobs\<close> and \<^verbatim>\<open>resumeAllClients\<close> call a method \<^verbatim>\<open>test_components\<close> before
  they report success. The widget defines the methods below; \<^verbatim>\<open>inherited\<close> are those of the
  widget class of the Retina library.\<close>

definition panel_methods :: "string list" where
  "panel_methods = [''setup'', ''display'', ''showAWEDetails'', ''getAWEDetails'', ''aweNode'', ''aweNodeDetail'',
     ''aweWorkunitDetail'', ''resumeAllJobs'', ''resumeAllClients'']"

definition call_method :: "(string \<Rightarrow> bool) \<Rightarrow> string \<Rightarrow> unit js" where
  "call_method inherited name = (if name \<in> set panel_methods \<or> inherited name then ok () else throw TypeError)"

definition resumeAllJobs :: "string \<Rightarrow> string \<times> string" where
  "resumeAllJobs awe_ip = (''PUT'', awe_ip @ ''/job?resumeall'')"

definition resumeAllClients :: "string \<Rightarrow> string \<times> string" where
  "resumeAllClients awe_ip = (''PUT'', awe_ip @ ''/client?resumeall'')"

definition resumed_jobs :: "(string \<Rightarrow> bool) \<Rightarrow> string js" where
  "resumed_jobs inherited = jbind (call_method inherited ''test_components'') (\<lambda>_. ok ''all jobs resumed'')"

definition resumed_clients :: "(string \<Rightarrow> bool) \<Rightarrow> string js" where
  "resumed_clients inherited = jbind (call_method inherited ''test_components'') (\<lambda>_. ok ''all clients resumed'')"

end
