(* ===== verification/Polling.thy ===== *)
theory Polling
  imports Js_Prelude
begin

text \<open>
  The widgets that poll the server: \<^verbatim>\<open>getAWEDetails\<close> of the client panel and of the list of running work ask for the
  clients, their answer is stored and asks for the workunits, and the answer to that is stored and displayed. A
  round is started by a timer, so answers of several rounds may arrive in any order. The locale states what the two
  answer handlers promise about the stored clients; what follows for any sequence of answers is proved once.
\<close>

type_synonym ('c, 'w) answers = "('c list + 'w list) list"

fun poll_answer :: "('c list \<Rightarrow> 's \<Rightarrow> 's \<times> 'r) \<Rightarrow> ('w list \<Rightarrow> 's \<Rightarrow> 's \<times> 'v js) \<Rightarrow> 's \<Rightarrow> 'c list + 'w list \<Rightarrow> 's" where
  "poll_answer on_clients on_work s (Inl cs) = fst (on_clients cs s)"
| "poll_answer on_clients on_work s (Inr ws) = fst (on_work ws s)"

definition poll_run :: "('c list \<Rightarrow> 's \<Rightarrow> 's \<times> 'r) \<Rightarrow> ('w list \<Rightarrow> 's \<Rightarrow> 's \<times> 'v js) \<Rightarrow> ('c, 'w) answers \<Rightarrow> 's \<Rightarrow> 's" where
  "poll_run on_clients on_work es s = foldl (poll_answer on_clients on_work) s es"

fun last_clients :: "('c, 'w) answers \<Rightarrow> 'c list option" where
  "last_clients [] = None"
| "last_clients (e # es) =
     (case last_clients es of Some cs \<Rightarrow> Some cs | None \<Rightarrow> (case e of Inl cs \<Rightarrow> Some cs | Inr _ \<Rightarrow> None))"

locale polling =
  fixes on_clients :: "'c list \<Rightarrow> 's \<Rightarrow> 's \<times> 'r"
    and on_work :: "'w list \<Rightarrow> 's \<Rightarrow> 's \<times> 'v js"
    and known :: "'s \<Rightarrow> 'k"
    and content :: "'c list \<Rightarrow> 'k"
  assumes clients_stored: "known (fst (on_clients cs s)) = content cs"
    and clients_kept: "known (fst (on_work ws s)) = known s"
begin

lemma run_known:
  "known (poll_run on_clients on_work es s) = (case last_clients es of None \<Rightarrow> known s | Some cs \<Rightarrow> content cs)"
proof (induction es arbitrary: s)
  case Nil
  then show ?case by (simp add: poll_run_def)
next
  case (Cons e es)
  have "known (poll_run on_clients on_work (e # es) s) = known (poll_run on_clients on_work es (poll_answer on_clients on_work s e))"
    by (simp add: poll_run_def)
  then show ?case using Cons [of "poll_answer on_clients on_work s e"]
    by (cases e) (simp_all add: clients_stored clients_kept split: option.splits)
qed

lemma run_last:
  assumes "last_clients es = Some cs"
  shows "known (poll_run on_clients on_work es s) = content cs"
  using run_known assms by simp

end

end
