(* ===== verification/Panel_Correct.thy ===== *)
theory Panel_Correct
  imports Panel Polling
begin

text \<open>
  Lemmas on the panel: grouping is a partition, the loop over the workunits keeps the clients' state,
  and wrapped client names are unwrapped again.
\<close>

section \<open>Groups\<close>

lemma make_groups_Suc: "make_groups attr (Suc n) = add_group attr (make_groups attr n) n"
  by (simp add: make_groups_def)

lemma make_groups_get:
  "oget (fst (make_groups attr n)) k =
     (let xs = filter (\<lambda>i. to_string (attr i) = k) [0..<n] in if xs = [] then None else Some xs)"
proof (induction n arbitrary: k)
  case (Suc n)
  obtain g order where g: "make_groups attr n = (g, order)" by (cases "make_groups attr n")
  have IH: "oget g k = (let xs = filter (\<lambda>i. to_string (attr i) = k) [0..<n] in if xs = [] then None else Some xs)" for k
    using Suc.IH [of k] by (simp add: g)
  show ?case
    by (auto simp: make_groups_Suc g add_group_def Let_def IH oget_oput split: option.splits)
qed (simp add: make_groups_def)

lemma make_groups_order:
  "distinct (map to_string (snd (make_groups attr n)))"
  "to_string ` set (snd (make_groups attr n)) = (\<lambda>i. to_string (attr i)) ` {0..<n}"
proof (induction n)
  case (Suc n)
  obtain g order where g: "make_groups attr n = (g, order)" by (cases "make_groups attr n")
  have dom: "oget g k \<noteq> None \<longleftrightarrow> k \<in> to_string ` set order" for k
    using make_groups_get [of attr n k] Suc(2) by (auto simp: g Let_def filter_empty_conv)
  {
    case 1
    show ?case using Suc(1) dom [of "to_string (attr n)"]
      by (auto simp: make_groups_Suc g add_group_def Let_def split: option.splits)
  next
    case 2
    show ?case using Suc(2) dom [of "to_string (attr n)"]
      by (auto simp: make_groups_Suc g add_group_def Let_def atLeast0_lessThan_Suc split: option.splits)
  }
qed (simp_all add: make_groups_def)

lemma sort_groups_perm: "sort_groups ph order = Inr order' \<Longrightarrow> mset order' = mset order"
  by (auto simp: sort_groups_def split: list.splits if_splits)

definition group_ids :: "nat list props \<Rightarrow> jsval \<Rightarrow> nat list" where
  "group_ids groups v = (case oget groups (to_string v) of None \<Rightarrow> [] | Some xs \<Rightarrow> xs)"

lemma group_ids_eq: "group_ids (fst (make_groups attr n)) v = filter (\<lambda>i. to_string (attr i) = to_string v) [0..<n]"
  by (simp add: group_ids_def make_groups_get Let_def)

lemma groups_partition:
  assumes "make_groups attr n = (groups, order)" "sort_groups ph order = Inr order'"
  shows "mset (concat (map (group_ids groups) order')) = mset [0..<n]"
proof -
  have g: "groups = fst (make_groups attr n)" "order = snd (make_groups attr n)" using assms(1) by simp_all
  have p: "mset order' = mset order" using sort_groups_perm [OF assms(2)] .
  then have "mset (map to_string order') = mset (map to_string order)" by simp
  then have d: "distinct (map to_string order')"
    using make_groups_order(1) [of attr n] g(2) mset_eq_imp_distinct_iff by metis
  have "map (group_ids groups) order' = map (\<lambda>k. filter (\<lambda>i. to_string (attr i) = k) [0..<n]) (map to_string order')"
    by (simp add: g(1) group_ids_eq)
  moreover have "(\<lambda>i. to_string (attr i)) ` set [0..<n] \<subseteq> set (map to_string order')"
    using make_groups_order(2) [of attr n] mset_eq_setD [OF p] g(2) by simp
  ultimately show ?thesis using partition_mset [OF d, of "\<lambda>i. to_string (attr i)" "[0..<n]"] by (simp only:)
qed

section \<open>The loop over the workunits\<close>

definition fixed :: "pclient \<Rightarrow> string \<times> (string \<Rightarrow> jsval) \<times> bool \<times> bool \<times> bool \<times> nat" where
  "fixed c = (pc_id c, pc_attr c, online c, busy c, suspended c, length (pc_work c))"

lemma work_step_fixed: "map fixed (w_clients (work_step ix app s i)) = map fixed (w_clients s)"
  by (auto simp: work_step_def Let_def fixed_def intro!: map_same_update split: option.splits)

lemma work_step_work: "length (w_work (work_step ix app s i)) = length (w_work s)"
  by (auto simp: work_step_def Let_def split: option.splits)

lemma work_loop_fixed: "map fixed (w_clients (work_loop ix app cs ws)) = map fixed cs"
proof -
  have "map fixed (w_clients (foldl (work_step ix app) s is)) = map fixed (w_clients s)" for s "is"
    by (induction "is" arbitrary: s) (simp_all add: work_step_fixed)
  then show ?thesis by (simp add: work_loop_def)
qed

lemma linked_not_first: "linked ix c \<noteq> Some 0"
  by (auto simp: linked_def split: option.splits if_splits)

lemma work_loop_first:
  assumes "cs \<noteq> []"
  shows "w_clients (work_loop ix app cs ws) ! 0 = cs ! 0"
proof -
  have step: "w_clients (work_step ix app s i) ! 0 = w_clients s ! 0" for s i
    using linked_not_first [of ix "clean_client (pw_client (w_work s ! i))"]
    by (auto simp: work_step_def Let_def nth_list_update split: option.splits)
  have "w_clients (foldl (work_step ix app) s is) ! 0 = w_clients s ! 0" for s "is"
    by (induction "is" arbitrary: s) (simp_all add: step)
  then show ?thesis by (simp add: work_loop_def)
qed

lemma box_status_cases: "\<exists>st \<in> {''info'', ''success'', ''danger'', ''warning''}. box_status c = Some st"
  by (auto simp: box_status_def)

lemma boxes_of_eq: "boxes_of ph cs ids = map (\<lambda>i. aweNode ph (the (box_status (cs ! i))) cs i) ids"
proof (induction ids)
  case (Cons i ids)
  obtain st where "box_status (cs ! i) = Some st" using box_status_cases by blast
  with Cons show ?case by (simp add: boxes_of_def List.map_filter_simps)
qed (simp add: boxes_of_def List.map_filter_def)

lemma box_status_fixed: "fixed c = fixed d \<Longrightarrow> box_status c = box_status d"
  by (simp add: fixed_def box_status_def)

lemma count_four:
  assumes "\<forall>b \<in> set xs. bx_status b \<in> {''info'', ''success'', ''danger'', ''warning''}"
  shows "length (filter (\<lambda>b. bx_status b = ''info'') xs) + length (filter (\<lambda>b. bx_status b = ''success'') xs)
    + length (filter (\<lambda>b. bx_status b = ''warning'') xs) + length (filter (\<lambda>b. bx_status b = ''danger'') xs) = length xs"
  using assms by (induction xs) auto

section \<open>Wrapped names\<close>

lemma unspan_plain: "take 1 s \<noteq> ''<'' \<Longrightarrow> unspan s = s"
  by (simp add: unspan_def Let_def)

lemma unspan_client_span:
  assumes "cid \<noteq> []" "CHR ''<'' \<notin> set cid"
  shows "unspan (client_span i cid) = cid"
proof -
  let ?a = \<open>''span class='href' onclick='Retina.WidgetInstances.awe_panel[1].aweNodeDetail('' @ nat_to_string i @ '');'' @ [CHR 0x27]\<close>
  have s: "client_span i cid = ''<'' @ ?a @ ''>'' @ cid @ ''</span>''" by (simp add: client_span_def)
  have "CHR ''>'' \<notin> set (nat_to_string i)" using nat_to_string_digits [of i] by (auto simp: is_digit_def)
  then have a: "\<forall>c \<in> set ?a. c \<noteq> CHR ''>''" by auto
  have t: "takeWhile (\<lambda>c. c \<noteq> CHR ''>'') (?a @ ''>'' @ r) = ?a" "dropWhile (\<lambda>c. c \<noteq> CHR ''>'') (?a @ ''>'' @ r) = ''>'' @ r" for r
    using a by (simp_all add: takeWhile_append dropWhile_append)
  have c: "\<forall>c \<in> set cid. c \<noteq> CHR ''<''" using assms(2) by auto
  have u: "takeWhile (\<lambda>c. c \<noteq> CHR ''<'') (cid @ ''</span>'') = cid" "dropWhile (\<lambda>c. c \<noteq> CHR ''<'') (cid @ ''</span>'') = ''</span>''"
    using c by (simp_all add: takeWhile_append dropWhile_append)
  show ?thesis
    unfolding s unspan_def Let_def using assms(1) t [of "cid @ ''</span>''"] u
    by (simp add: line_end_def)
qed

text \<open>The client of a workunit, once cleaned, is left alone by cleaning.\<close>

definition plain_name :: "string option \<Rightarrow> bool" where
  "plain_name c = (case c of None \<Rightarrow> True | Some s \<Rightarrow> s \<noteq> [] \<and> CHR ''<'' \<notin> set s)"

lemma clean_plain: "plain_name c \<Longrightarrow> clean_client c = c"
proof (cases c)
  case (Some s)
  assume "plain_name c"
  with Some have s: "s \<noteq> []" "CHR ''<'' \<notin> set s" by (simp_all add: plain_name_def)
  then have "take 1 s \<noteq> ''<''" by (cases s) auto
  with s Some show ?thesis by (simp add: clean_client_def unspan_plain)
qed (simp add: clean_client_def)

lemma clean_span: "plain_name (Some cid) \<Longrightarrow> clean_client (Some (client_span k cid)) = Some cid"
  using unspan_client_span [of cid k] by (simp add: clean_client_def plain_name_def client_span_def)

definition drawn_client :: "nat props \<Rightarrow> string option \<Rightarrow> string option" where
  "drawn_client ix c = (case (c, linked ix c) of (Some cid, Some k) \<Rightarrow> Some (client_span k cid) | _ \<Rightarrow> c)"

lemma clean_drawn: "plain_name c \<Longrightarrow> clean_client (drawn_client ix c) = c"
  by (auto simp: drawn_client_def clean_plain clean_span split: option.splits)

lemma work_step_client:
  "w_work (work_step ix app s i) = (w_work s)[i := (w_work s ! i)\<lparr>pw_client := drawn_client ix (clean_client (pw_client (w_work s ! i)))\<rparr>]"
  by (auto simp: work_step_def Let_def drawn_client_def split: option.splits)

lemma work_loop_work:
  "w_work (work_loop ix app cs ws) = map (\<lambda>w. w\<lparr>pw_client := drawn_client ix (clean_client (pw_client w))\<rparr>) ws"
proof -
  let ?f = "\<lambda>w. w\<lparr>pw_client := drawn_client ix (clean_client (pw_client w))\<rparr>"
  have "w_work (foldl (work_step ix app) s [0..<n]) = map ?f (take n (w_work s)) @ drop n (w_work s)" if "n \<le> length (w_work s)" for n s
    using that
  proof (induction n)
    case (Suc n)
    then have n: "n < length (w_work s)" by simp
    let ?xs = "map ?f (take n (w_work s)) @ drop n (w_work s)"
    have "w_work (foldl (work_step ix app) s [0..<Suc n]) = ?xs[n := ?f (?xs ! n)]"
      using Suc by (simp add: work_step_client)
    moreover have "?xs ! n = w_work s ! n" using n by (simp add: nth_append)
    moreover have "drop n (w_work s) = w_work s ! n # drop (Suc n) (w_work s)" using n by (rule Cons_nth_drop_Suc [symmetric])
    ultimately show ?case using n by (simp add: take_Suc_conv_app_nth list_update_append)
  qed simp
  from this [of "length ws" "\<lparr>w_clients = cs, w_work = ws, w_apps = [], w_pipes = []\<rparr>"] show ?thesis
    by (simp add: work_loop_def)
qed

lemma client_index_fixed: "map fixed cs = map fixed ds \<Longrightarrow> client_index cs = client_index ds"
proof -
  assume f: "map fixed cs = map fixed ds"
  then have l: "length cs = length ds" by (rule map_eq_imp_length_eq)
  have "pc_id (cs ! i) = pc_id (ds ! i)" if "i < length ds" for i
  proof -
    have "fixed (cs ! i) = fixed (ds ! i)" using f l that by (metis nth_map)
    then show ?thesis by (simp add: fixed_def)
  qed
  then show ?thesis unfolding client_index_def l by (intro foldl_cong) auto
qed

lemma work_loop_again:
  assumes "\<forall>w \<in> set ws. plain_name (clean_client (pw_client w))"
  shows "w_work (work_loop ix app cs (w_work (work_loop ix app' cs' ws))) = w_work (work_loop ix app' cs' ws)"
  using assms by (auto simp: work_loop_work clean_drawn)

section \<open>One display\<close>

lemma showAWEDetails_parts:
  assumes "showAWEDetails ph p = Inr (p', v)"
  obtains gr cs groups order order' s where
    "gr = (case grouping p of None \<Rightarrow> ''cores'' | Some g \<Rightarrow> if g = [] then ''cores'' else g)"
    "cs = js_sort (sort_id ph) (aweClientData p)"
    "make_groups (\<lambda>i. pc_attr (cs ! i) gr) (length cs) = (groups, order)" "sort_groups ph order = Inr order'"
    "s = work_loop (client_index cs) (currentApp p) cs (aweWorkData p)"
    "p' = p\<lparr>aweClientData := w_clients s, aweWorkData := w_work s\<rparr>" "pv_total v = length cs"
    "pv_groups v = map (\<lambda>v. (gr @ '': '' @ to_string v, boxes_of ph (w_clients s) (group_ids groups v))) order'"
    "numIdle v = count_status ''info'' (pv_groups v)" "numBusy v = count_status ''success'' (pv_groups v)"
    "numOffline v = count_status ''warning'' (pv_groups v)" "numError v = count_status ''danger'' (pv_groups v)"
proof -
  let ?gr = "case grouping p of None \<Rightarrow> ''cores'' | Some g \<Rightarrow> if g = [] then ''cores'' else g"
  let ?cs = "js_sort (sort_id ph) (aweClientData p)"
  obtain groups order where g: "make_groups (\<lambda>i. pc_attr (?cs ! i) ?gr) (length ?cs) = (groups, order)"
    by (cases "make_groups (\<lambda>i. pc_attr (?cs ! i) ?gr) (length ?cs)")
  with assms obtain order' where o: "sort_groups ph order = Inr order'"
    by (auto simp: showAWEDetails_def Let_def jbind_Inr_iff)
  show thesis
    by (rule that [OF refl refl g o refl]) (use assms g o in \<open>auto simp: showAWEDetails_def Let_def group_ids_def\<close>)
qed

lemma concat_boxes:
  "concat (map snd (map (\<lambda>v. (f v, boxes_of ph cs (g v))) vs))
     = map (\<lambda>i. aweNode ph (the (box_status (cs ! i))) cs i) (concat (map g vs))"
  by (induction vs) (simp_all add: boxes_of_eq)

lemma client_fixed:
  assumes "i < length cs"
  shows "fixed (w_clients (work_loop ix app cs ws) ! i) = fixed (cs ! i)"
proof -
  note f = work_loop_fixed [of ix app cs ws]
  have "length (w_clients (work_loop ix app cs ws)) = length cs" using map_eq_imp_length_eq [OF f] .
  with f assms show ?thesis by (metis nth_map)
qed

section \<open>Counting the clients of an answer\<close>

definition status_of_fixed :: "string \<times> (string \<Rightarrow> jsval) \<times> bool \<times> bool \<times> bool \<times> nat \<Rightarrow> string option" where
  "status_of_fixed x =
     (case x of (i, a, on, bu, su, n) \<Rightarrow>
        box_status \<lparr>pc_id = i, pc_attr = a, online = on, busy = bu, suspended = su, pc_work = [], highlight = False\<rparr>)"

lemma box_status_of_fixed: "box_status c = status_of_fixed (fixed c)"
  by (simp add: status_of_fixed_def fixed_def box_status_def)

definition with_status :: "string \<Rightarrow> pclient list \<Rightarrow> nat" where
  "with_status st cs = length (filter (\<lambda>c. box_status c = Some st) cs)"

lemma with_status_fixed:
  assumes "mset (map fixed cs) = mset (map fixed ds)"
  shows "with_status st cs = with_status st ds"
proof -
  have "with_status st cs = size (filter_mset (\<lambda>x. status_of_fixed x = Some st) (mset (map fixed cs)))" for cs
    by (simp add: with_status_def box_status_of_fixed comp_def filter_mset_image_mset size_mset [symmetric] del: size_mset)
  with assms show ?thesis by simp
qed

lemma count_with_status:
  assumes "showAWEDetails ph p = Inr (p', v)"
  shows "count_status st (pv_groups v) = with_status st (aweClientData p)"
proof -
  obtain gr cs groups order order' s where
    c: "cs = js_sort (sort_id ph) (aweClientData p)"
    and g: "make_groups (\<lambda>i. pc_attr (cs ! i) gr) (length cs) = (groups, order)" "sort_groups ph order = Inr order'"
    and s: "s = work_loop (client_index cs) (currentApp p) cs (aweWorkData p)"
    and gs: "pv_groups v = map (\<lambda>v. (gr @ '': '' @ to_string v, boxes_of ph (w_clients s) (group_ids groups v))) order'"
    by (rule showAWEDetails_parts [OF assms])
  let ?ids = "concat (map (group_ids groups) order')" and ?P = "\<lambda>i. box_status (w_clients s ! i) = Some st"
  have P: "the (box_status (w_clients s ! i)) = st \<longleftrightarrow> ?P i" for i using box_status_cases [of "w_clients s ! i"] by auto
  have len: "length (w_clients s) = length cs"
    using map_eq_imp_length_eq [OF work_loop_fixed] by (simp add: s)
  have "count_status st (pv_groups v) = length (filter ?P ?ids)"
    unfolding count_status_def gs concat_boxes by (simp add: filter_map comp_def aweNode_def P)
  also have "\<dots> = size (filter_mset ?P (mset ?ids))" by (simp flip: mset_filter)
  also have "\<dots> = size (filter_mset ?P (mset [0..<length cs]))" by (simp only: groups_partition [OF g])
  also have "\<dots> = length (filter ?P [0..<length (w_clients s)])" by (simp add: len flip: mset_filter del: mset_upt)
  also have "\<dots> = with_status st (w_clients s)"
    by (simp add: with_status_def length_filter_conv_card set_upt [symmetric] del: set_upt) (rule arg_cong [where f = card], auto)
  also have "\<dots> = with_status st cs" by (rule with_status_fixed) (simp only: s work_loop_fixed)
  also have "\<dots> = with_status st (aweClientData p)" by (rule with_status_fixed) (simp add: c)
  finally show ?thesis .
qed

section \<open>Polling\<close>

text \<open>What a display never changes of the stored clients, up to their order.\<close>

definition known_clients :: "panel \<Rightarrow> (string \<times> (string \<Rightarrow> jsval) \<times> bool \<times> bool \<times> bool \<times> nat) multiset" where
  "known_clients p = mset (map fixed (aweClientData p))"

lemma got_work_known: "known_clients (fst (got_work ph ws p)) = known_clients p"
proof (cases "showAWEDetails ph (p\<lparr>aweWorkData := ws\<rparr>)")
  case (Inl e)
  then show ?thesis by (simp add: got_work_def known_clients_def)
next
  case (Inr r)
  obtain p' v where r: "r = (p', v)" by (cases r)
  let ?cs = "js_sort (sort_id ph) (aweClientData p)"
  have "aweClientData p' = w_clients (work_loop (client_index ?cs) (currentApp p) ?cs ws)"
    by (rule showAWEDetails_parts [OF Inr [unfolded r]]) simp
  then have "known_clients p' = mset (map fixed ?cs)" by (simp only: known_clients_def work_loop_fixed)
  then show ?thesis using Inr r by (simp add: got_work_def known_clients_def)
qed

interpretation panel_poll: polling "got_clients ip" "got_work ph" known_clients "\<lambda>cs. mset (map fixed cs)" for ip ph
  by unfold_locales (simp_all add: got_work_known, simp add: got_clients_def known_clients_def)

end
