(* ===== verification/Panel_Props.thy ===== *)
theory Panel_Props
  imports Panel_Correct
begin

text \<open>
  The properties of the client panel.
\<close>

text \<open>C7: Every display of the panel draws every client in exactly one box, in the colour of its state, and the
  idle, busy, failed and offline clients add up to the number of clients.\<close>

theorem panel_partition:
  assumes "showAWEDetails ph p = Inr (p', v)"
  shows "pv_total v = length (aweClientData p)
    \<and> numIdle v + numBusy v + numOffline v + numError v = pv_total v
    \<and> mset (map bx_index (concat (map snd (pv_groups v)))) = mset [0..<pv_total v]
    \<and> (\<forall>b \<in> set (concat (map snd (pv_groups v))).
         Some (bx_status b) = box_status (aweClientData p' ! bx_index b) \<and> bx_highlight b = highlight (aweClientData p' ! bx_index b))"
proof -
  obtain gr' cs groups order order' s where
    gr: "gr' = (case grouping p of None \<Rightarrow> ''cores'' | Some g \<Rightarrow> if g = [] then ''cores'' else g)"
    and c: "cs = js_sort (sort_id ph) (aweClientData p)"
    and g: "make_groups (\<lambda>i. pc_attr (cs ! i) gr') (length cs) = (groups, order)" "sort_groups ph order = Inr order'"
    and s: "s = work_loop (client_index cs) (currentApp p) cs (aweWorkData p)"
    and p': "p' = p\<lparr>aweClientData := w_clients s, aweWorkData := w_work s\<rparr>" and tot: "pv_total v = length cs"
    and gs: "pv_groups v = map (\<lambda>v. (gr' @ '': '' @ to_string v, boxes_of ph (w_clients s) (group_ids groups v))) order'"
    and counts: "numIdle v = count_status ''info'' (pv_groups v)" "numBusy v = count_status ''success'' (pv_groups v)"
    "numOffline v = count_status ''warning'' (pv_groups v)" "numError v = count_status ''danger'' (pv_groups v)"
    by (rule showAWEDetails_parts [OF assms])
  let ?ids = "concat (map (group_ids groups) order')" and ?bs = "concat (map snd (pv_groups v))"
  have bs: "?bs = map (\<lambda>i. aweNode ph (the (box_status (w_clients s ! i))) (w_clients s) i) ?ids"
    unfolding gs by (rule concat_boxes)
  have ids: "mset ?ids = mset [0..<length cs]" using groups_partition [OF g] .
  have st: "Some (the (box_status (w_clients s ! i))) = box_status (w_clients s ! i)" for i
    using box_status_cases [of "w_clients s ! i"] by auto
  have "length ?bs = length cs" using arg_cong [OF ids, of size] bs by simp
  moreover have "\<forall>b \<in> set ?bs. bx_status b \<in> {''info'', ''success'', ''danger'', ''warning''}"
  proof -
    have "the (box_status c) \<in> {''info'', ''success'', ''danger'', ''warning''}" for c using box_status_cases [of c] by auto
    then show ?thesis unfolding bs by (simp only: set_map ball_simps aweNode_def pbox.simps) blast
  qed
  ultimately have "numIdle v + numBusy v + numOffline v + numError v = pv_total v"
    using count_four [of ?bs] by (simp add: counts count_status_def tot)
  moreover have "map bx_index ?bs = ?ids" by (simp add: bs aweNode_def comp_def)
  moreover have "\<forall>b \<in> set ?bs. Some (bx_status b) = box_status (aweClientData p' ! bx_index b)
      \<and> bx_highlight b = highlight (aweClientData p' ! bx_index b)"
    unfolding bs using st by (auto simp: aweNode_def p')
  moreover have "length cs = length (aweClientData p)" using c js.same_length by simp
  ultimately show ?thesis using ids tot by simp
qed

definition client_of :: "string \<Rightarrow> bool \<Rightarrow> pclient" where
  "client_of cid b = \<lparr>pc_id = cid, pc_attr = (\<lambda>_. Num (Fin 8)), online = True, busy = b, suspended = False, pc_work = (if b then [''w1''] else []), highlight = False\<rparr>"

definition panel1 :: panel where
  "panel1 = \<lparr>aweClientData = [client_of ''b'' True, client_of ''a'' True],
     aweWorkData = [\<lparr>pw_id = ''w1'', pw_name = ''bowtie'', pw_pipeline = ''qc'', pw_client = Some ''b''\<rparr>,
                    \<lparr>pw_id = ''w2'', pw_name = ''bowtie'', pw_pipeline = ''qc'', pw_client = Some ''a''\<rparr>],
     currentApp = Some ''bowtie'', grouping = None\<rparr>"

definition phost1 :: phost where
  "phost1 = \<lparr>sort_id = (\<lambda>a b. text_order (Str (pc_id a)) (Str (pc_id b))), numsort = (\<lambda>a b. text_order a b), rkeys = (\<lambda>ks. ks)\<rparr>"

lemma panel1_shown: "\<exists>p' v. showAWEDetails phost1 panel1 = Inr (p', v) \<and> pv_total v = 2"
proof -
  have "(case showAWEDetails phost1 panel1 of Inl e \<Rightarrow> False | Inr (p', v) \<Rightarrow> pv_total v = 2)" by code_simp
  then show ?thesis by (auto split: sum.splits)
qed

theorem panel_partition_witness:
  "\<exists>p' v. showAWEDetails phost1 panel1 = Inr (p', v) \<and> numIdle v + numBusy v + numOffline v + numError v = 2"
  using panel1_shown panel_partition by metis

text \<open>The boxes under a heading are those of the clients whose attribute reads as the heading says, in the order of
  the client list, and every heading stands once.\<close>

theorem panel_groups:
  assumes "showAWEDetails ph p = Inr (p', v)" "grouping p = Some gr" "gr \<noteq> []"
  shows "\<exists>vals. map fst (pv_groups v) = map (\<lambda>x. gr @ '': '' @ to_string x) vals \<and> distinct (map to_string vals)
    \<and> map (\<lambda>g. map bx_index (snd g)) (pv_groups v)
        = map (\<lambda>x. filter (\<lambda>i. to_string (pc_attr (aweClientData p' ! i) gr) = to_string x) [0..<pv_total v]) vals"
proof -
  obtain gr' cs groups order order' s where
    gr: "gr' = (case grouping p of None \<Rightarrow> ''cores'' | Some g \<Rightarrow> if g = [] then ''cores'' else g)"
    and c: "cs = js_sort (sort_id ph) (aweClientData p)"
    and g: "make_groups (\<lambda>i. pc_attr (cs ! i) gr') (length cs) = (groups, order)" "sort_groups ph order = Inr order'"
    and s: "s = work_loop (client_index cs) (currentApp p) cs (aweWorkData p)"
    and p': "p' = p\<lparr>aweClientData := w_clients s, aweWorkData := w_work s\<rparr>" and tot: "pv_total v = length cs"
    and gs: "pv_groups v = map (\<lambda>v. (gr' @ '': '' @ to_string v, boxes_of ph (w_clients s) (group_ids groups v))) order'"
    and counts: "numIdle v = count_status ''info'' (pv_groups v)" "numBusy v = count_status ''success'' (pv_groups v)"
    "numOffline v = count_status ''warning'' (pv_groups v)" "numError v = count_status ''danger'' (pv_groups v)"
    by (rule showAWEDetails_parts [OF assms(1)])
  have gr [simp]: "gr' = gr" using gr assms(2,3) by simp
  have "mset (map to_string order') = mset (map to_string order)" using sort_groups_perm [OF g(2)] by simp
  then have "distinct (map to_string order')"
    using make_groups_order(1) [of "\<lambda>i. pc_attr (cs ! i) gr'" "length cs"] g(1) mset_eq_imp_distinct_iff by (metis snd_conv)
  moreover have "map bx_index (boxes_of ph (w_clients s) (group_ids groups x))
      = filter (\<lambda>i. to_string (pc_attr (aweClientData p' ! i) gr) = to_string x) [0..<pv_total v]" for x
  proof -
    have "pc_attr (w_clients s ! i) = pc_attr (cs ! i)" if "i < length cs" for i
      using client_fixed [OF that] by (simp add: s fixed_def)
    then have "filter (\<lambda>i. to_string (pc_attr (cs ! i) gr) = to_string x) [0..<length cs]
        = filter (\<lambda>i. to_string (pc_attr (aweClientData p' ! i) gr) = to_string x) [0..<length cs]"
      by (intro filter_cong) (simp_all add: p')
    then show ?thesis
      using group_ids_eq [of "\<lambda>i. pc_attr (cs ! i) gr'" "length cs" x] g(1) by (simp add: boxes_of_eq aweNode_def tot comp_def)
  qed
  ultimately show ?thesis by (intro exI [of _ order']) (simp add: gs comp_def)
qed

theorem panel_groups_witness:
  "\<exists>p' v vals. showAWEDetails phost1 (panel1\<lparr>grouping := Some ''cores''\<rparr>) = Inr (p', v)
    \<and> map fst (pv_groups v) = map (\<lambda>x. ''cores: '' @ to_string x) vals \<and> distinct (map to_string vals)"
proof -
  have "(case showAWEDetails phost1 (panel1\<lparr>grouping := Some ''cores''\<rparr>) of Inl e \<Rightarrow> False | Inr (p', v) \<Rightarrow> True)" by code_simp
  then obtain p' v where "showAWEDetails phost1 (panel1\<lparr>grouping := Some ''cores''\<rparr>) = Inr (p', v)" by (auto split: sum.splits)
  from this panel_groups [OF this, of "''cores''"] show ?thesis by auto
qed

text \<open>C27: Displaying the panel again leaves the workunits as they are: the link around the name of a client is taken off
  before it is put on again. This needs a sort by id and client names without angle brackets.\<close>

theorem panel_redisplay:
  assumes "showAWEDetails ph p = Inr (p1, v1)" "showAWEDetails ph p1 = Inr (p2, v2)"
    and "sort_id ph = (\<lambda>a b. c (pc_id a) (pc_id b))" "consistent c UNIV"
    and "\<forall>w \<in> set (aweWorkData p). plain_name (clean_client (pw_client w))"
  shows "aweWorkData p2 = aweWorkData p1"
proof -
  let ?cs = "js_sort (sort_id ph) (aweClientData p)"
  let ?s = "work_loop (client_index ?cs) (currentApp p) ?cs (aweWorkData p)"
  have p1: "aweClientData p1 = w_clients ?s" "aweWorkData p1 = w_work ?s" "currentApp p1 = currentApp p"
    by (rule showAWEDetails_parts [OF assms(1)], simp)+
  have p2: "aweWorkData p2 = w_work (work_loop (client_index (js_sort (sort_id ph) (aweClientData p1))) (currentApp p1)
      (js_sort (sort_id ph) (aweClientData p1)) (aweWorkData p1))"
    by (rule showAWEDetails_parts [OF assms(2)], simp)
  have con: "consistent (sort_id ph) S" for S using assms(3,4) by (auto simp: consistent_def)
  have ids: "map pc_id (w_clients ?s) = map pc_id ?cs"
    using arg_cong [OF work_loop_fixed [of "client_index ?cs" "currentApp p" ?cs "aweWorkData p"], of "map fst"]
    by (simp add: fixed_def comp_def)
  have "sorted_wrt (\<lambda>a b. sort_id ph a b \<le> 0) ?cs" using con by (rule sorted_js_sort)
  then have "sorted_wrt (\<lambda>a b. c a b \<le> 0) (map pc_id ?cs)" by (simp add: sorted_wrt_map assms(3))
  then have "sorted_wrt (\<lambda>a b. c a b \<le> 0) (map pc_id (w_clients ?s))" by (simp only: ids)
  then have "sorted_wrt (\<lambda>a b. sort_id ph a b \<le> 0) (w_clients ?s)" by (simp add: sorted_wrt_map assms(3))
  then have "js_sort (sort_id ph) (w_clients ?s) = w_clients ?s" using js.already_sorted [OF con] by blast
  then have "aweWorkData p2 = w_work (work_loop (client_index (w_clients ?s)) (currentApp p) (w_clients ?s) (w_work ?s))"
    by (simp add: p2 p1)
  also have "client_index (w_clients ?s) = client_index ?cs" by (rule client_index_fixed) (rule work_loop_fixed)
  finally show ?thesis using work_loop_again [OF assms(5)] by (simp add: p1)
qed

lemma consistent_text_order: "consistent (\<lambda>a b. text_order (Str a) (Str b)) UNIV"
  by (auto simp: consistent_def text_order_def split: if_splits)

theorem panel_redisplay_witness:
  "\<exists>p1 v1 p2 v2. showAWEDetails phost1 panel1 = Inr (p1, v1) \<and> showAWEDetails phost1 p1 = Inr (p2, v2) \<and> aweWorkData p2 = aweWorkData p1"
proof -
  have "(case showAWEDetails phost1 panel1 of Inl e \<Rightarrow> False
      | Inr (p1, v1) \<Rightarrow> (case showAWEDetails phost1 p1 of Inl e \<Rightarrow> False | Inr (p2, v2) \<Rightarrow> True))" by code_simp
  then obtain p1 v1 p2 v2 where r: "showAWEDetails phost1 panel1 = Inr (p1, v1)" "showAWEDetails phost1 p1 = Inr (p2, v2)"
    by (auto split: sum.splits)
  have "list_all (\<lambda>w. plain_name (clean_client (pw_client w))) (aweWorkData panel1)" by code_simp
  then have "aweWorkData p2 = aweWorkData p1"
    using panel_redisplay [OF r _ consistent_text_order] by (simp add: phost1_def list_all_iff)
  with r show ?thesis by blast
qed

text \<open>C39: The client with the smallest id is never connected with its workunits: position 0 counts as no position, so
  its box is never highlighted and its current work never linked.\<close>

theorem first_client_not_linked:
  assumes "showAWEDetails ph p = Inr (p', v)" "aweClientData p \<noteq> []"
  shows "aweClientData p' ! 0 = js_sort (sort_id ph) (aweClientData p) ! 0"
proof -
  let ?cs = "js_sort (sort_id ph) (aweClientData p)"
  have "aweClientData p' = w_clients (work_loop (client_index ?cs) (currentApp p) ?cs (aweWorkData p))"
    by (rule showAWEDetails_parts [OF assms(1)], simp)
  moreover have "?cs \<noteq> []" using assms(2) set_js_sort [of "sort_id ph" "aweClientData p"] by (metis set_empty)
  ultimately show ?thesis using work_loop_first [of ?cs] by simp
qed

theorem first_client_not_linked_witness:
  "\<exists>p' v. showAWEDetails phost1 panel1 = Inr (p', v) \<and> \<not> highlight (aweClientData p' ! 0)"
proof -
  obtain p' v where r: "showAWEDetails phost1 panel1 = Inr (p', v)" using panel1_shown by blast
  have "\<not> highlight (js_sort (sort_id phost1) (aweClientData panel1) ! 0)" by code_simp
  with first_client_not_linked [OF r] r show ?thesis by (auto simp: panel1_def)
qed

text \<open>A client list whose first client lacks the attribute to group by cannot be displayed.\<close>

theorem missing_attribute_throws:
  assumes "aweClientData p = c # cs" "grouping p = Some gr" "gr \<noteq> []"
    and "nullish (pc_attr (js_sort (sort_id ph) (aweClientData p) ! 0) gr)"
  shows "showAWEDetails ph p = Inl TypeError"
proof -
  let ?cs = "js_sort (sort_id ph) (aweClientData p)"
  have "length ?cs = length (aweClientData p)" by (rule js.same_length)
  then obtain n where n: "length ?cs = Suc n" using assms(1) by simp
  have "\<exists>xs. snd (make_groups attr (Suc n)) = attr 0 # xs" for attr n
  proof (induction n)
    case 0
    show ?case by (simp add: make_groups_def add_group_def)
  next
    case (Suc n)
    have "snd (add_group attr s i) = snd s \<or> snd (add_group attr s i) = snd s @ [attr i]" for s i
      by (auto simp: add_group_def Let_def split: prod.splits option.splits)
    then show ?case using Suc by (metis append_Cons make_groups_Suc)
  qed
  then obtain groups xs where "make_groups (\<lambda>i. pc_attr (?cs ! i) gr) (length ?cs) = (groups, pc_attr (?cs ! 0) gr # xs)"
    unfolding n by (metis prod.collapse)
  with assms(2-4) show ?thesis by (simp add: showAWEDetails_def sort_groups_def)
qed

theorem missing_attribute_throws_witness:
  "showAWEDetails phost1 (panel1\<lparr>aweClientData := [(client_of ''a'' True)\<lparr>pc_attr := (\<lambda>_. Undef)\<rparr>], grouping := Some ''domain''\<rparr>) = Inl TypeError"
  by (rule missing_attribute_throws [where gr = "''domain''" and cs = "[]"]) (simp_all add: nullish_def js_sort_def)

text \<open>An interval of 0 does not switch the refreshing off: the next call is always scheduled, after a minute if the
  interval is 0 or missing.\<close>

theorem refresh_never_off: "refresh_delay cfg = Some (case cfg of None \<Rightarrow> Num (Fin 60000) | Some v \<Rightarrow> if truthy v then v else Num (Fin 60000))"
  by (simp add: refresh_delay_def Let_def loose_eq_def nullish_def num_eq_def)

text \<open>After the jobs were resumed the panel fails instead of reporting it, unless the widget class has a method
  \<^verbatim>\<open>test_components\<close>.\<close>

theorem resume_not_reported: "\<not> inherited ''test_components'' \<Longrightarrow> resumed_jobs inherited = Inl TypeError \<and> resumed_clients inherited = Inl TypeError"
  by (simp add: resumed_jobs_def resumed_clients_def call_method_def panel_methods_def)

theorem resume_not_reported_witness: "resumed_jobs (\<lambda>_. False) = Inl TypeError"
  using resume_not_reported [of "\<lambda>_. False"] by simp

text \<open>C22: In whatever order the answers of several rounds arrive, the panel counts the clients of the client list received
  last: its total and the idle, busy, offline and failed clients are those of that list.\<close>

theorem panel_polled:
  assumes "last_clients es = Some cs"
    and "snd (got_work ph ws (poll_run (got_clients ip) (got_work ph) es p)) = Inr v"
  shows "pv_total v = length cs \<and> numIdle v = with_status ''info'' cs \<and> numBusy v = with_status ''success'' cs
    \<and> numOffline v = with_status ''warning'' cs \<and> numError v = with_status ''danger'' cs"
proof -
  let ?p = "(poll_run (got_clients ip) (got_work ph) es p)\<lparr>aweWorkData := ws\<rparr>"
  obtain p' where r: "showAWEDetails ph ?p = Inr (p', v)"
    using assms(2) by (auto simp: got_work_def Let_def split: sum.splits prod.splits)
  have known: "mset (map fixed (aweClientData ?p)) = mset (map fixed cs)"
    using panel_poll.run_last [OF assms(1)] by (simp add: known_clients_def)
  have "pv_total v = length (aweClientData ?p)" by (rule showAWEDetails_parts [OF r]) (simp add: js.same_length)
  then have "pv_total v = length cs" using arg_cong [OF known, of size] by simp
  moreover have "numIdle v = count_status ''info'' (pv_groups v)" "numBusy v = count_status ''success'' (pv_groups v)"
    "numOffline v = count_status ''warning'' (pv_groups v)" "numError v = count_status ''danger'' (pv_groups v)"
    by (rule showAWEDetails_parts [OF r], simp)+
  ultimately show ?thesis using count_with_status [OF r] with_status_fixed [OF known] by simp
qed

theorem panel_polled_witness:
  "\<exists>v. snd (got_work phost1 [] (poll_run (got_clients ''ip'') (got_work phost1)
      [Inr (aweWorkData panel1), Inl [client_of ''b'' True, client_of ''a'' False], Inr []] panel1)) = Inr v
    \<and> numIdle v = 1 \<and> numBusy v = 1"
proof -
  let ?es = "[Inr (aweWorkData panel1), Inl [client_of ''b'' True, client_of ''a'' False], Inr []]"
  have "(case snd (got_work phost1 [] (poll_run (got_clients ''ip'') (got_work phost1) ?es panel1)) of Inl e \<Rightarrow> False | Inr v \<Rightarrow> True)"
    by code_simp
  then obtain v where r: "snd (got_work phost1 [] (poll_run (got_clients ''ip'') (got_work phost1) ?es panel1)) = Inr v"
    by (auto split: sum.splits)
  moreover have "with_status ''info'' [client_of ''b'' True, client_of ''a'' False] = 1"
    "with_status ''success'' [client_of ''b'' True, client_of ''a'' False] = 1" by code_simp+
  ultimately show ?thesis using panel_polled [OF _ r] by simp
qed

end
