(* ===== verification/Top.thy ===== *)
theory Top
  imports Js_Values Js_Objects Js_Sort
begin

text \<open>
  The list of running work (widgets/widget.awe_top.js): the checked-out workunits, gathered by job,
  project, user or task, with the machines, cores and input sizes of each group. Numbers of cores and
  sizes are integers below \<open>2 ^ 53\<close>, where sums are exact; the usage is computed in doubles. An id of a client that
  is the name of an inherited property is not covered. \<^verbatim>\<open>Retina.propSort\<close>, \<^verbatim>\<open>Retina.keys\<close> and the number formats
  are functions of the Retina library, fields of \<^verbatim>\<open>thost\<close>.
\<close>

record twork =
  tw_wuid :: jsval
  tw_task :: jsval
  tw_pipeline :: jsval
  tw_submission :: jsval
  tw_processing :: jsval
  tw_project :: jsval
  tw_user :: jsval
  tw_job :: jsval
  tw_inputs :: "int list"
  tw_client :: "string option"

record tclient =
  tc_id :: string
  tc_cores :: int

record trow =
  r_workunit :: jsval
  r_task :: jsval
  r_pipeline :: jsval
  r_submission :: jsval
  r_processing :: jsval
  r_project :: jsval
  r_user :: jsval
  r_job :: jsval
  r_size :: int
  r_cores :: int
  r_usage :: jsnum
  r_machines :: int

record thost =
  prop_sort :: "string \<Rightarrow> bool \<Rightarrow> trow \<Rightarrow> trow \<Rightarrow> int"
  byte_size :: "int \<Rightarrow> string"
  format3 :: "jsnum \<Rightarrow> string"
  key_list :: "string list \<Rightarrow> string list"

record top =
  top_clients :: "tclient list"
  top_work :: "twork list"
  gp :: "string option"
  tabletype :: "string option"
  sortattribute :: string
  sortdir :: string

definition init_top :: top where
  "init_top = \<lparr>top_clients = [], top_work = [], gp = None, tabletype = None, sortattribute = ''size'', sortdir = ''asc''\<rparr>"

section \<open>Numbers\<close>

definition int_div :: "int \<Rightarrow> int \<Rightarrow> jsnum" where
  "int_div a b =
     (if b = 0 then (if a = 0 then JNaN else if a > 0 then JInf else JNegInf) else double (of_int a / of_int b))"

definition times100 :: "jsnum \<Rightarrow> jsnum" where
  "times100 x = (case x of Fin q \<Rightarrow> double (q * 100) | _ \<Rightarrow> x)"

definition usage :: "int \<Rightarrow> int \<Rightarrow> jsnum" where
  "usage cores tot = times100 (int_div cores tot)"

section \<open>Gathering\<close>

definition client_table :: "tclient list \<Rightarrow> tclient props" where
  "client_table cs = foldl (\<lambda>m c. oput m (tc_id c) c) [] cs"

definition totalCores :: "tclient list \<Rightarrow> int" where
  "totalCores cs = foldl (\<lambda>s c. s + tc_cores c) 0 cs"

definition input_size :: "twork \<Rightarrow> int" where
  "input_size d = foldl (\<lambda>s x. s + x) 0 (tw_inputs d)"

definition group_of :: "string \<Rightarrow> string \<Rightarrow> twork \<Rightarrow> jsval" where
  "group_of type gr d =
     (if type = ''task'' then tw_task d
      else if gr = ''project'' then tw_project d else if gr = ''user'' then tw_user d else tw_job d)"

definition has_client :: "twork \<Rightarrow> bool" where
  "has_client d \<longleftrightarrow> tw_client d \<noteq> None \<and> tw_client d \<noteq> Some []"

definition client_cores :: "tclient props \<Rightarrow> twork \<Rightarrow> int js" where
  "client_cores cl d =
     (case tw_client d of None \<Rightarrow> throw TypeError
      | Some c \<Rightarrow> (case oget cl c of None \<Rightarrow> throw TypeError | Some t \<Rightarrow> ok (tc_cores t)))"

definition new_row :: "twork \<Rightarrow> int \<Rightarrow> int \<Rightarrow> trow" where
  "new_row d cores tot =
     \<lparr>r_workunit = tw_wuid d, r_task = tw_task d, r_pipeline = tw_pipeline d, r_submission = tw_submission d,
      r_processing = tw_processing d, r_project = tw_project d, r_user = tw_user d, r_job = tw_job d,
      r_size = input_size d, r_cores = cores, r_usage = usage cores tot, r_machines = 1\<rparr>"

definition add_to_row :: "twork \<Rightarrow> int \<Rightarrow> int \<Rightarrow> trow \<Rightarrow> trow" where
  "add_to_row d cores tot r =
     r\<lparr>r_machines := r_machines r + 1, r_cores := r_cores r + cores, r_usage := usage (r_cores r + cores) tot,
       r_size := r_size r + input_size d\<rparr>"

definition gather_step :: "string \<Rightarrow> string \<Rightarrow> tclient props \<Rightarrow> int \<Rightarrow> trow props \<Rightarrow> twork \<Rightarrow> trow props js" where
  "gather_step type gr cl tot m d =
     (if \<not> has_client d then ok m
      else let k = to_string (group_of type gr d)
           in jbind (client_cores cl d) (\<lambda>cores.
                ok (oput m k (case oget m k of Some r \<Rightarrow> add_to_row d cores tot r | None \<Rightarrow> new_row d cores tot))))"

definition gather :: "string \<Rightarrow> string \<Rightarrow> tclient list \<Rightarrow> twork list \<Rightarrow> trow props js" where
  "gather type gr cs ws = js_foldM (gather_step type gr (client_table cs) (totalCores cs)) [] ws"

section \<open>Display\<close>

definition columns :: "string \<Rightarrow> string list" where
  "columns type =
     (if type = ''task'' then [''task'', ''pipeline'', ''size'', ''cores'', ''machines'', ''usage'']
      else if type = ''workunit'' then [''workunit'', ''task'', ''pipeline'', ''size'', ''cores'', ''machines'', ''usage'']
      else if type = ''job''
      then [''job'', ''project'', ''user'', ''pipeline'', ''size'', ''cores'', ''machines'', ''usage'', ''submission'', ''processing'']
      else [])"

definition top_cell :: "thost \<Rightarrow> trow \<Rightarrow> string \<Rightarrow> string" where
  "top_cell h r k =
     (if k = ''size'' then byte_size h (r_size r)
      else if k = ''usage'' then format3 h (r_usage r) @ ''%''
      else if k = ''cores'' then int_to_string (r_cores r) else if k = ''machines'' then int_to_string (r_machines r)
      else if k = ''workunit'' then to_string (r_workunit r) else if k = ''task'' then to_string (r_task r)
      else if k = ''pipeline'' then to_string (r_pipeline r) else if k = ''submission'' then to_string (r_submission r)
      else if k = ''processing'' then to_string (r_processing r) else if k = ''project'' then to_string (r_project r)
      else if k = ''user'' then to_string (r_user r) else if k = ''job'' then to_string (r_job r) else ''undefined'')"

record tview =
  tv_type :: string
  tv_gp :: string
  tv_columns :: "string list"
  tv_rows :: "trow list"
  tv_body :: "string list list"
  tv_groupby :: bool

definition or_text :: "string option \<Rightarrow> string \<Rightarrow> string" where
  "or_text s d = (case s of None \<Rightarrow> d | Some w \<Rightarrow> if w = [] then d else w)"

definition pick :: "string option \<Rightarrow> string option \<Rightarrow> string option" where
  "pick new old = (case new of None \<Rightarrow> old | Some w \<Rightarrow> if w = [] then old else new)"

text \<open>\<^verbatim>\<open>selected\<close> is the value of the grouping list of the page shown before, if there is one.\<close>

definition showAWEDetails :: "thost \<Rightarrow> string option \<Rightarrow> string option \<Rightarrow> string option \<Rightarrow> top \<Rightarrow> (top \<times> tview) js" where
  "showAWEDetails h selected newgp newtype s =
     (let s1 = s\<lparr>gp := pick newgp (gp s), tabletype := pick newtype (tabletype s)\<rparr>;
          g = or_text (gp s1) ''job''; type = or_text (tabletype s1) ''job'';
          gr = (case selected of None \<Rightarrow> ''job'' | Some v \<Rightarrow> v)
      in jbind (gather type gr (top_clients s) (top_work s)) (\<lambda>m.
           let rows = js_sort (prop_sort h (sortattribute s) (sortdir s = ''asc'')) (List.map_filter (oget m) (key_list h (okeys m)))
           in ok (s1, \<lparr>tv_type = type, tv_gp = g, tv_columns = columns type, tv_rows = rows,
                       tv_body = map (\<lambda>r. map (top_cell h r) (columns type)) rows, tv_groupby = (type \<noteq> ''task'' \<and> type \<noteq> ''workunit'')\<rparr>)))"

definition set_sort :: "string \<Rightarrow> top \<Rightarrow> top" where
  "set_sort field s =
     (if field = sortattribute s then s\<lparr>sortdir := (if sortdir s = ''asc'' then ''desc'' else ''asc'')\<rparr>
      else s\<lparr>sortattribute := field\<rparr>)"

definition setSort :: "thost \<Rightarrow> string option \<Rightarrow> string \<Rightarrow> top \<Rightarrow> (top \<times> tview) js" where
  "setSort h selected field s = showAWEDetails h selected None None (set_sort field s)"

text \<open>The buttons of the table types set the sort column without changing the direction.\<close>

definition type_button :: "thost \<Rightarrow> string option \<Rightarrow> string \<Rightarrow> top \<Rightarrow> (top \<times> tview) js" where
  "type_button h selected type s = showAWEDetails h selected None (Some type) (s\<lparr>sortattribute := type\<rparr>)"

section \<open>Refreshing\<close>

text \<open>As in the panel: the delay of the next call, the two requests of a round and the handlers of their answers. A
  display that fails leaves the settings as they are.\<close>

definition refresh_delay :: "jsval option \<Rightarrow> jsval option" where
  "refresh_delay cfg =
     (let has = (cfg \<noteq> None)
      in if \<not> (has \<and> loose_eq (Bool has) (Num (Fin 0)))
         then Some (case cfg of None \<Rightarrow> Num (Fin 60000) | Some v \<Rightarrow> if truthy v then v else Num (Fin 60000))
         else None)"

definition getAWEDetails :: "string \<Rightarrow> string \<times> string" where
  "getAWEDetails awe_ip = (''GET'', awe_ip @ ''/client'')"

definition got_clients :: "string \<Rightarrow> tclient list \<Rightarrow> top \<Rightarrow> top \<times> (string \<times> string)" where
  "got_clients awe_ip cs s = (s\<lparr>top_clients := cs\<rparr>, (''GET'', awe_ip @ ''/work?query&state=checkout&limit=1000''))"

definition got_work :: "thost \<Rightarrow> string option \<Rightarrow> twork list \<Rightarrow> top \<Rightarrow> top \<times> tview js" where
  "got_work h selected ws s =
     (let s1 = s\<lparr>top_work := ws\<rparr>
      in case showAWEDetails h selected None None s1 of Inr (s2, v) \<Rightarrow> (s2, ok v) | Inl e \<Rightarrow> (s1, throw e))"

definition display :: "string \<Rightarrow> bool \<Rightarrow> bool \<Rightarrow> (string \<times> string) list \<times> bool" where
  "display awe_ip authentication loggedIn =
     (if \<not> authentication \<or> loggedIn then ([(''GET'', awe_ip), getAWEDetails awe_ip], True) else ([(''GET'', awe_ip)], False))"

end
