(* ===== verification/Top_Correct.thy ===== *)
theory Top_Correct
  imports Top Polling
begin

text \<open>
  Lemmas on the list of running work: the row of a group is the sum of its workunits.
\<close>

section \<open>The rows of the groups\<close>

definition cores_of :: "tclient props \<Rightarrow> twork \<Rightarrow> int" where
  "cores_of cl d = (case client_cores cl d of Inr c \<Rightarrow> c | Inl _ \<Rightarrow> 0)"

definition members :: "string \<Rightarrow> string \<Rightarrow> twork list \<Rightarrow> string \<Rightarrow> twork list" where
  "members type gr ws k = filter (\<lambda>d. to_string (group_of type gr d) = k) (filter has_client ws)"

text \<open>The meaning of a row: the description of the first workunit of the group, and the sums over all.\<close>

definition group_row :: "tclient props \<Rightarrow> int \<Rightarrow> twork list \<Rightarrow> trow" where
  "group_row cl tot xs =
     (let cores = sum_list (map (cores_of cl) xs)
      in (new_row (hd xs) cores tot)\<lparr>r_machines := int (length xs), r_size := sum_list (map input_size xs)\<rparr>)"

lemma gather_step_returns:
  "gather_step type gr cl tot m d = Inr m' \<Longrightarrow>
     m' = (if has_client d
           then oput m (to_string (group_of type gr d))
             (case oget m (to_string (group_of type gr d)) of
                Some r \<Rightarrow> add_to_row d (cores_of cl d) tot r | None \<Rightarrow> new_row d (cores_of cl d) tot)
           else m)"
  by (auto simp: gather_step_def Let_def jbind_Inr_iff cores_of_def split: if_splits option.splits)

lemma group_row_single: "group_row cl tot [d] = new_row d (cores_of cl d) tot"
  by (simp add: group_row_def new_row_def Let_def)

lemma group_row_snoc: "xs \<noteq> [] \<Longrightarrow> group_row cl tot (xs @ [d]) = add_to_row d (cores_of cl d) tot (group_row cl tot xs)"
  by (simp add: group_row_def new_row_def add_to_row_def Let_def)

lemma members_snoc:
  "members type gr (ws @ [d]) k = members type gr ws k @ (if has_client d \<and> to_string (group_of type gr d) = k then [d] else [])"
  by (simp add: members_def)

lemma fold_get:
  "js_foldM (gather_step type gr cl tot) [] ws = Inr m \<Longrightarrow>
     oget m k = (if members type gr ws k = [] then None else Some (group_row cl tot (members type gr ws k)))"
proof (induction ws arbitrary: m k rule: rev_induct)
  case Nil
  then show ?case by (simp add: members_def)
next
  case (snoc d ws)
  then obtain m1 where m1: "js_foldM (gather_step type gr cl tot) [] ws = Inr m1" "gather_step type gr cl tot m1 d = Inr m"
    by (auto simp: js_foldM_append jbind_Inr_iff)
  note IH = snoc.IH [OF m1(1)]
  show ?case
    unfolding gather_step_returns [OF m1(2)] members_snoc
    by (auto simp: oget_oput IH group_row_single group_row_snoc)
qed

lemma fold_owf: "js_foldM (gather_step type gr cl tot) m ws = Inr m' \<Longrightarrow> owf m \<Longrightarrow> owf m'"
proof (induction ws arbitrary: m)
  case (Cons d ws)
  then obtain m1 where "gather_step type gr cl tot m d = Inr m1" "js_foldM (gather_step type gr cl tot) m1 ws = Inr m'"
    by (auto simp: jbind_Inr_iff)
  moreover from this(1) have "owf m1" using gather_step_returns Cons.prems(2) owf_oput by (metis (full_types))
  ultimately show ?case using Cons.IH by blast
qed simp

lemma gather_keys:
  assumes "gather type gr cs ws = Inr m"
  shows "distinct (okeys m)" "set (okeys m) = (\<lambda>d. to_string (group_of type gr d)) ` set (filter has_client ws)"
    and "k \<in> set (okeys m) \<Longrightarrow> oget m k = Some (group_row (client_table cs) (totalCores cs) (members type gr ws k))"
proof -
  have f: "js_foldM (gather_step type gr (client_table cs) (totalCores cs)) [] ws = Inr m" using assms by (simp add: gather_def)
  show "distinct (okeys m)" using fold_owf [OF f] by (intro distinct_okeys) simp
  note g = fold_get [OF f]
  show "set (okeys m) = (\<lambda>d. to_string (group_of type gr d)) ` set (filter has_client ws)"
    by (auto simp: set_okeys g members_def filter_empty_conv)
  show "k \<in> set (okeys m) \<Longrightarrow> oget m k = Some (group_row (client_table cs) (totalCores cs) (members type gr ws k))"
    by (auto simp: set_okeys g split: if_splits)
qed

lemma gather_rows:
  assumes "gather type gr cs ws = Inr m"
  shows "List.map_filter (oget m) (okeys m)
    = map (\<lambda>k. group_row (client_table cs) (totalCores cs) (members type gr ws k)) (okeys m)"
proof -
  have "List.map_filter (oget m) ks = map (\<lambda>k. group_row (client_table cs) (totalCores cs) (members type gr ws k)) ks"
    if "set ks \<subseteq> set (okeys m)" for ks
    using that by (induction ks) (auto simp: List.map_filter_simps gather_keys(3) [OF assms])
  then show ?thesis by blast
qed

section \<open>Sums\<close>

lemma sum_list_mset: "mset xs = mset ys \<Longrightarrow> sum_list (map f xs) = (sum_list (map f ys) :: int)"
  by (metis mset_map sum_mset_sum_list)

lemma sum_list_concat_map: "sum_list (map f (concat xss)) = (\<Sum>xs\<leftarrow>xss. sum_list (map f xs) :: int)"
  by (induction xss) simp_all

text \<open>A sum over the groups is the sum over their workunits.\<close>

lemma group_sums:
  assumes "gather type gr cs ws = Inr m"
  shows "(\<Sum>k\<leftarrow>okeys m. sum_list (map f (members type gr ws k))) = (sum_list (map f (filter has_client ws)) :: int)"
proof -
  have "mset (concat (map (members type gr ws) (okeys m))) = mset (filter has_client ws)"
    unfolding members_def using gather_keys(1,2) [OF assms] by (intro partition_mset) auto
  from sum_list_mset [OF this, of f] show ?thesis by (simp add: sum_list_concat_map comp_def)
qed

section \<open>Errors\<close>

definition unknown_client :: "tclient list \<Rightarrow> twork list \<Rightarrow> bool" where
  "unknown_client cs ws \<longleftrightarrow>
     (\<exists>d\<in>set ws. has_client d \<and> oget (client_table cs) (case tw_client d of None \<Rightarrow> [] | Some c \<Rightarrow> c) = None)"

lemma gather_step_error: "gather_step type gr cl tot m d = Inl e \<Longrightarrow> e = TypeError"
  by (auto simp: gather_step_def client_cores_def Let_def jbind_def split: if_splits sum.splits option.splits)

lemma gather_unknown:
  assumes "d \<in> set ws" "has_client d" "tw_client d = Some c" "oget (client_table cs) c = None"
  shows "gather type gr cs ws = Inl TypeError"
proof -
  have step: "gather_step type gr (client_table cs) tot m d = Inl TypeError" for tot m
    using assms(2-4) by (simp add: gather_step_def client_cores_def Let_def)
  have "js_foldM (gather_step type gr (client_table cs) tot) m ws = Inl TypeError" for tot m
    using assms(1)
  proof (induction ws arbitrary: m)
    case (Cons x xs)
    show ?case
    proof (cases "gather_step type gr (client_table cs) tot m x")
      case (Inl e)
      then show ?thesis using gather_step_error [OF Inl] by simp
    next
      case (Inr m1)
      then have "d \<in> set xs" using Cons.prems step [of tot m] by auto
      then show ?thesis using Inr Cons.IH by simp
    qed
  qed simp
  then show ?thesis by (simp add: gather_def)
qed

lemma gather_returns:
  assumes "\<And>d c. d \<in> set ws \<Longrightarrow> tw_client d = Some c \<Longrightarrow> c \<noteq> [] \<Longrightarrow> oget (client_table cs) c \<noteq> None"
  shows "\<exists>m. gather type gr cs ws = Inr m"
proof -
  have step: "\<exists>m'. gather_step type gr (client_table cs) tot m d = Inr m'" if "d \<in> set ws" for tot m d
    using assms [OF that] by (auto simp: gather_step_def has_client_def client_cores_def Let_def)
  have "\<exists>m'. js_foldM (gather_step type gr (client_table cs) tot) m us = Inr m'" if "set us \<subseteq> set ws" for tot m us
    using that
  proof (induction us arbitrary: m)
    case (Cons d us)
    then obtain m1 where "gather_step type gr (client_table cs) tot m d = Inr m1" using step by (metis list.set_intros(1) subsetD)
    then show ?case using Cons by simp
  qed simp
  then show ?thesis by (simp add: gather_def)
qed

section \<open>Polling\<close>

lemma showAWEDetails_data:
  assumes "showAWEDetails h sel g' t' s = Inr (s', v)"
  shows "top_clients s' = top_clients s" "top_work s' = top_work s"
  using assms by (auto simp: showAWEDetails_def Let_def jbind_Inr_iff)

lemma got_work_data: "top_clients (fst (got_work h sel ws s)) = top_clients s"
proof (cases "showAWEDetails h sel None None (s\<lparr>top_work := ws\<rparr>)")
  case (Inl e)
  then show ?thesis by (simp add: got_work_def)
next
  case (Inr r)
  obtain s' v where "r = (s', v)" by (cases r)
  with Inr showAWEDetails_data(1) [of h sel None None "s\<lparr>top_work := ws\<rparr>" s' v] show ?thesis by (simp add: got_work_def)
qed

interpretation top_poll: polling "got_clients ip" "got_work h sel" top_clients "\<lambda>cs. cs" for ip h sel
  by unfold_locales (simp_all add: got_work_data, simp add: got_clients_def)

end
