(* ===== verification/Top_Props.thy ===== *)
theory Top_Props
  imports Top_Correct
begin

text \<open>
  The properties of the list of running work. The documented behaviour of \<^verbatim>\<open>Retina.keys\<close> is the hypothesis that it
  returns the names of the own properties.
\<close>

lemma showAWEDetails_rows:
  assumes "showAWEDetails h sel g' t' s = Inr (s', v)" "key_list h = (\<lambda>ks. ks)"
  defines "type \<equiv> or_text (pick t' (tabletype s)) ''job''" and "gr \<equiv> (case sel of None \<Rightarrow> ''job'' | Some x \<Rightarrow> x)"
  obtains m where "gather type gr (top_clients s) (top_work s) = Inr m"
    "mset (tv_rows v) = mset (map (\<lambda>k. group_row (client_table (top_clients s)) (totalCores (top_clients s)) (members type gr (top_work s) k)) (okeys m))"
    "tv_body v = map (\<lambda>r. map (top_cell h r) (columns type)) (tv_rows v)"
proof -
  obtain m where m: "gather type gr (top_clients s) (top_work s) = Inr m"
    "tv_rows v = js_sort (prop_sort h (sortattribute s) (sortdir s = ''asc'')) (List.map_filter (oget m) (okeys m))"
    "tv_body v = map (\<lambda>r. map (top_cell h r) (columns type)) (tv_rows v)"
    using assms(1) by (auto simp: showAWEDetails_def Let_def jbind_Inr_iff assms(2) type_def gr_def)
  show thesis using m gather_rows [OF m(1)] by (intro that [of m]) simp_all
qed

lemma shown_sums:
  assumes "showAWEDetails h sel g' t' s = Inr (s', v)" "key_list h = (\<lambda>ks. ks)"
  shows "sum_list (map r_machines (tv_rows v)) = int (length (filter has_client (top_work s)))
    \<and> sum_list (map r_cores (tv_rows v)) = sum_list (map (cores_of (client_table (top_clients s))) (filter has_client (top_work s)))
    \<and> sum_list (map r_size (tv_rows v)) = sum_list (map input_size (filter has_client (top_work s)))"
proof -
  let ?type = "or_text (pick t' (tabletype s)) ''job''" and ?gr = "case sel of None \<Rightarrow> ''job'' | Some x \<Rightarrow> x"
  let ?row = "\<lambda>k. group_row (client_table (top_clients s)) (totalCores (top_clients s)) (members ?type ?gr (top_work s) k)"
  obtain m where m: "gather ?type ?gr (top_clients s) (top_work s) = Inr m" "mset (tv_rows v) = mset (map ?row (okeys m))"
    using showAWEDetails_rows [OF assms] by metis
  have sums: "sum_list (map f (tv_rows v)) = (\<Sum>k\<leftarrow>okeys m. f (?row k))" for f :: "trow \<Rightarrow> int"
    using sum_list_mset [OF m(2), of f] by (simp add: comp_def)
  have one: "int (length xs) = sum_list (map (\<lambda>_. 1) xs)" for xs :: "twork list" by (induction xs) simp_all
  have row: "r_machines (?row k) = sum_list (map (\<lambda>_. 1) (members ?type ?gr (top_work s) k))"
    "r_cores (?row k) = sum_list (map (cores_of (client_table (top_clients s))) (members ?type ?gr (top_work s) k))"
    "r_size (?row k) = sum_list (map input_size (members ?type ?gr (top_work s) k))" for k
    by (simp_all add: group_row_def new_row_def Let_def one [symmetric])
  show ?thesis unfolding sums row group_sums [OF m(1)] by (simp add: one)
qed


text \<open>C24: The list has one row for each group of workunits that have a client, with the number of machines, the cores and
  the input sizes added up over the group and the share of all cores computed from that sum.\<close>

theorem top_rows_groups:
  assumes "showAWEDetails h sel g' t' s = Inr (s', v)" "key_list h = (\<lambda>ks. ks)"
  defines "type \<equiv> or_text (pick t' (tabletype s)) ''job''" and "gr \<equiv> (case sel of None \<Rightarrow> ''job'' | Some x \<Rightarrow> x)"
  shows "\<exists>ks. distinct ks \<and> set ks = (\<lambda>d. to_string (group_of type gr d)) ` set (filter has_client (top_work s))
    \<and> mset (tv_rows v) = mset (map (\<lambda>k. group_row (client_table (top_clients s)) (totalCores (top_clients s)) (members type gr (top_work s) k)) ks)"
proof -
  obtain m where m: "gather type gr (top_clients s) (top_work s) = Inr m"
    "mset (tv_rows v) = mset (map (\<lambda>k. group_row (client_table (top_clients s)) (totalCores (top_clients s)) (members type gr (top_work s) k)) (okeys m))"
    using showAWEDetails_rows [OF assms(1,2)] unfolding type_def gr_def by metis
  show ?thesis using gather_keys(1,2) [OF m(1)] m(2) by blast
qed

text \<open>C6: Whatever the grouping, the machines of all rows are the workunits with a client, and the cores and sizes add up to
  those of these workunits: nothing is lost or counted twice.\<close>

theorem top_conserves:
  assumes "showAWEDetails h sel g' t' s = Inr (s', v)" "key_list h = (\<lambda>ks. ks)"
  shows "sum_list (map r_machines (tv_rows v)) = int (length (filter has_client (top_work s)))
    \<and> sum_list (map r_cores (tv_rows v)) = sum_list (map (cores_of (client_table (top_clients s))) (filter has_client (top_work s)))
    \<and> sum_list (map r_size (tv_rows v)) = sum_list (map input_size (filter has_client (top_work s)))"
  using assms by (rule shown_sums)


text \<open>The view of the workunits is gathered by job as well: it has as many rows as there are jobs, however many
  workunits run.\<close>

theorem workunit_view_by_job:
  assumes "showAWEDetails h None g' (Some ''workunit'') s = Inr (s', v)" "key_list h = (\<lambda>ks. ks)"
  shows "length (tv_body v) = card ((\<lambda>d. to_string (tw_job d)) ` set (filter has_client (top_work s)))"
proof -
  obtain m where m: "gather ''workunit'' ''job'' (top_clients s) (top_work s) = Inr m"
    "mset (tv_rows v) = mset (map (\<lambda>k. group_row (client_table (top_clients s)) (totalCores (top_clients s)) (members ''workunit'' ''job'' (top_work s) k)) (okeys m))"
    "tv_body v = map (\<lambda>r. map (top_cell h r) (columns ''workunit'')) (tv_rows v)"
    using showAWEDetails_rows [OF assms] by (auto simp: or_text_def pick_def)
  have "length (tv_rows v) = length (okeys m)" using arg_cong [OF m(2), of size] by simp
  moreover have "length (okeys m) = card (set (okeys m))" using gather_keys(1) [OF m(1)] by (simp add: distinct_card)
  ultimately show ?thesis using gather_keys(2) [OF m(1)] m(3) by (simp add: group_of_def)
qed

definition work_of :: "string \<Rightarrow> string \<Rightarrow> twork" where
  "work_of w c = \<lparr>tw_wuid = Str w, tw_task = Str ''bowtie'', tw_pipeline = Str ''qc'', tw_submission = Null, tw_processing = Null,
     tw_project = Str ''p'', tw_user = Str ''u'', tw_job = Str ''job1'', tw_inputs = [3, 4], tw_client = Some c\<rparr>"

definition top1 :: top where
  "top1 = init_top\<lparr>top_clients := [\<lparr>tc_id = ''a'', tc_cores = 8\<rparr>], top_work := [work_of ''w1'' ''a'', work_of ''w2'' ''a'']\<rparr>"

definition thost1 :: thost where
  "thost1 = \<lparr>prop_sort = (\<lambda>_ _ a b. r_size a - r_size b), byte_size = int_to_string, format3 = num_to_string, key_list = (\<lambda>ks. ks)\<rparr>"

lemma top1_shown: "\<exists>s' v. showAWEDetails thost1 None None (Some ''workunit'') top1 = Inr (s', v)"
proof -
  have "\<exists>m. gather ''workunit'' ''job'' (top_clients top1) (top_work top1) = Inr m"
    by (rule gather_returns) (auto simp: top1_def work_of_def client_table_def oget_def)
  then show ?thesis by (auto simp: showAWEDetails_def Let_def or_text_def pick_def)
qed

theorem top_rows_groups_witness:
  "\<exists>s' v (ks :: string list). showAWEDetails thost1 None None (Some ''workunit'') top1 = Inr (s', v) \<and> distinct ks \<and> size (mset (tv_rows v)) = length ks"
proof -
  have keys: "key_list thost1 = (\<lambda>ks. ks)" by (simp add: thost1_def)
  obtain s' v where r: "showAWEDetails thost1 None None (Some ''workunit'') top1 = Inr (s', v)" using top1_shown by blast
  from top_rows_groups [OF r keys] obtain ks where d: "distinct ks" and rows: "mset (tv_rows v) = mset (map (\<lambda>k. group_row (client_table (top_clients top1)) (totalCores (top_clients top1))
      (members (or_text (pick (Some ''workunit'') (tabletype top1)) ''job'') (case None of None \<Rightarrow> ''job'' | Some x \<Rightarrow> x) (top_work top1) k)) ks)"
    by blast
  have "size (mset (tv_rows v)) = length ks" unfolding rows by simp
  with r d show ?thesis by blast
qed

theorem top_conserves_witness:
  "\<exists>s' v. showAWEDetails thost1 None None (Some ''workunit'') top1 = Inr (s', v) \<and> sum_list (map r_machines (tv_rows v)) = 2"
proof -
  obtain s' v where r: "showAWEDetails thost1 None None (Some ''workunit'') top1 = Inr (s', v)" using top1_shown by blast
  with top_conserves [OF this] show ?thesis by (auto simp: thost1_def top1_def work_of_def has_client_def)
qed

theorem workunit_view_by_job_witness:
  "\<exists>s' v. showAWEDetails thost1 None None (Some ''workunit'') top1 = Inr (s', v) \<and> length (tv_body v) = 1 \<and> length (top_work top1) = 2"
proof -
  obtain s' v where r: "showAWEDetails thost1 None None (Some ''workunit'') top1 = Inr (s', v)" using top1_shown by blast
  with workunit_view_by_job [OF this] show ?thesis by (auto simp: thost1_def top1_def work_of_def has_client_def)
qed



end
