(* ===== verification/Clientgroups.thy ===== *)
theory Clientgroups
  imports Js_Values Js_Objects
begin

text \<open>
  The management of client groups (widgets/widget.awe_clientgroups.js): the list of the groups, the details of one group
  with its permissions, and the requests for new groups and tokens. The page is what is in the elements with the ids
  \<^verbatim>\<open>cgroup-content\<close>, \<^verbatim>\<open>clientgroupDetails\<close> and \<^verbatim>\<open>clientgroupPermissions\<close>: the details are part of the content and the
  permissions part of the details, so writing an outer element removes the inner ones. Every request that was sent and
  not answered is in \<^verbatim>\<open>open_calls\<close>; the answers come in any order. \<^verbatim>\<open>cg_errors\<close> counts the handlers that threw a
  TypeError. \<^verbatim>\<open>Date.parse\<close> is a parameter, as are the current time and \<^verbatim>\<open>JSON.stringify\<close>.
\<close>

record cgroup =
  cg_id :: string
  cg_name :: jsval
  ip_cidr :: jsval
  created_on :: jsval
  last_modified :: jsval
  expiration :: string
  cg_token :: jsval

datatype cg_state = Active | Expired

record cg_row =
  line_cells :: "jsval list"
  row_button :: string
  row_status :: cg_state

datatype perms = Loading | Unavailable | Permissions string

record cg_details =
  det_name :: jsval
  det_buttons :: "(string \<times> string) list"
  det_status :: cg_state
  det_cells :: "(string \<times> jsval) list"
  det_perms :: perms

record cg_content =
  cg_rows :: "cg_row list"
  cg_open :: "cg_details option"

datatype cg_call = ListGroups | Create | Acl | UpdateToken

record cgw =
  groups_store :: "cgroup props"
  cg_page :: "cg_content option"
  cg_sent :: "(string \<times> string) list"
  open_calls :: "cg_call list"
  cg_alerts :: "string list"
  cg_errors :: nat

definition init_cgw :: cgw where
  "init_cgw = \<lparr>groups_store = [], cg_page = None, cg_sent = [], open_calls = [], cg_alerts = [], cg_errors = 0\<rparr>"

definition cg_send :: "string \<Rightarrow> string \<Rightarrow> cg_call \<Rightarrow> cgw \<Rightarrow> cgw" where
  "cg_send meth url c w = w\<lparr>cg_sent := cg_sent w @ [(meth, url)], open_calls := open_calls w @ [c]\<rparr>"

definition cg_throw :: "cgw \<Rightarrow> cgw" where
  "cg_throw w = w\<lparr>cg_errors := cg_errors w + 1\<rparr>"

definition cg_alert :: "string \<Rightarrow> cgw \<Rightarrow> cgw" where
  "cg_alert txt w = w\<lparr>cg_alerts := cg_alerts w @ [txt]\<rparr>"

section \<open>Requests\<close>

definition showClientgroups :: "string \<Rightarrow> cgw \<Rightarrow> cgw" where
  "showClientgroups awe_ip = cg_send ''GET'' (awe_ip @ ''/cgroup?limit=1000'') ListGroups"

text \<open>\<^verbatim>\<open>display\<close> of a user who is not logged in shows no content element. Its request for the title of the server has no
  effect on the rest of the page.\<close>

definition display :: "string \<Rightarrow> bool \<Rightarrow> cgw \<Rightarrow> cgw" where
  "display awe_ip authorized w =
     (if authorized then showClientgroups awe_ip (w\<lparr>cg_page := Some \<lparr>cg_rows = [], cg_open = None\<rparr>\<rparr>)
      else w\<lparr>cg_page := None\<rparr>)"

definition requestClientgroup :: "string \<Rightarrow> string \<Rightarrow> cgw \<Rightarrow> cgw" where
  "requestClientgroup awe_ip name = cg_send ''POST'' (awe_ip @ ''/cgroup/'' @ name) Create"

definition clientgroupUpdateToken :: "string \<Rightarrow> string \<Rightarrow> string \<Rightarrow> cgw \<Rightarrow> cgw" where
  "clientgroupUpdateToken awe_ip gid func =
     cg_send (if func = ''delete'' then ''DELETE'' else ''PUT'') (awe_ip @ ''/cgroup/'' @ gid @ ''/token'') UpdateToken"

section \<open>Rendering\<close>

text \<open>A comparison with NaN, the value of a date that cannot be read, is false.\<close>

definition cg_status :: "(string \<Rightarrow> jsint) \<Rightarrow> int \<Rightarrow> cgroup \<Rightarrow> cg_state" where
  "cg_status date_parse now g =
     (case date_parse (expiration g) of None \<Rightarrow> Active | Some t \<Rightarrow> if t \<le> now then Expired else Active)"

definition group_line :: "(string \<Rightarrow> jsint) \<Rightarrow> int \<Rightarrow> cgroup \<Rightarrow> cg_row" where
  "group_line date_parse now g =
     \<lparr>line_cells = [cg_name g, ip_cidr g, created_on g, last_modified g, Str (expiration g)], row_button = cg_id g,
      row_status = cg_status date_parse now g\<rparr>"

definition renderClientgroups :: "(string \<Rightarrow> jsint) \<Rightarrow> int \<Rightarrow> cgroup list \<Rightarrow> cgw \<Rightarrow> cgw" where
  "renderClientgroups date_parse now gs w =
     (if cg_page w = None then cg_throw w
      else w\<lparr>cg_page := Some \<lparr>cg_rows = map (group_line date_parse now) gs, cg_open = None\<rparr>\<rparr>)"

definition details_of :: "(string \<Rightarrow> jsint) \<Rightarrow> int \<Rightarrow> string \<Rightarrow> cgroup \<Rightarrow> cg_details" where
  "details_of date_parse now gid g =
     \<lparr>det_name = cg_name g, det_buttons = [(gid, ''delete''), (gid, ''new'')], det_status = cg_status date_parse now g,
      det_cells = [(''created'', created_on g), (''modified'', last_modified g), (''expires'', Str (expiration g)),
                   (''ID'', Str (cg_id g)), (''token'', cg_token g)],
      det_perms = Loading\<rparr>"

text \<open>The request for the permissions is sent before the details are written.\<close>

definition clientgroupDetails :: "(string \<Rightarrow> jsint) \<Rightarrow> int \<Rightarrow> string \<Rightarrow> string \<Rightarrow> cgw \<Rightarrow> cgw" where
  "clientgroupDetails date_parse now awe_ip gid w =
     (case oget (groups_store w) gid of None \<Rightarrow> cg_throw w
      | Some g \<Rightarrow>
          let w1 = cg_send ''GET'' (awe_ip @ ''/cgroup/'' @ cg_id g @ ''/acl'') Acl w
          in case cg_page w1 of None \<Rightarrow> cg_throw w1
             | Some c \<Rightarrow> w1\<lparr>cg_page := Some (c\<lparr>cg_open := Some (details_of date_parse now gid g)\<rparr>)\<rparr>)"

section \<open>Answers\<close>

definition store_groups :: "cgroup list \<Rightarrow> cgroup props" where
  "store_groups gs = foldl (\<lambda>m g. oput m (cg_id g) g) [] gs"

definition list_success :: "(string \<Rightarrow> jsint) \<Rightarrow> int \<Rightarrow> cgroup list \<Rightarrow> cgw \<Rightarrow> cgw" where
  "list_success date_parse now gs w = renderClientgroups date_parse now gs (w\<lparr>groups_store := store_groups gs\<rparr>)"

definition list_error :: "(string \<Rightarrow> jsint) \<Rightarrow> int \<Rightarrow> cgw \<Rightarrow> cgw" where
  "list_error date_parse now w = renderClientgroups date_parse now [] w"

definition set_perms :: "perms \<Rightarrow> cgw \<Rightarrow> cgw" where
  "set_perms x w =
     (case cg_page w of None \<Rightarrow> cg_throw w
      | Some c \<Rightarrow> (case cg_open c of None \<Rightarrow> cg_throw w
          | Some d \<Rightarrow> w\<lparr>cg_page := Some (c\<lparr>cg_open := Some (d\<lparr>det_perms := x\<rparr>)\<rparr>)\<rparr>))"

text \<open>A successful answer: the groups it lists, where it lists groups, and its data as a text.\<close>

datatype cg_answer = Success "cgroup list" string | Failure

fun answer :: "(string \<Rightarrow> jsint) \<Rightarrow> int \<Rightarrow> string \<Rightarrow> cg_call \<Rightarrow> cg_answer \<Rightarrow> cgw \<Rightarrow> cgw" where
  "answer dp now ip ListGroups (Success gs txt) w = list_success dp now gs w"
| "answer dp now ip ListGroups Failure w = list_error dp now w"
| "answer dp now ip Create (Success gs txt) w = showClientgroups ip w"
| "answer dp now ip Create Failure w = cg_alert ''clientgroup creation failed'' w"
| "answer dp now ip Acl (Success gs txt) w = set_perms (Permissions txt) w"
| "answer dp now ip Acl Failure w = set_perms Unavailable w"
| "answer dp now ip UpdateToken (Success gs txt) w = showClientgroups ip w"
| "answer dp now ip UpdateToken Failure w = cg_alert ''the requested function on the token could not be performed'' w"

definition remove_nth :: "nat \<Rightarrow> 'a list \<Rightarrow> 'a list" where
  "remove_nth i xs = take i xs @ drop (Suc i) xs"

definition answered :: "(string \<Rightarrow> jsint) \<Rightarrow> int \<Rightarrow> string \<Rightarrow> nat \<Rightarrow> cg_answer \<Rightarrow> cgw \<Rightarrow> cgw" where
  "answered dp now ip i a w = answer dp now ip (open_calls w ! i) a (w\<lparr>open_calls := remove_nth i (open_calls w)\<rparr>)"

section \<open>Sessions\<close>

text \<open>The user can open the page, ask for a group, press a details button of the list or a token button of the details;
  the server answers the open requests in any order. Time goes on.\<close>

inductive cg_step :: "(string \<Rightarrow> jsint) \<Rightarrow> string \<Rightarrow> cgw \<Rightarrow> cgw \<Rightarrow> bool" for dp ip where
  cg_display: "cg_step dp ip w (display ip auth w)"
| cg_request: "cg_page w \<noteq> None \<Longrightarrow> cg_step dp ip w (requestClientgroup ip name w)"
| cg_details: "cg_page w = Some c \<Longrightarrow> r \<in> set (cg_rows c) \<Longrightarrow> cg_step dp ip w (clientgroupDetails dp now ip (row_button r) w)"
| cg_update: "cg_page w = Some c \<Longrightarrow> cg_open c = Some d \<Longrightarrow> (gid, func) \<in> set (det_buttons d)
    \<Longrightarrow> cg_step dp ip w (clientgroupUpdateToken ip gid func w)"
| cg_server: "i < length (open_calls w) \<Longrightarrow> cg_step dp ip w (answered dp now ip i a w)"

inductive_cases cg_stepE: "cg_step dp ip w w'"

end
