(* ===== verification/Clientgroups_Correct.thy ===== *)
theory Clientgroups_Correct
  imports Clientgroups
begin

text \<open>
  Lemmas on the management of client groups: the stored groups, the invariant that every button of the page names a
  stored group, and which answers throw.
\<close>

section \<open>The store\<close>

lemma store_groups_get: "oget (store_groups gs) k = (if k \<in> cg_id ` set gs then Some (last (filter (\<lambda>g. cg_id g = k) gs)) else None)"
proof (induction gs rule: rev_induct)
  case Nil
  then show ?case by (simp add: store_groups_def)
next
  case (snoc g gs)
  have "store_groups (gs @ [g]) = oput (store_groups gs) (cg_id g) g" by (simp add: store_groups_def)
  then show ?case using snoc by (auto simp: oget_oput)
qed

lemma store_groups_id: "oget (store_groups gs) k = Some g \<Longrightarrow> cg_id g = k \<and> g \<in> set gs"
proof -
  assume a: "oget (store_groups gs) k = Some g"
  then have g: "g = last (filter (\<lambda>g. cg_id g = k) gs)" "k \<in> cg_id ` set gs" by (simp_all add: store_groups_get split: if_splits)
  then have "filter (\<lambda>g. cg_id g = k) gs \<noteq> []" by (auto simp: filter_empty_conv)
  from last_in_set [OF this] g(1) show ?thesis by simp
qed

section \<open>The invariant of a session\<close>

text \<open>Every button on the page names a group of the store, under its own id.\<close>

definition cg_inv :: "cgw \<Rightarrow> bool" where
  "cg_inv w \<longleftrightarrow> (\<forall>k g. oget (groups_store w) k = Some g \<longrightarrow> cg_id g = k)
     \<and> (\<forall>c. cg_page w = Some c \<longrightarrow>
          (\<forall>r \<in> set (cg_rows c). oget (groups_store w) (row_button r) \<noteq> None)
          \<and> (\<forall>d. cg_open c = Some d \<longrightarrow> (\<forall>b \<in> set (det_buttons d). oget (groups_store w) (fst b) \<noteq> None)))"

lemma cg_inv_cong:
  "cg_inv w \<Longrightarrow> groups_store w' = groups_store w \<Longrightarrow> cg_page w' = cg_page w \<Longrightarrow> cg_inv w'"
  by (simp add: cg_inv_def)

lemma cg_inv_init [js_inv]: "cg_inv init_cgw"
  by (simp add: cg_inv_def init_cgw_def)

lemma cg_inv_send [js_inv]: "cg_inv w \<Longrightarrow> cg_inv (cg_send m u c w)"
  by (erule cg_inv_cong) (simp_all add: cg_send_def)

lemma cg_inv_throw [js_inv]: "cg_inv w \<Longrightarrow> cg_inv (cg_throw w)"
  by (erule cg_inv_cong) (simp_all add: cg_throw_def)

lemma cg_inv_alert [js_inv]: "cg_inv w \<Longrightarrow> cg_inv (cg_alert t w)"
  by (erule cg_inv_cong) (simp_all add: cg_alert_def)

lemma cg_inv_display [js_inv]: "cg_inv w \<Longrightarrow> cg_inv (display ip auth w)"
  by (auto simp: display_def showClientgroups_def cg_inv_def cg_send_def)

lemma cg_inv_render_empty [js_inv]: "cg_inv w \<Longrightarrow> cg_inv (renderClientgroups dp now [] w)"
  by (auto simp: renderClientgroups_def cg_inv_throw) (auto simp: cg_inv_def)

lemma cg_inv_list [js_inv]: "cg_inv (list_success dp now gs w)"
proof -
  have ids: "\<forall>k g. oget (store_groups gs) k = Some g \<longrightarrow> cg_id g = k" using store_groups_id by blast
  have rows: "\<forall>r \<in> set (map (group_line dp now) gs). oget (store_groups gs) (row_button r) \<noteq> None"
    by (auto simp: group_line_def store_groups_get)
  show ?thesis
  proof (cases "cg_page w")
    case None
    then show ?thesis using ids by (simp add: list_success_def renderClientgroups_def cg_inv_def cg_throw_def)
  next
    case (Some c)
    then have "list_success dp now gs w
        = w\<lparr>groups_store := store_groups gs, cg_page := Some \<lparr>cg_rows = map (group_line dp now) gs, cg_open = None\<rparr>\<rparr>"
      by (simp add: list_success_def renderClientgroups_def)
    then show ?thesis using ids rows by (simp only: cg_inv_def cgw.simps cg_content.simps option.inject) auto
  qed
qed

lemma cg_inv_perms [js_inv]: "cg_inv w \<Longrightarrow> cg_inv (set_perms x w)"
  by (auto simp: set_perms_def cg_inv_def cg_throw_def split: option.splits)

lemma cg_inv_details [js_inv]: "cg_inv w \<Longrightarrow> cg_inv (clientgroupDetails dp now ip gid w)"
  by (auto simp: clientgroupDetails_def cg_inv_def cg_throw_def cg_send_def Let_def details_of_def split: option.splits)

lemma cg_inv_answer [js_inv]: "cg_inv w \<Longrightarrow> cg_inv (answer dp now ip c a w)"
  by (cases c; cases a) (simp_all add: js_inv showClientgroups_def list_error_def)

lemma cg_inv_answered [js_inv]: "cg_inv w \<Longrightarrow> cg_inv (answered dp now ip i a w)"
  unfolding answered_def by (intro cg_inv_answer) (erule cg_inv_cong, simp_all)

lemma cg_inv_step: "cg_step dp ip w w' \<Longrightarrow> cg_inv w \<Longrightarrow> cg_inv w'"
  by (induction rule: cg_step.induct) (simp_all add: js_inv requestClientgroup_def clientgroupUpdateToken_def)

lemma cg_session_inv:
  assumes "(cg_step dp ip)\<^sup>*\<^sup>* init_cgw w"
  shows "cg_inv w"
  using assms by (induction rule: rtranclp_induct) (auto intro: cg_inv_init cg_inv_step)

section \<open>Errors\<close>

text \<open>An answer whose element is not on the page.\<close>

definition late :: "cgw \<Rightarrow> cg_call \<Rightarrow> bool" where
  "late w c =
     (case c of ListGroups \<Rightarrow> cg_page w = None
      | Acl \<Rightarrow> (case cg_page w of None \<Rightarrow> True | Some p \<Rightarrow> cg_open p = None)
      | _ \<Rightarrow> False)"

lemma answer_errors: "cg_errors (answer dp now ip c a w) = cg_errors w + (if late w c then 1 else 0)"
  by (cases c; cases a)
    (auto simp: late_def list_success_def list_error_def renderClientgroups_def cg_throw_def cg_alert_def showClientgroups_def
      cg_send_def set_perms_def split: option.splits)

lemma answered_errors: "cg_errors (answered dp now ip i a w) = cg_errors w + (if late w (open_calls w ! i) then 1 else 0)"
proof -
  have "late (w\<lparr>open_calls := cs\<rparr>) c = late w c" for cs c by (simp add: late_def split: cg_call.splits)
  then show ?thesis by (simp add: answered_def answer_errors)
qed

lemma details_open:
  assumes "cg_inv w" "cg_page w = Some c" "r \<in> set (cg_rows c)"
  shows "\<exists>g. oget (groups_store w) (row_button r) = Some g \<and> cg_id g = row_button r
    \<and> clientgroupDetails dp now ip (row_button r) w
      = w\<lparr>cg_page := Some (c\<lparr>cg_open := Some (details_of dp now (row_button r) g)\<rparr>),
          cg_sent := cg_sent w @ [(''GET'', ip @ ''/cgroup/'' @ row_button r @ ''/acl'')], open_calls := open_calls w @ [Acl]\<rparr>"
proof -
  obtain g where "oget (groups_store w) (row_button r) = Some g" "cg_id g = row_button r"
    using assms by (auto simp: cg_inv_def)
  then show ?thesis using assms(2) by (intro exI [of _ g]) (cases w, simp add: clientgroupDetails_def cg_send_def)
qed

lemma step_errors:
  assumes "cg_step dp ip w w'" "cg_inv w"
  shows "cg_errors w' = cg_errors w
    \<or> cg_errors w' = cg_errors w + 1 \<and> (\<exists>i a now. i < length (open_calls w) \<and> late w (open_calls w ! i) \<and> w' = answered dp now ip i a w)"
  using assms(1)
proof cases
  case (cg_details c r now)
  with details_open [OF assms(2), of c r dp now ip] show ?thesis by auto
next
  case (cg_server i now a)
  with answered_errors [of dp now ip i a w] show ?thesis by auto
qed (simp_all add: display_def requestClientgroup_def clientgroupUpdateToken_def showClientgroups_def cg_send_def)

end
