(* ===== verification/Clientgroups_Props.thy ===== *)
theory Clientgroups_Props
  imports Clientgroups_Correct
begin

text \<open>
  The properties of the management of client groups.
\<close>

text \<open>C8: In every session, whatever the order of clicks and answers, the details button of a line opens the details of the
  group of that line: it is in the store, nothing throws, and its own permissions are asked for.\<close>

theorem details_button_works:
  assumes "(cg_step dp ip)\<^sup>*\<^sup>* init_cgw w" "cg_page w = Some c" "r \<in> set (cg_rows c)"
  shows "\<exists>g. cg_id g = row_button r \<and> oget (groups_store w) (row_button r) = Some g
    \<and> clientgroupDetails dp now ip (row_button r) w
      = w\<lparr>cg_page := Some (c\<lparr>cg_open := Some (details_of dp now (row_button r) g)\<rparr>),
          cg_sent := cg_sent w @ [(''GET'', ip @ ''/cgroup/'' @ row_button r @ ''/acl'')], open_calls := open_calls w @ [Acl]\<rparr>"
proof -
  from cg_session_inv [OF assms(1)] obtain g where "oget (groups_store w) (row_button r) = Some g" "cg_id g = row_button r"
    "clientgroupDetails dp now ip (row_button r) w
      = w\<lparr>cg_page := Some (c\<lparr>cg_open := Some (details_of dp now (row_button r) g)\<rparr>),
          cg_sent := cg_sent w @ [(''GET'', ip @ ''/cgroup/'' @ row_button r @ ''/acl'')], open_calls := open_calls w @ [Acl]\<rparr>"
    using details_open [OF _ assms(2,3)] by metis
  then show ?thesis by (intro exI [of _ g]) simp
qed

text \<open>The list shows the groups in the order of the answer, each as expired exactly when its expiration date can be read
  and is not later than the current time.\<close>

theorem list_shows_groups:
  assumes "cg_page w \<noteq> None"
  shows "\<exists>c. cg_page (list_success dp now gs w) = Some c \<and> map row_button (cg_rows c) = map cg_id gs
    \<and> map line_cells (cg_rows c) = map (\<lambda>g. [cg_name g, ip_cidr g, created_on g, last_modified g, Str (expiration g)]) gs
    \<and> map row_status (cg_rows c) = map (\<lambda>g. if \<exists>t \<le> now. dp (expiration g) = Some t then Expired else Active) gs"
  using assms by (auto simp: list_success_def renderClientgroups_def group_line_def cg_status_def split: option.splits)

text \<open>C26: The only handlers that ever throw are those of answers whose element has left the page meanwhile: the list after a
  logout, the permissions after the list was drawn again.\<close>

theorem only_late_answers_throw:
  assumes "(cg_step dp ip)\<^sup>*\<^sup>* init_cgw w" "cg_step dp ip w w'"
  shows "cg_errors w' = cg_errors w
    \<or> cg_errors w' = cg_errors w + 1 \<and> (\<exists>i a now. i < length (open_calls w) \<and> late w (open_calls w ! i) \<and> w' = answered dp now ip i a w)"
  using step_errors [OF assms(2) cg_session_inv [OF assms(1)]] .

text \<open>C40: The permissions of one group can stand under the details of another: after pressing the details buttons of two lines,
  the answer about the first group is written into the details of the second.\<close>

theorem permissions_of_other_group:
  assumes "(cg_step dp ip)\<^sup>*\<^sup>* init_cgw w" "cg_page w = Some c" "r1 \<in> set (cg_rows c)" "r2 \<in> set (cg_rows c)"
    and "w2 = clientgroupDetails dp now ip (row_button r2) (clientgroupDetails dp now ip (row_button r1) w)"
  shows "last (butlast (cg_sent w2)) = (''GET'', ip @ ''/cgroup/'' @ row_button r1 @ ''/acl'')
    \<and> (\<exists>c' d. cg_page (answered dp now ip (length (open_calls w)) (Success [] txt) w2) = Some c' \<and> cg_open c' = Some d
        \<and> (''ID'', Str (row_button r2)) \<in> set (det_cells d) \<and> det_perms d = Permissions txt)"
proof -
  let ?w1 = "clientgroupDetails dp now ip (row_button r1) w"
  have inv: "cg_inv w" using cg_session_inv [OF assms(1)] .
  obtain g1 where w1: "?w1 = w\<lparr>cg_page := Some (c\<lparr>cg_open := Some (details_of dp now (row_button r1) g1)\<rparr>),
      cg_sent := cg_sent w @ [(''GET'', ip @ ''/cgroup/'' @ row_button r1 @ ''/acl'')], open_calls := open_calls w @ [Acl]\<rparr>"
    using details_open [OF inv assms(2,3)] by metis
  let ?c1 = "c\<lparr>cg_open := Some (details_of dp now (row_button r1) g1)\<rparr>"
  have "cg_inv ?w1" using inv by (rule cg_inv_details)
  moreover have "cg_page ?w1 = Some ?c1" "r2 \<in> set (cg_rows ?c1)" using assms(4) by (simp_all add: w1)
  ultimately obtain g2 where g2: "cg_id g2 = row_button r2"
    and w2: "w2 = ?w1\<lparr>cg_page := Some (?c1\<lparr>cg_open := Some (details_of dp now (row_button r2) g2)\<rparr>),
      cg_sent := cg_sent ?w1 @ [(''GET'', ip @ ''/cgroup/'' @ row_button r2 @ ''/acl'')], open_calls := open_calls ?w1 @ [Acl]\<rparr>"
    using details_open [of ?w1 ?c1 r2 dp now ip] assms(5) by metis
  have "open_calls w2 ! length (open_calls w) = Acl" by (simp add: w2 w1 nth_append)
  then have "answered dp now ip (length (open_calls w)) (Success [] txt) w2
      = set_perms (Permissions txt) (w2\<lparr>open_calls := remove_nth (length (open_calls w)) (open_calls w2)\<rparr>)"
    by (simp only: answered_def answer.simps)
  then show ?thesis using g2 by (simp add: w2 w1 set_perms_def details_of_def butlast_append)
qed

section \<open>A session\<close>

definition group_of_id :: "string \<Rightarrow> cgroup" where
  "group_of_id gid = \<lparr>cg_id = gid, cg_name = Str gid, ip_cidr = Str ''*'', created_on = Null, last_modified = Null,
     expiration = ''never'', cg_token = Null\<rparr>"

definition no_date :: "string \<Rightarrow> jsint" where
  "no_date s = None"

definition listed :: cgw where
  "listed = answered no_date 0 ''ip'' 0 (Success [group_of_id ''a'', group_of_id ''b''] []) (display ''ip'' True init_cgw)"

definition line_of :: "string \<Rightarrow> cg_row" where
  "line_of gid = group_line no_date 0 (group_of_id gid)"

lemma listed_reached: "(cg_step no_date ''ip'')\<^sup>*\<^sup>* init_cgw listed"
proof -
  have "cg_step no_date ''ip'' init_cgw (display ''ip'' True init_cgw)" by (rule cg_display)
  moreover have "cg_step no_date ''ip'' (display ''ip'' True init_cgw) listed"
    unfolding listed_def by (rule cg_server) (simp add: display_def showClientgroups_def cg_send_def init_cgw_def)
  ultimately show ?thesis by (meson converse_rtranclp_into_rtranclp rtranclp.rtrancl_refl)
qed

lemma listed_page: "cg_page listed = Some \<lparr>cg_rows = [line_of ''a'', line_of ''b''], cg_open = None\<rparr>"
  by code_simp

theorem details_button_works_witness:
  "\<exists>c. cg_page (clientgroupDetails no_date 0 ''ip'' ''b'' listed) = Some c \<and> cg_open c \<noteq> None"
proof -
  have b: "row_button (line_of ''b'') = ''b''" by code_simp
  show ?thesis using details_button_works [OF listed_reached listed_page, of "line_of ''b''" 0] by (auto simp: b)
qed

theorem list_shows_groups_witness:
  "\<exists>c. cg_page (list_success no_date 0 [group_of_id ''a''] listed) = Some c \<and> map row_status (cg_rows c) = [Active]"
  using list_shows_groups [of listed no_date 0 "[group_of_id ''a'']"] listed_page by (auto simp: no_date_def)

definition logged_out :: cgw where
  "logged_out = display ''ip'' False (display ''ip'' True init_cgw)"

theorem only_late_answers_throw_witness:
  "\<exists>i a now. i < length (open_calls logged_out) \<and> late logged_out (open_calls logged_out ! i)
    \<and> answered no_date 0 ''ip'' 0 Failure logged_out = answered no_date now ''ip'' i a logged_out"
proof -
  have "cg_step no_date ''ip'' init_cgw (display ''ip'' True init_cgw)" by (rule cg_display)
  moreover have "cg_step no_date ''ip'' (display ''ip'' True init_cgw) logged_out" unfolding logged_out_def by (rule cg_display)
  ultimately have reached: "(cg_step no_date ''ip'')\<^sup>*\<^sup>* init_cgw logged_out"
    by (meson converse_rtranclp_into_rtranclp rtranclp.rtrancl_refl)
  have "0 < length (open_calls logged_out)" by code_simp
  then have "cg_step no_date ''ip'' logged_out (answered no_date 0 ''ip'' 0 Failure logged_out)" by (rule cg_server)
  from only_late_answers_throw [OF reached this]
  have "cg_errors (answered no_date 0 ''ip'' 0 Failure logged_out) = cg_errors logged_out
    \<or> (\<exists>i a now. i < length (open_calls logged_out) \<and> late logged_out (open_calls logged_out ! i)
        \<and> answered no_date 0 ''ip'' 0 Failure logged_out = answered no_date now ''ip'' i a logged_out)" by blast
  moreover have "cg_errors (answered no_date 0 ''ip'' 0 Failure logged_out) \<noteq> cg_errors logged_out" by code_simp
  ultimately show ?thesis by blast
qed

theorem permissions_of_other_group_witness:
  "\<exists>c d. cg_page (answered no_date 0 ''ip'' 0 (Success [] ''acl of a'')
      (clientgroupDetails no_date 0 ''ip'' ''b'' (clientgroupDetails no_date 0 ''ip'' ''a'' listed))) = Some c
    \<and> cg_open c = Some d \<and> (''ID'', Str ''b'') \<in> set (det_cells d) \<and> det_perms d = Permissions ''acl of a''"
proof -
  have b: "row_button (line_of ''a'') = ''a''" "row_button (line_of ''b'') = ''b''" "open_calls listed = []" by code_simp+
  show ?thesis using permissions_of_other_group [OF listed_reached listed_page _ _ refl, of "line_of ''a''" "line_of ''b''" 0 "''acl of a''"]
    by (auto simp: b)
qed

end
