(* ===== verification/Pages.thy ===== *)
theory Pages
  imports Monitor_Actions
begin

text \<open>
  The smaller parts of the interface: the custom button of the job page that deletes a job of MG-RAST (js/customButton.js),
  the home page with the state of the queue (widgets/widget.awe_home.js), and the check of the Shock server of the
  submission form (widgets/widget.awe_submission.js). Requests and the handlers of their answers are those of the monitor.
\<close>

section \<open>Deleting a job of MG-RAST\<close>

text \<open>\<^verbatim>\<open>prompt\<close> returns null when the user cancels; an empty reason also counts as no reason. \<^verbatim>\<open>replace\<close> with a text
  replaces its first occurrence. The header of a user who is not logged in has no \<^verbatim>\<open>Authorization\<close>.\<close>

fun replace_first :: "string \<Rightarrow> string \<Rightarrow> string \<Rightarrow> string" where
  "replace_first a b [] = (if a = [] then b else [])"
| "replace_first a b (c # cs) =
     (if take (length a) (c # cs) = a then b @ drop (length a) (c # cs) else c # replace_first a b cs)"

record post =
  po_url :: string
  po_auth :: string
  po_body :: string

definition delete_body :: "jsval \<Rightarrow> string \<Rightarrow> string" where
  \<open>delete_body mgid reason = ''{ "metagenome_id": "'' @ to_string mgid @ ''","reason": "'' @ reason @ ''" }''\<close>

definition deleteMGRASTJob :: "string \<Rightarrow> string option \<Rightarrow> string option \<Rightarrow> jsval \<Rightarrow> mon \<Rightarrow> (post option \<times> mon) js" where
  "deleteMGRASTJob mgrast_api reason auth mgid m =
     (case reason of None \<Rightarrow> ok (None, m)
      | Some r \<Rightarrow> if r = [] then ok (None, m)
          else (case auth of None \<Rightarrow> throw TypeError
                | Some a \<Rightarrow>
                    let url = mgrast_api @ ''/job/delete''
                    in ok (Some \<lparr>po_url = url, po_auth = replace_first ''OAuth'' ''mgrast'' a, po_body = delete_body mgid r\<rparr>,
                        send ''POST'' url (Notify [Redisplay, Alert ''job deleted from MG-RAST''] [Alert ''failed to delete job from MG-RAST'']) m)))"

text \<open>The condition of the button, asked of \<^verbatim>\<open>stm.DataStore.job[id]\<close>: reading the state of undefined throws.\<close>

definition showDeleteMGRASTButton :: "job option \<Rightarrow> bool js" where
  "showDeleteMGRASTButton j =
     (case j of None \<Rightarrow> throw TypeError | Some j \<Rightarrow> ok (job_state j = ''suspend'' \<and> pipeline j = Str ''mgrast-prod''))"

section \<open>The home page\<close>

record server_info =
  sv_version :: jsval
  sv_contact :: jsval
  sv_title :: "jsval option"
  server_time :: jsval
  uptime :: jsval
  queue_status :: jsval

record home =
  info_rows :: "(string \<times> jsval) list option"
  serverTitle :: "jsval option"
  admin_rows :: "(string \<times> jsval) list option"
  queue_label :: "string option"
  queue_button :: "string option"

definition init_home :: home where
  "init_home = \<lparr>info_rows = None, serverTitle = None, admin_rows = None, queue_label = None, queue_button = None\<rparr>"

text \<open>\<^verbatim>\<open>display\<close> empties the page and asks for the description of the server; the title stands outside of the page.\<close>

definition home_display :: "string \<Rightarrow> home \<Rightarrow> home \<times> request" where
  "home_display awe_ip h =
     (h\<lparr>info_rows := None, admin_rows := None, queue_label := None, queue_button := None\<rparr>, (''GET'', awe_ip))"

definition home_success :: "bool \<Rightarrow> server_info \<Rightarrow> home \<Rightarrow> home" where
  "home_success admin d h =
     (let h1 = h\<lparr>info_rows := Some ([(''Server Version'', sv_version d), (''Administrative Contact'', sv_contact d)]
                   @ (case sv_title d of None \<Rightarrow> [] | Some t \<Rightarrow> [(''Title'', t)])),
                 serverTitle := (case sv_title d of None \<Rightarrow> serverTitle h | Some t \<Rightarrow> Some t)\<rparr>;
          running = loose_eq (queue_status d) (Str ''running'')
      in if admin
         then h1\<lparr>admin_rows := Some [(''server time'', server_time d), (''uptime'', uptime d)],
                 queue_label := Some (if running then ''running'' else ''suspended''),
                 queue_button := Some (if running then ''suspend'' else ''resume'')\<rparr>
         else h1)"

definition queue :: "string \<Rightarrow> string \<Rightarrow> request" where
  "queue awe_ip action = (''GET'', awe_ip @ ''/queue?'' @ action)"

text \<open>The button to suspend the queue asks for a confirmation, the one to resume it does not.\<close>

definition queue_click :: "string \<Rightarrow> bool \<Rightarrow> home \<Rightarrow> request option" where
  "queue_click awe_ip confirmed h =
     (case queue_button h of None \<Rightarrow> None
      | Some b \<Rightarrow> if b = ''suspend'' then (if confirmed then Some (queue awe_ip ''suspend'') else None)
          else Some (queue awe_ip ''resume''))"

definition queue_success :: "string \<Rightarrow> home \<Rightarrow> home \<times> request" where
  "queue_success awe_ip h = home_display awe_ip h"

section \<open>The submission form\<close>

record subm =
  shock_checked :: bool
  shock_url :: "string option"
  subm_alerts :: "string list"

definition init_subm :: subm where
  "init_subm = \<lparr>shock_checked = False, shock_url = None, subm_alerts = []\<rparr>"

definition check_shock :: "string \<Rightarrow> request" where
  "check_shock val = (''GET'', ''http://'' @ val)"

text \<open>The answer: its data and the \<^verbatim>\<open>type\<close> of the data, if both are present. \<^verbatim>\<open>SHOCK.init\<close> is the third-party
  library; what it is given is kept in \<^verbatim>\<open>shock_url\<close>.\<close>

definition shock_success :: "string \<Rightarrow> jsval option \<Rightarrow> subm \<Rightarrow> subm" where
  "shock_success url ty s =
     (if (case ty of None \<Rightarrow> False | Some v \<Rightarrow> truthy v \<and> loose_eq v (Str ''Shock''))
      then s\<lparr>shock_checked := True, shock_url := Some url,
             subm_alerts := subm_alerts s @ [''successfully connected to SHOCK server'']\<rparr>
      else s\<lparr>subm_alerts := subm_alerts s @ [''could not identify target as SHOCK server'']\<rparr>)"

definition shock_error :: "string \<Rightarrow> subm \<Rightarrow> subm" where
  "shock_error err s = s\<lparr>subm_alerts := subm_alerts s @ [''could not reach server: '' @ err]\<rparr>"

text \<open>\<^verbatim>\<open>RetinaConfig.awe_url\<close> is a configuration entry; a missing entry is read as undefined.\<close>

definition submit_jobscript :: "jsval \<Rightarrow> request" where
  "submit_jobscript awe_url = (''POST'', to_string awe_url @ ''/job'')"

end
