(* ===== verification/Pages_Props.thy ===== *)
theory Pages_Props
  imports Pages
begin

text \<open>
  The properties of the smaller parts of the interface.
\<close>

section \<open>Texts in JSON\<close>

text \<open>The quoting of \<^verbatim>\<open>JSON.stringify\<close>: quotes, backslashes and control characters are escaped.\<close>

definition hex_digit :: "nat \<Rightarrow> char" where
  "hex_digit n = ''0123456789abcdef'' ! (n mod 16)"

definition json_char :: "char \<Rightarrow> string" where
  "json_char c =
     (if c = CHR 0x22 \<or> c = CHR 0x5C then [CHR 0x5C, c]
      else if c = CHR 0x08 then [CHR 0x5C, CHR ''b''] else if c = CHR 0x09 then [CHR 0x5C, CHR ''t'']
      else if c = CHR 0x0A then [CHR 0x5C, CHR ''n''] else if c = CHR 0x0C then [CHR 0x5C, CHR ''f'']
      else if c = CHR 0x0D then [CHR 0x5C, CHR ''r'']
      else if of_char c < (32 :: nat) then [CHR 0x5C, CHR ''u'', CHR ''0'', CHR ''0'', hex_digit (of_char c div 16), hex_digit (of_char c)]
      else [c])"

definition json_quote :: "string \<Rightarrow> string" where
  "json_quote s = [CHR 0x22] @ concat (map json_char s) @ [CHR 0x22]"

definition needs_escape :: "char \<Rightarrow> bool" where
  "needs_escape c \<longleftrightarrow> c = CHR 0x22 \<or> c = CHR 0x5C \<or> of_char c < (32 :: nat)"

lemma json_char_plain: "\<not> needs_escape c \<Longrightarrow> json_char c = [c]"
  by (auto simp: json_char_def needs_escape_def)

lemma json_char_length: "length (json_char c) \<ge> 1" "needs_escape c \<Longrightarrow> length (json_char c) \<ge> 2"
  by (auto simp: json_char_def needs_escape_def)

lemma quoted_length: "length s \<le> length (concat (map json_char s))"
proof (induction s)
  case (Cons c s)
  with json_char_length(1) [of c] show ?case by simp
qed simp

lemma escaped_longer: "c \<in> set s \<Longrightarrow> needs_escape c \<Longrightarrow> length s < length (concat (map json_char s))"
proof (induction s)
  case (Cons d s)
  show ?case
  proof (cases "c = d")
    case True
    then show ?thesis using json_char_length(2) [of d] quoted_length [of s] Cons.prems(2) by simp
  next
    case False
    then show ?thesis using Cons json_char_length(1) [of d] by simp
  qed
qed simp

lemma quoted_plain: "\<forall>c \<in> set s. \<not> needs_escape c \<Longrightarrow> concat (map json_char s) = s"
  by (induction s) (simp_all add: json_char_plain)

definition quoted_body :: "jsval \<Rightarrow> string \<Rightarrow> string" where
  \<open>quoted_body mgid reason = ''{ "metagenome_id": '' @ json_quote (to_string mgid) @ '',"reason": '' @ json_quote reason @ '' }''\<close>

text \<open>C33: The body of the request to delete a job is the JSON document of the id and the reason exactly when neither contains
  a quote, a backslash or a control character: they are not escaped.\<close>

theorem delete_body_json_iff:
  "delete_body mgid reason = quoted_body mgid reason
     \<longleftrightarrow> list_all (\<lambda>c. \<not> needs_escape c) (to_string mgid @ reason)"
proof
  assume "list_all (\<lambda>c. \<not> needs_escape c) (to_string mgid @ reason)"
  then show "delete_body mgid reason = quoted_body mgid reason"
    by (simp add: delete_body_def quoted_body_def json_quote_def quoted_plain list_all_iff)
next
  assume eq: "delete_body mgid reason = quoted_body mgid reason"
  let ?e = "\<lambda>s. length (concat (map json_char s))"
  have sum: "?e (to_string mgid) + ?e reason = length (to_string mgid) + length reason"
    using arg_cong [OF eq, of length] by (simp add: delete_body_def quoted_body_def json_quote_def)
  have "\<not> needs_escape c" if "c \<in> set (to_string mgid) \<union> set reason" for c
  proof
    assume "needs_escape c"
    with that have "length (to_string mgid) < ?e (to_string mgid) \<or> length reason < ?e reason" using escaped_longer by blast
    with sum quoted_length [of "to_string mgid"] quoted_length [of reason] show False by linarith
  qed
  then show "list_all (\<lambda>c. \<not> needs_escape c) (to_string mgid @ reason)" by (auto simp: list_all_iff)
qed

section \<open>The button on the job page\<close>

definition delete_button :: custom_button where
  "delete_button = (''delete'', Some (\<lambda>j. showDeleteMGRASTButton j = Inr True))"

text \<open>With the button configured as a custom button, the page of a stored job shows it exactly when the job is suspended and
  belongs to the production pipeline; its condition never throws.\<close>

theorem delete_button_shown:
  assumes "oget store jid = Some j" "job_id j = jid" "job_tasks j \<noteq> []" "jobDetails h ip [delete_button] store jid = Inr (rs, pg)"
  shows "jp_custom pg = (if job_state j = ''suspend'' \<and> pipeline j = Str ''mgrast-prod'' then [''delete''] else [])
    \<and> (\<exists>b. showDeleteMGRASTButton (oget store (job_id j)) = Inr b)"
proof -
  have "jp_custom pg = shown_buttons [delete_button] (oget store (job_id j))"
    using assms by (auto simp: jobDetails_def stagePills_def Let_def jbind_Inr_iff split: prod.splits)
  then show ?thesis using assms(1,2) by (simp add: shown_buttons_def delete_button_def showDeleteMGRASTButton_def)
qed

definition job_done :: job where
  "job_done = \<lparr>job_id = ''j'', job_state = ''suspend'', job_name = Str ''n'', submittime = '''', pipeline = Str ''mgrast-prod'',
     remaintasks = Null, job_notes = Null, lastfailed = Null,
     job_tasks = [\<lparr>jt_state = ''queued'', jt_desc = Str ''qc'', createddate = '''', starteddate = '''', completeddate = '''',
                   jt_inputs = [], jt_outputs = []\<rparr>]\<rparr>"

definition mhost0 :: mhost where
  "mhost0 = \<lparr>byteSize = (\<lambda>_. ''''), base64 = (\<lambda>s. s), date_parse = (\<lambda>_. None), locale_string = (\<lambda>_. ''''), locale_compare = (\<lambda>_ _. 0)\<rparr>"

theorem delete_button_shown_witness:
  "\<exists>rs pg. jobDetails mhost0 ''ip'' [delete_button] [(''j'', job_done)] ''j'' = Inr (rs, pg) \<and> jp_custom pg = [''delete'']"
proof -
  have stored: "oget [(''j'', job_done)] ''j'' = Some job_done" by (simp add: oget_def)
  have "(case jobDetails mhost0 ''ip'' [] [(''j'', job_done)] ''j'' of Inl e \<Rightarrow> False | Inr (rs, pg) \<Rightarrow> True)" by code_simp
  then have "\<exists>rs pg. jobDetails mhost0 ''ip'' [delete_button] [(''j'', job_done)] ''j'' = Inr (rs, pg)"
    by (simp add: jobDetails_def stored stagePills_def Let_def jbind_def split: sum.splits prod.splits if_splits)
  then obtain rs pg where r: "jobDetails mhost0 ''ip'' [delete_button] [(''j'', job_done)] ''j'' = Inr (rs, pg)" by blast
  from delete_button_shown [OF stored _ _ r] r show ?thesis by (auto simp: job_done_def)
qed

section \<open>The Shock server\<close>

text \<open>Once a server was accepted, no later check withdraws the acceptance: a check of another server that fails leaves the form
  marked as checked and connected to the first.\<close>

theorem shock_check_kept:
  "shock_checked (shock_error err (shock_success url (Some (Str ''Shock'')) s))
   \<and> shock_url (shock_error err (shock_success url (Some (Str ''Shock'')) s)) = Some url
   \<and> shock_checked (shock_success url' ty (shock_success url (Some (Str ''Shock'')) s))"
  by (simp add: shock_error_def shock_success_def loose_eq_def nullish_def)

end
