(* ===== verification/Spec2Isabelle.thy ===== *)
theory Spec2Isabelle
  imports Table_Props Workflow_Props Monitor_Props Panel_Props Top_Props Clientgroups_Props Pages_Props
begin

text \<open>
  The web interface of AWE, the workflow engine for scientific pipelines: the JavaScript front end under
  src/site_deprecated, which shows and controls an AWE server through its REST interface.

  \<^bold>\<open>The program.\<close> The page loads widgets (src/site_deprecated/widgets) into the Retina framework. The status monitor
  (widget.awe_monitor.js) shows jobs, workunits and clients in tables drawn by the table renderer
  (renderers/renderer.table.js), opens the page of one job with its stages, and resumes, recomputes or deletes jobs by
  requests to the server. The workflow editor (widget.awe_workflow.js) builds a workflow document from a form and shows
  its tasks as boxes on a playground. The client panel (widget.awe_panel.js) and the list of running work
  (widget.awe_top.js) poll the server for clients and workunits. The client groups (widget.awe_clientgroups.js), the home
  page (widget.awe_home.js), the submission form (widget.awe_submission.js) and a custom button of the job page
  (js/customButton.js) are smaller pages. Components share the Retina and jQuery libraries, the object
  \<^verbatim>\<open>stm.DataStore\<close> and the server; the monitor calls the renderer and is called back by it.

  \<^bold>\<open>The language.\<close> Js_Prelude: exceptions as the sum type \<^verbatim>\<open>js\<close>, traversals that may throw, integers with NaN, the shared
  lemmas on lists. Js_Strings: numbers as texts and back, \<^verbatim>\<open>parseInt\<close>, \<^verbatim>\<open>split\<close>, \<^verbatim>\<open>join\<close>, the tag and question mark
  replacements. Js_Values: values, doubles as rounded rationals, truth, loose equality, order, conversion to
  texts. Js_Objects: objects as lists of properties in the order of creation, with the order of enumeration of the
  language; the locale \<^verbatim>\<open>property_map\<close> is their contract. Js_Sort: \<^verbatim>\<open>Array.sort\<close>; the locale \<^verbatim>\<open>stable_sort\<close> is what the
  language promises of it, so results hold for the sort of any engine. Js_Double: quotients of integers in doubles and
  \<^verbatim>\<open>parseInt\<close> of a number.

  \<^bold>\<open>The table renderer.\<close> Table_State (settings, data), Table_Filter (parsing, filters), Table_View (sorting, header,
  page, \<^verbatim>\<open>render_table\<close>) and Table_Nav (handlers, \<^verbatim>\<open>update\<close> and its answer) follow renderer.table.js from top to bottom. A
  page is a list of tables with what was last drawn of each, the variable \<^verbatim>\<open>renderer\<close> of the file (\<^verbatim>\<open>cur\<close>) and a log of
  requests. Table_Correct, Table_Nav_Correct and Table_Url hold the lemmas, Table_Props the properties: what a page shows, that
  browsing shows every row once, what the filters accept, that every sequence of events keeps the tables well
  formed, the addresses of the requests, and the cases in which a table throws or shows something else than announced.

  \<^bold>\<open>The workflow editor.\<close> Workflow_Editor is widget.awe_workflow.js: the document, the lists of the form, the boxes, and
  every handler, with the step relation \<^verbatim>\<open>wf_step\<close> of an editing session. Workflow_Correct and Workflow_Props show that
  sessions build numbered, acyclic workflows, that loading a saved document restores it, how boxes are marked, dragged and placed.

  \<^bold>\<open>The monitor.\<close> Monitor_Jobs: the documents of the server, rows, dates, durations, the page of a job. Monitor_Actions: every
  request with the handlers of its answers, and the relation \<^verbatim>\<open>mon_step\<close> of a session in which answers come in any
  order or never. Monitor_Tables: \<^verbatim>\<open>display\<close> and \<^verbatim>\<open>update_data\<close> on top of the model of the renderer. Monitor_Export: the
  workbook as the list of its cell writes. Monitor_Correct, Monitor_Session and Monitor_View hold the lemmas, Monitor_Props the
  properties: the message that jobs were resumed is given exactly once all requests of the call are confirmed; the
  tables of the display and their first requests; the rows made of an answer; the stages of a job; durations; the cells of
  the workbook.

  \<^bold>\<open>The polling widgets.\<close> Panel and Top are the two widgets; the locale \<^verbatim>\<open>polling\<close> (theory Polling) is the contract of
  their answer handlers, interpreted for both. Panel_Correct, Panel_Props, Top_Correct and Top_Props show that the panel puts
  every client in one box and counts the clients received last, that the list of running work loses and doubles
  nothing in gathering, and exactly when it fails.

  \<^bold>\<open>The smaller pages.\<close> Clientgroups models the page as nested elements and its sessions as the relation \<^verbatim>\<open>cg_step\<close>;
  Clientgroups_Correct and Clientgroups_Props show that every button names a stored group and which answers throw. Pages models
  the custom button, the home page and the submission form; Pages_Props has the quoting of a request body and the
  condition of the button.

  \<^bold>\<open>Parameters.\<close> What the sources only call is a field of a record of the host or an argument: the sorts and key
  lists of Retina, byte sizes, Base64, dates and locale, and regular expressions given by the user. Hypotheses about them
  are documented behaviour (the key list returns the names of the properties; a comparison by id is consistent).

  \<^bold>\<open>Bounds.\<close> A char stands for a code unit below 256. Browsing takes at most as many clicks as there are rows, the fuel of
  \<^verbatim>\<open>browse\<close>. Integers stand for numbers below \<open>2 ^ 53\<close>, where the arithmetic of doubles on integers is exact; durations are
  bounded by \<open>10 ^ 15\<close> milliseconds, where the quotient of two doubles is close enough for its integer part to be that
  of the exact quotient. Own properties named like inherited ones of objects are treated where the source uses a text typed
  by the user as a name, and excluded for ids given by the server.

  \<^bold>\<open>Not modelled.\<close> Markup that only styles, and handlers that only show or hide an element; the three popovers of the
  monitor; printing a document into a window or box; loading and saving files; the Retina framework, jQuery and the workbook
  library (third-party code that is not part of the repository); the server, worker and tools in Go, Perl and Python, which the
  interface knows only by the documents they return; the bundles of Swagger UI.
\<close>

end
